theory Spec2Isabelle
  imports Main "HOL-Library.AList"
begin

unbundle bit_operations_syntax

section \<open>JavaScript values\<close>

text \<open>
  The TypeScript types of \<^verbatim>\<open>llm.ts\<close> are erased at run time: a Definition
  (\<^verbatim>\<open>ProcedureBuilderDef\<close>) is a plain object whose keys keep their insertion order, and
  both the object spread \<^verbatim>\<open>{...def, name}\<close> and \<^verbatim>\<open>JSON.stringify(def)\<close> depend on that
  order and on which keys are present. Values are therefore modelled untyped.

  A number is carried as the text JavaScript prints for it (\<^verbatim>\<open>0.7\<close>, \<^verbatim>\<open>-1\<close>): the code
  modelled here never computes with the numbers inside a Definition. A function value is a
  token (what it does when called is given by the collaborator record below) together with
  its own properties, since \<^verbatim>\<open>create()\<close> attaches \<^verbatim>\<open>__internal_def\<close> to the function it
  returns. An object is the list of its own enumerable properties in insertion order; keys
  are assumed not to be array indices, which JavaScript would order first.
\<close>

datatype jsval =
    JUndefined
  | JNull
  | JBool bool
  | JNum string
  | JStr string
  | JFun nat "(string \<times> jsval) list"
  | JArr "jsval list"
  | JObj "(string \<times> jsval) list"

type_synonym obj = "(string \<times> jsval) list"

datatype error = Error string | TypeError string

text \<open>\<^verbatim>\<open>o[k]\<close> on an object's own properties; a missing key reads as \<^verbatim>\<open>undefined\<close>.\<close>

definition obj_get :: "string \<Rightarrow> obj \<Rightarrow> jsval" where
  "obj_get k kvs = (case map_of kvs k of None \<Rightarrow> JUndefined | Some v \<Rightarrow> v)"

text \<open>
  \<^verbatim>\<open>v.k\<close> where \<^verbatim>\<open>v\<close> is known not to be \<^verbatim>\<open>undefined\<close> or \<^verbatim>\<open>null\<close>, or is read through
  \<^verbatim>\<open>?.\<close>: primitives and arrays have none of the keys this code reads.
\<close>

fun getProp :: "string \<Rightarrow> jsval \<Rightarrow> jsval" where
  "getProp k (JObj kvs) = obj_get k kvs"
| "getProp k (JFun f kvs) = obj_get k kvs"
| "getProp k v = JUndefined"

text \<open>Truthiness, as \<^verbatim>\<open>!x\<close>, \<^verbatim>\<open>x || y\<close> and \<^verbatim>\<open>x ? a : b\<close> test it.\<close>

fun truthy :: "jsval \<Rightarrow> bool" where
  "truthy JUndefined = False"
| "truthy JNull = False"
| "truthy (JBool b) = b"
| "truthy (JNum n) = (n \<noteq> ''0'' \<and> n \<noteq> ''-0'' \<and> n \<noteq> ''NaN'')"
| "truthy (JStr s) = (s \<noteq> [])"
| "truthy v = True"

text \<open>\<^verbatim>\<open>n.toString()\<close> for a non-negative integer below \<^verbatim>\<open>1e21\<close>: its decimal digits.\<close>

fun toString :: "nat \<Rightarrow> string" where
  "toString n =
     (if n < 10 then [''0123456789'' ! n]
      else toString (n div 10) @ [''0123456789'' ! (n mod 10)])"

declare toString.simps [simp del]

text \<open>
  The own enumerable properties an object spread \<^verbatim>\<open>...v\<close> copies. An array has its
  elements and a string its characters under the index keys; spreading \<^verbatim>\<open>undefined\<close>,
  \<^verbatim>\<open>null\<close>, a boolean or a number copies nothing. The one spread of this code that may
  meet an array or a string, \<^verbatim>\<open>{...p.finalResponse}\<close>, fills a new object, so the index
  keys come in their order.
\<close>

fun ownProps :: "jsval \<Rightarrow> obj" where
  "ownProps (JObj kvs) = kvs"
| "ownProps (JFun f kvs) = kvs"
| "ownProps (JArr xs) = zip (map toString [0 ..< length xs]) xs"
| "ownProps (JStr s) = zip (map toString [0 ..< length s]) (map (\<lambda>c. JStr [c]) s)"
| "ownProps v = []"

text \<open>
  \<^verbatim>\<open>{...a, ...b}\<close>: the properties of \<^verbatim>\<open>b\<close> are assigned over those of \<^verbatim>\<open>a\<close> in order. An
  assignment to an existing key keeps the key's position (\<^const>\<open>AList.update\<close>), a new key
  goes last.
\<close>

definition spread :: "obj \<Rightarrow> obj \<Rightarrow> obj" where
  "spread a b = fold (\<lambda>kv acc. AList.update (fst kv) (snd kv) acc) b a"

text \<open>\<^verbatim>\<open>xs || []\<close> for an optional array field.\<close>

fun orEmpty :: "jsval \<Rightarrow> jsval list" where
  "orEmpty (JArr xs) = xs"
| "orEmpty v = []"

subsection \<open>\<^verbatim>\<open>JSON.stringify\<close>\<close>

definition hexDigit :: "nat \<Rightarrow> char" where
  "hexDigit n = ''0123456789abcdef'' ! (n mod 16)"

definition escapeChar :: "char \<Rightarrow> string" where
  "escapeChar c =
     (if c = CHR 0x22 then [CHR 0x5C, CHR 0x22]
      else if c = CHR 0x5C then [CHR 0x5C, CHR 0x5C]
      else if c = CHR 0x08 then [CHR 0x5C, CHR ''b'']
      else if c = CHR 0x0C then [CHR 0x5C, CHR ''f'']
      else if c = CHR 0x0A then [CHR 0x5C, CHR ''n'']
      else if c = CHR 0x0D then [CHR 0x5C, CHR ''r'']
      else if c = CHR 0x09 then [CHR 0x5C, CHR ''t'']
      else if (of_char c :: nat) < 32
        then [CHR 0x5C, CHR ''u'', CHR ''0'', CHR ''0'',
              hexDigit (of_char c div 16), hexDigit (of_char c)]
      else [c])"

definition quote :: "string \<Rightarrow> string" where
  "quote s = [CHR 0x22] @ concat (map escapeChar s) @ [CHR 0x22]"

fun join :: "string \<Rightarrow> string list \<Rightarrow> string" where
  "join sep [] = []"
| "join sep [x] = x"
| "join sep (x # y # ys) = x @ sep @ join sep (y # ys)"

text \<open>
  \<^verbatim>\<open>JSON.stringify(v)\<close> with no replacer and no indentation; \<^const>\<open>None\<close> is the result
  \<^verbatim>\<open>undefined\<close>. A property whose value is \<^verbatim>\<open>undefined\<close> or a function is left out of an
  object and written \<^verbatim>\<open>null\<close> in an array; a non-finite number is written \<^verbatim>\<open>null\<close>.
\<close>

fun JSON_stringify :: "jsval \<Rightarrow> string option"
  and stringify_elements :: "jsval list \<Rightarrow> string list"
  and stringify_properties :: "obj \<Rightarrow> string list" where
  "JSON_stringify JUndefined = None"
| "JSON_stringify (JFun f kvs) = None"
| "JSON_stringify JNull = Some ''null''"
| "JSON_stringify (JBool b) = Some (if b then ''true'' else ''false'')"
| "JSON_stringify (JNum n) =
     Some (if n = ''NaN'' \<or> n = ''Infinity'' \<or> n = ''-Infinity'' then ''null'' else n)"
| "JSON_stringify (JStr s) = Some (quote s)"
| "JSON_stringify (JArr xs) = Some (''['' @ join '','' (stringify_elements xs) @ '']'')"
| "JSON_stringify (JObj kvs) = Some (''{'' @ join '','' (stringify_properties kvs) @ ''}'')"
| "stringify_elements [] = []"
| "stringify_elements (x # xs) =
     (case JSON_stringify x of None \<Rightarrow> ''null'' | Some t \<Rightarrow> t) # stringify_elements xs"
| "stringify_properties [] = []"
| "stringify_properties (kv # kvs) =
     (case JSON_stringify (snd kv) of
        None \<Rightarrow> stringify_properties kvs
      | Some t \<Rightarrow> (quote (fst kv) @ '':'' @ t) # stringify_properties kvs)"

subsection \<open>The content hash\<close>

text \<open>
  Modelled from the spec: \<^verbatim>\<open>cyrb53\<close> (\<^verbatim>\<open>./cyrb53\<close> is imported by \<^verbatim>\<open>llm.ts\<close> and is not
  among the sources). The spec asks for a deterministic, fast, non-cryptographic hash of
  the serialized text; this is the 53-bit hash the import names, with seed 0. The two
  32-bit accumulators are naturals below \<open>2 ^ 32\<close>: \<^verbatim>\<open>Math.imul\<close> is multiplication with
  the wrap-around written out, \<^verbatim>\<open>>>>\<close> is \<^const>\<open>drop_bit\<close>, and a character's code unit is
  read with \<^const>\<open>of_char\<close>.
\<close>

definition imul :: "nat \<Rightarrow> nat \<Rightarrow> nat" where
  "imul a b = (a * b) mod 4294967296"

fun cyrb53_loop :: "string \<Rightarrow> nat \<times> nat \<Rightarrow> nat \<times> nat" where
  "cyrb53_loop [] h = h"
| "cyrb53_loop (ch # str) (h1, h2) =
     cyrb53_loop str (imul (h1 XOR of_char ch) 2654435761, imul (h2 XOR of_char ch) 1597334677)"

definition cyrb53 :: "string \<Rightarrow> nat" where
  "cyrb53 str =
     (let (h1, h2) = cyrb53_loop str (3735928559, 1103547991);
          h1' = imul (h1 XOR drop_bit 16 h1) 2246822507 XOR imul (h2 XOR drop_bit 13 h2) 3266489909;
          h2' = imul (h2 XOR drop_bit 16 h2) 2246822507 XOR imul (h1' XOR drop_bit 13 h1') 3266489909
      in 4294967296 * (2097151 AND h2') + h1')"

section \<open>Executions\<close>

datatype Response =
    Loading
  | Success jsval
  | ErrorResponse string
  | ZodError jsval string
  | TimeoutError

datatype ActionKind =
    Log | ExecutingFunction | GetDocument | Query | CallingFunction | CallingOpenAi

text \<open>
  An Action of the trace. The variants of the union differ in which of the fields they
  carry; a field the variant does not have is \<^const>\<open>None\<close>.
\<close>

record Action =
  action_id :: string
  action :: ActionKind
  functionDef :: "jsval option"
  input :: "jsval option"
  messages :: "jsval list option"
  response :: "Response option"

text \<open>
  \<^verbatim>\<open>Partial<Action>\<close>, the second argument of \<^verbatim>\<open>updateTrace\<close>: each key is present
  (\<^const>\<open>Some\<close>) or absent, and \<^verbatim>\<open>{...t, ...action}\<close> overwrites the keys that are present.
\<close>

record ActionPatch =
  set_id :: "string option"
  set_action :: "ActionKind option"
  set_functionDef :: "jsval option option"
  set_input :: "jsval option option"
  set_messages :: "jsval list option option"
  set_response :: "Response option option"

definition mergeAction :: "Action \<Rightarrow> ActionPatch \<Rightarrow> Action" where
  "mergeAction t p =
     \<lparr> action_id = (case set_id p of None \<Rightarrow> action_id t | Some v \<Rightarrow> v),
       action = (case set_action p of None \<Rightarrow> action t | Some v \<Rightarrow> v),
       functionDef = (case set_functionDef p of None \<Rightarrow> functionDef t | Some v \<Rightarrow> v),
       input = (case set_input p of None \<Rightarrow> input t | Some v \<Rightarrow> v),
       messages = (case set_messages p of None \<Rightarrow> messages t | Some v \<Rightarrow> v),
       response = (case set_response p of None \<Rightarrow> response t | Some v \<Rightarrow> v) \<rparr>"

text \<open>The patch \<^verbatim>\<open>{response: r}\<close>, the only one the engine itself passes.\<close>

definition responsePatch :: "Response \<Rightarrow> ActionPatch" where
  "responsePatch r =
     \<lparr> set_id = None, set_action = None, set_functionDef = None, set_input = None,
       set_messages = None, set_response = Some (Some r) \<rparr>"

text \<open>
  A sub-record of \<^verbatim>\<open>functionsExecuted\<close> and an Execution. An optional key
  (\<^verbatim>\<open>finalResponse?\<close>, \<^verbatim>\<open>verified?\<close>) is absent (\<^const>\<open>None\<close>) or present with a value,
  which may be \<^verbatim>\<open>undefined\<close>: \<^verbatim>\<open>resolveExecution(undefined)\<close> writes the key.
\<close>

record FunctionExecuted =
  functionExecutionId :: string
  inputs :: jsval
  trace :: "Action list"
  fe_finalResponse :: "jsval option"
  fe_functionDef :: obj

record Execution =
  execution_id :: string
  createdAt :: nat
  functionsExecuted :: "FunctionExecuted list"
  finalResponse :: "jsval option"
  verified :: "jsval option"

section \<open>Messages and collaborators\<close>

text \<open>
  A reply of the chat provider: \<^verbatim>\<open>resp.text\<close> and
  \<^verbatim>\<open>resp.additional_kwargs.function_call\<close> (\<^verbatim>\<open>undefined\<close> when the model answered in text).
\<close>

record ChatReply =
  reply_text :: string
  function_call :: jsval

text \<open>
  The langchain message classes the code constructs. The content of a human or function
  message is whatever value the code passes (the casts \<^verbatim>\<open>as string\<close> do nothing at run
  time); a function message also carries the function's name.
\<close>

datatype BaseMessage =
    SystemMessage string
  | HumanMessage jsval
  | FunctionMessage jsval jsval
  | AIMessage ChatReply

text \<open>
  What \<^verbatim>\<open>llm.ts\<close> calls and does not define: the zod library (a schema is an opaque value,
  \<open>safeParse\<close> gives the error message or the parsed data; \<open>z_string\<close> is \<^verbatim>\<open>z.string()\<close>,
  \<open>z_argument out\<close> is \<^verbatim>\<open>z.object({argument: z.union([out, z.object({error: z.string()})])})\<close>
  and \<open>functionCallSchema\<close> is
  \<^verbatim>\<open>z.object({name: z.string(), arguments: stringToJSONSchema})\<close>), zod-to-ts and
  zod-to-json-schema, the user's callbacks (\<open>call f args\<close> is the awaited result of
  calling the function value \<open>f\<close>; \<open>applyMap fn v execution runtimeArgs\<close> is the awaited
  result of a map step, \<^verbatim>\<open>fn(v, execution, runtimeArgs)\<close>, which is handed the closure's
  Execution), and the modules of this repository that are not among the sources
  (\<^verbatim>\<open>./jsonSchema\<close>, \<^verbatim>\<open>./documents/document\<close>, \<^verbatim>\<open>./functions\<close>, \<^verbatim>\<open>./Message\<close>).
  \<open>inheritedText v n\<close> belongs to the JavaScript engine: the text \<^verbatim>\<open>`${v[n]}`\<close> of a
  member that \<^verbatim>\<open>n in v\<close> finds on \<open>v\<close> other than among its own enumerable properties
  (\<^verbatim>\<open>constructor\<close> or \<^verbatim>\<open>toString\<close> inherited from \<^verbatim>\<open>Object.prototype\<close>, the \<^verbatim>\<open>length\<close> of
  an array), if there is one.
  They are parameters of the model: every theorem below holds for each choice of them.
\<close>

record externals =
  safeParse :: "jsval \<Rightarrow> jsval \<Rightarrow> string + jsval"
  z_string :: jsval
  z_argument :: "jsval \<Rightarrow> jsval"
  functionCallSchema :: jsval
  zodToJsonSchema :: "jsval \<Rightarrow> jsval"
  printNode_zodToTs :: "jsval \<Rightarrow> string"
  call :: "jsval \<Rightarrow> jsval list \<Rightarrow> jsval"
  applyMap :: "jsval \<Rightarrow> jsval \<Rightarrow> Execution option \<Rightarrow> jsval \<Rightarrow> jsval"
  splitDocument :: "jsval \<Rightarrow> string \<Rightarrow> jsval \<Rightarrow> jsval"
  toOpenAiFunction :: "jsval \<Rightarrow> jsval"
  fromLangChainMessage :: "BaseMessage \<Rightarrow> jsval"
  inheritedText :: "jsval \<Rightarrow> string \<Rightarrow> string option"

section \<open>The Definition builder\<close>

type_synonym ProcedureBuilderDef = obj

definition defaultModel :: jsval where
  "defaultModel =
     JObj [(''modelName'', JStr ''gpt-3.5-turbo-16k''),
           (''temperature'', JNum ''0.7''),
           (''maxTokens'', JNum ''-1'')]"

text \<open>
  \<^verbatim>\<open>createFn(initDef, ...args)\<close> wraps \<^verbatim>\<open>def = {model: {...}, ...initDef}\<close>; a builder is
  modelled by that \<^verbatim>\<open>def\<close> (its \<^verbatim>\<open>__internal.def\<close>). The callbacks \<^verbatim>\<open>...args\<close> are handed
  on unchanged by every method and appear in the engine state below.
\<close>

definition createFn :: "obj \<Rightarrow> ProcedureBuilderDef" where
  "createFn initDef = spread [(''model'', defaultModel)] initDef"

definition name :: "string \<Rightarrow> ProcedureBuilderDef \<Rightarrow> ProcedureBuilderDef" where
  "name n def = createFn (AList.update ''name'' (JStr n) def)"

definition description :: "string \<Rightarrow> ProcedureBuilderDef \<Rightarrow> ProcedureBuilderDef" where
  "description d def = createFn (AList.update ''description'' (JStr d) def)"

definition functions_m :: "jsval list \<Rightarrow> ProcedureBuilderDef \<Rightarrow> ProcedureBuilderDef" where
  "functions_m fs def =
     createFn (AList.update ''functions''
       (JArr (orEmpty (obj_get ''functions'' def) @ map (getProp ''def'') fs)) def)"


definition instructions :: "string \<Rightarrow> ProcedureBuilderDef \<Rightarrow> ProcedureBuilderDef" where
  "instructions template def = createFn (AList.update ''instructions'' (JStr template) def)"

definition withModelParams :: "jsval \<Rightarrow> ProcedureBuilderDef \<Rightarrow> ProcedureBuilderDef" where
  "withModelParams model def =
     createFn (AList.update ''model''
       (JObj (spread (ownProps (obj_get ''model'' def)) (ownProps model))) def)"

text \<open>
  \<^verbatim>\<open>output\<close> is the one method that writes \<^verbatim>\<open>...def\<close> last:
  \<^verbatim>\<open>createFn({output: t, tsOutputString, ...def}, ...args)\<close>.
\<close>

definition output_m :: "externals \<Rightarrow> jsval \<Rightarrow> ProcedureBuilderDef \<Rightarrow> ProcedureBuilderDef" where
  "output_m X t def =
     (let tsOutputString = printNode_zodToTs X t
      in createFn (spread [(''output'', t), (''tsOutputString'', JStr tsOutputString)] def))"

definition map_m :: "jsval \<Rightarrow> ProcedureBuilderDef \<Rightarrow> ProcedureBuilderDef" where
  "map_m mapFn def =
     createFn (AList.update ''mapFns''
       (JArr (orEmpty (obj_get ''mapFns'' def) @ [mapFn])) def)"

text \<open>
  \<^verbatim>\<open>parseAiFn\<close> reads \<^verbatim>\<open>fn.__internal_def\<close>: reading a property of \<^verbatim>\<open>undefined\<close> or
  \<^verbatim>\<open>null\<close> is a TypeError, a falsy property is the error the function throws itself.
\<close>

definition parseAiFn :: "jsval \<Rightarrow> error + jsval" where
  "parseAiFn fn =
     (if fn = JUndefined \<or> fn = JNull then Inl (TypeError ''Cannot read properties'')
      else if \<not> truthy (getProp ''__internal_def'' fn) then Inl (Error ''Not an Ai function.'')
      else Inr fn)"

definition safeParseAiFn :: "jsval \<Rightarrow> jsval" where
  "safeParseAiFn fn = (case parseAiFn fn of Inl e \<Rightarrow> JUndefined | Inr aiFunction \<Rightarrow> aiFunction)"

definition sequence :: "jsval \<Rightarrow> ProcedureBuilderDef \<Rightarrow> error + ProcedureBuilderDef" where
  "sequence t def =
     (case parseAiFn t of
        Inl e \<Rightarrow> Inl e
      | Inr aiFn \<Rightarrow>
          Inr (createFn (AList.update ''sequences''
            (JArr (orEmpty (obj_get ''sequences'' def) @ [getProp ''__internal_def'' aiFn])) def)))"

definition document :: "jsval \<Rightarrow> ProcedureBuilderDef \<Rightarrow> ProcedureBuilderDef" where
  "document d def =
     createFn (AList.update ''documents''
       (JArr (orEmpty (obj_get ''documents'' def) @ [d])) def)"

definition query :: "jsval \<Rightarrow> ProcedureBuilderDef \<Rightarrow> ProcedureBuilderDef" where
  "query q def =
     createFn (AList.update ''query''
       (JObj [(''queryInput'', JBool True), (''fn'', q)]) def)"

definition verify :: "jsval \<Rightarrow> ProcedureBuilderDef \<Rightarrow> ProcedureBuilderDef" where
  "verify verifyFn def = createFn (AList.update ''verify'' verifyFn def)"

text \<open>
  \<^verbatim>\<open>create()\<close>: \<^verbatim>\<open>sha = cyrb53(JSON.stringify(def))\<close>,
  \<^verbatim>\<open>defWithId = {...def, id: sha.toString()}\<close>. The result is \<^verbatim>\<open>fn.__internal_def\<close>, the
  Definition handed to \<^verbatim>\<open>onCreated\<close> and run by the returned function. \<^verbatim>\<open>cyrb53\<close> reads
  \<^verbatim>\<open>str.length\<close>, so a serialization \<^verbatim>\<open>undefined\<close> would be a TypeError.
\<close>

definition create :: "ProcedureBuilderDef \<Rightarrow> error + ProcedureBuilderDef" where
  "create def =
     (case JSON_stringify (JObj def) of
        None \<Rightarrow> Inl (TypeError ''Cannot read properties of undefined'')
      | Some str \<Rightarrow>
          (let sha = cyrb53 str
           in Inr (AList.update ''id'' (JStr (toString sha)) def)))"

section \<open>The closure state and the trace recorder\<close>

text \<open>
  The state of one \<^verbatim>\<open>createFn\<close> closure: its \<^verbatim>\<open>def\<close>, whether an
  \<^verbatim>\<open>onExecutionUpdate\<close> callback was given, the variables \<^verbatim>\<open>execution\<close> and
  \<^verbatim>\<open>functionExecutionId\<close>, and what the closure did to the outside: the Executions it
  passed to the callback (oldest first) and the requests it sent to the chat provider
  (messages, function catalog, \<^verbatim>\<open>function_call\<close> mode). \<^verbatim>\<open>nanoid.nanoid()\<close> returns random
  ids; the model issues ids that differ from one another, from a counter. \<open>now\<close> is the
  reading of the clock.
\<close>

record Engine =
  def :: ProcedureBuilderDef
  onExecutionUpdate :: bool
  execution :: "Execution option"
  activeFunctionExecutionId :: string
  nanoids :: nat
  now :: nat
  observed :: "Execution list"
  requests :: "(BaseMessage list \<times> jsval list \<times> jsval) list"

definition nanoid :: "Engine \<Rightarrow> string \<times> Engine" where
  "nanoid S = (''nanoid-'' @ toString (nanoids S), S\<lparr>nanoids := Suc (nanoids S)\<rparr>)"

text \<open>\<^verbatim>\<open>if (onExecutionUpdate && execution) onExecutionUpdate(execution)\<close>.\<close>

definition notify :: "Engine \<Rightarrow> Engine" where
  "notify S =
     (case execution S of
        None \<Rightarrow> S
      | Some e \<Rightarrow> if onExecutionUpdate S then S\<lparr>observed := observed S @ [e]\<rparr> else S)"

definition createExecution :: "jsval \<Rightarrow> string option \<Rightarrow> Engine \<Rightarrow> string \<times> Engine" where
  "createExecution args executionId S =
     (let (eid, S1) = (case executionId of
                        None \<Rightarrow> nanoid S
                      | Some s \<Rightarrow> if s \<noteq> [] then (s, S) else nanoid S);
          (feId, S2) = nanoid S1
      in (eid, S2\<lparr> activeFunctionExecutionId := feId,
                   execution := Some
                     \<lparr> execution_id = eid,
                       createdAt = now S2,
                       functionsExecuted =
                         [\<lparr> functionExecutionId = feId, inputs = args, trace = [],
                            fe_finalResponse = None, fe_functionDef = def S2 \<rparr>],
                       finalResponse = None,
                       verified = None \<rparr> \<rparr>))"

definition resolveExecution ::
  "jsval \<Rightarrow> Action list \<Rightarrow> Engine \<Rightarrow> (error + Execution) \<times> Engine" where
  "resolveExecution final tr S =
     (case execution S of
        None \<Rightarrow> (Inl (Error ''Execution not found''), S)
      | Some ex \<Rightarrow>
          (let ex' = ex\<lparr> functionsExecuted :=
                           map (\<lambda>e. if functionExecutionId e = activeFunctionExecutionId S
                                     then e\<lparr> trace := trace e @ tr,
                                             fe_finalResponse := Some final \<rparr>
                                     else e)
                               (functionsExecuted ex),
                         finalResponse := Some final \<rparr>;
               S1 = notify (S\<lparr>execution := Some ex'\<rparr>)
           in (Inr ex', S1)))"

text \<open>
  \<^verbatim>\<open>createTrace(action)\<close>: the id is drawn before the check for an active Execution, and
  \<^verbatim>\<open>{...action, id}\<close> overwrites whatever id the argument carried.
\<close>

definition createTrace :: "Action \<Rightarrow> Engine \<Rightarrow> (error + string) \<times> Engine" where
  "createTrace a S =
     (let (aid, S1) = nanoid S;
          actionWithId = a\<lparr>action_id := aid\<rparr>
      in case execution S1 of
           None \<Rightarrow> (Inl (Error ''Execution not found''), S1)
         | Some ex \<Rightarrow>
             (let ex' = ex\<lparr> functionsExecuted :=
                              map (\<lambda>e. if functionExecutionId e = activeFunctionExecutionId S1
                                        then e\<lparr>trace := trace e @ [actionWithId]\<rparr>
                                        else e)
                                  (functionsExecuted ex) \<rparr>
              in (Inr aid, notify (S1\<lparr>execution := Some ex'\<rparr>))))"

definition updateTrace :: "string \<Rightarrow> ActionPatch \<Rightarrow> Engine \<Rightarrow> (error + unit) \<times> Engine" where
  "updateTrace aid p S =
     (case execution S of
        None \<Rightarrow> (Inl (Error ''Execution not found''), S)
      | Some ex \<Rightarrow>
          (let ex' = ex\<lparr> functionsExecuted :=
                           map (\<lambda>e. if functionExecutionId e = activeFunctionExecutionId S
                                     then e\<lparr>trace := map (\<lambda>t. if action_id t = aid
                                                               then mergeAction t p else t)
                                                         (trace e)\<rparr>
                                     else e)
                               (functionsExecuted ex) \<rparr>
           in (Inr (), notify (S\<lparr>execution := Some ex'\<rparr>))))"

section \<open>The structured output retriever\<close>

text \<open>
  \<^verbatim>\<open>`${v}`\<close>, the text a template literal inserts for a value. An array is written as its
  elements joined by commas, an element \<^verbatim>\<open>undefined\<close> or \<^verbatim>\<open>null\<close> as the empty text. The
  text of a function is its source, which the model does not have; none of the values
  interpolated below is a function under the declared types.
\<close>

fun String_of :: "jsval \<Rightarrow> string"
  and String_of_elements :: "jsval list \<Rightarrow> string list" where
  "String_of JUndefined = ''undefined''"
| "String_of JNull = ''null''"
| "String_of (JBool b) = (if b then ''true'' else ''false'')"
| "String_of (JNum n) = n"
| "String_of (JStr s) = s"
| "String_of (JFun f kvs) = ''function''"
| "String_of (JArr xs) = join '','' (String_of_elements xs)"
| "String_of (JObj kvs) = ''[object Object]''"
| "String_of_elements [] = []"
| "String_of_elements (x # xs) =
     (if x = JUndefined \<or> x = JNull then [] else String_of x) # String_of_elements xs"

text \<open>
  An unguarded property read \<^verbatim>\<open>v.k\<close>: a TypeError when \<^verbatim>\<open>v\<close> is \<^verbatim>\<open>undefined\<close> or
  \<^verbatim>\<open>null\<close>.
\<close>

definition readProp :: "string \<Rightarrow> jsval \<Rightarrow> error + jsval" where
  "readProp k v =
     (if v = JUndefined \<or> v = JNull then Inl (TypeError ''Cannot read properties'')
      else Inr (getProp k v))"

text \<open>
  \<^verbatim>\<open>printFn.def\<close>, built with the function builder of \<^verbatim>\<open>./functions\<close>: the catalog entry
  named \<^verbatim>\<open>print\<close> whose parameter schema is the target schema.
\<close>

definition printFn_def :: "jsval \<Rightarrow> jsval" where
  "printFn_def zodSchema =
     JObj [(''name'', JStr ''print''),
           (''description'', JStr (''Answer the user prompt using this function. '' @
              ''This is the function you call once you have your final answer'')),
           (''parameters'', zodSchema),
           (''implements'', JFun 0 [])]"

definition createValidationErrorFunctionMessage :: "string \<Rightarrow> BaseMessage" where
  "createValidationErrorFunctionMessage err =
     FunctionMessage
       (JStr (''function 'print' returned a Validation error'' @ [CHR 0x0A] @ [CHR 0x27] @ err @
              [CHR 0x0A] @ '' Try again with a valid response. '' @
              ''You may be forgetting to add key called 'argument'' @ [CHR 0x27]))
       (JStr ''print'')"

definition usePrintMessage :: "externals \<Rightarrow> jsval \<Rightarrow> BaseMessage" where
  "usePrintMessage X zodSchema =
     HumanMessage
       (JStr (''Please use the print function to respond. '' @
              ''print function has the following scheme:'' @ [CHR 0x0A] @
              String_of (case JSON_stringify (zodToJsonSchema X zodSchema) of
                           None \<Rightarrow> JUndefined | Some t \<Rightarrow> JStr t) @
              ''         '' @ [CHR 0x0A]))"

definition callingOpenAi :: "externals \<Rightarrow> BaseMessage list \<Rightarrow> Action" where
  "callingOpenAi X msgs =
     \<lparr> action_id = [], action = CallingOpenAi, functionDef = None, input = None,
       messages = Some (map (fromLangChainMessage X) msgs), response = Some Loading \<rparr>"

text \<open>lodash \<^verbatim>\<open>pick(o, keys)\<close>: the listed keys that \<^verbatim>\<open>o\<close> has, in the order listed.\<close>

definition pick :: "jsval \<Rightarrow> string list \<Rightarrow> obj" where
  "pick v ks =
     concat (map (\<lambda>k. case map_of (ownProps v) k of None \<Rightarrow> [] | Some x \<Rightarrow> [(k, x)]) ks)"

definition callingFunction :: "jsval \<Rightarrow> jsval \<Rightarrow> Action" where
  "callingFunction fn params =
     \<lparr> action_id = [], action = CallingFunction, functionDef = None,
       input = Some (JObj (AList.update ''parameters'' params
                             (pick fn [''name'', ''description'']))),
       messages = None, response = Some Loading \<rparr>"

text \<open>
  \<^verbatim>\<open>callZodOutput(messages, zodSchema, retries)\<close>. The chat provider is the list of the
  replies it gives, in order: each \<^verbatim>\<open>getOpenAiModel().call\<close> takes the next one. With no
  reply left the call has not returned: the result is \<^const>\<open>None\<close>. A thrown error is
  \<open>Inl\<close>, and the closure state reached so far is returned with it.
\<close>

fun callZodOutput ::
  "externals \<Rightarrow> ChatReply list \<Rightarrow> BaseMessage list \<Rightarrow> jsval \<Rightarrow> nat \<Rightarrow> Engine
     \<Rightarrow> ((error + jsval \<times> BaseMessage list) \<times> Engine) option" where
  "callZodOutput X [] msgs zodSchema retries S =
     (case createTrace (callingOpenAi X msgs) S of
        (Inl e, S1) \<Rightarrow> Some (Inl e, S1)
      | (Inr aid, S1) \<Rightarrow> None)"
| "callZodOutput X (resp # script) msgs zodSchema retries S =
     (case createTrace (callingOpenAi X msgs) S of
        (Inl e, S1) \<Rightarrow> Some (Inl e, S1)
      | (Inr aid, S1) \<Rightarrow>
          (let userFunctions = orEmpty (obj_get ''functions'' (def S1));
               fns = userFunctions @ [printFn_def zodSchema];
               openAiFunctions = map (toOpenAiFunction X) fns;
               S2 = S1\<lparr>requests := requests S1 @
                      [(msgs, openAiFunctions,
                        if length userFunctions = 0 then JObj [(''name'', JStr ''print'')]
                        else JStr ''auto'')]\<rparr>;
               msgs1 = msgs @ [AIMessage resp]
           in if \<not> truthy (function_call resp) then
                (case updateTrace aid
                        (responsePatch (ErrorResponse
                           (''No function call found, Got text instead: '' @ reply_text resp))) S2 of
                   (Inl e, S3) \<Rightarrow> Some (Inl e, S3)
                 | (Inr u, S3) \<Rightarrow>
                     callZodOutput X script (msgs1 @ [usePrintMessage X zodSchema])
                       zodSchema (retries + 1) S3)
              else
                (case safeParse X (functionCallSchema X) (function_call resp) of
                   Inr functionCallJson \<Rightarrow>
                     (case find (\<lambda>f. getProp ''name'' f = getProp ''name'' functionCallJson) fns of
                        None \<Rightarrow>
                          Some (Inl (Error (''Function '' @
                                  String_of (getProp ''name'' functionCallJson) @ '' not found in '' @
                                  String_of (case JSON_stringify (JArr (map (getProp ''name'') fns)) of
                                               None \<Rightarrow> JUndefined | Some t \<Rightarrow> JStr t))), S2)
                      | Some fn \<Rightarrow>
                          (if getProp ''parameters'' fn = JUndefined \<or> getProp ''parameters'' fn = JNull
                           then Some (Inl (TypeError ''Cannot read properties of undefined''), S2)
                           else
                             (case safeParse X (getProp ''parameters'' fn)
                                     (getProp ''arguments'' functionCallJson) of
                                Inr argument \<Rightarrow>
                                  (if getProp ''name'' fn = JStr ''print'' then
                                     (case readProp ''argument'' argument of
                                        Inl e \<Rightarrow> Some (Inl e, S2)
                                      | Inr result \<Rightarrow>
                                          (case updateTrace aid
                                                  (responsePatch (Success
                                                     (JObj [(''type'', JStr ''response''),
                                                            (''data'', result)]))) S2 of
                                             (Inl e, S3) \<Rightarrow> Some (Inl e, S3)
                                           | (Inr u, S3) \<Rightarrow>
                                               Some (Inr (result,
                                                      msgs1 @ [FunctionMessage (JStr ''Success'')
                                                                 (JStr ''print'')]), S3)))
                                   else
                                     (case updateTrace aid
                                             (responsePatch (Success
                                                (JObj [(''type'', JStr ''functionCall''),
                                                       (''data'', argument)]))) S2 of
                                        (Inl e, S3) \<Rightarrow> Some (Inl e, S3)
                                      | (Inr u, S3) \<Rightarrow>
                                          (case createTrace (callingFunction fn argument) S3 of
                                             (Inl e, S4) \<Rightarrow> Some (Inl e, S4)
                                           | (Inr id2, S4) \<Rightarrow>
                                               (let fnResponse =
                                                      (if getProp ''implements'' fn = JUndefined
                                                          \<or> getProp ''implements'' fn = JNull
                                                       then JUndefined
                                                       else call X (getProp ''implements'' fn) [argument])
                                                in case updateTrace id2
                                                          (responsePatch (Success fnResponse)) S4 of
                                                     (Inl e, S5) \<Rightarrow> Some (Inl e, S5)
                                                   | (Inr u, S5) \<Rightarrow>
                                                       callZodOutput X script
                                                         (msgs1 @
                                                          [FunctionMessage
                                                             (if truthy fnResponse then fnResponse
                                                              else JStr ''No response'')
                                                             (getProp ''name'' fn)])
                                                         zodSchema retries S5))))
                              | Inl argument_error \<Rightarrow>
                                  (case updateTrace aid
                                          (responsePatch (ZodError
                                             (getProp ''arguments'' functionCallJson)
                                             argument_error)) S2 of
                                     (Inl e, S3) \<Rightarrow> Some (Inl e, S3)
                                   | (Inr u, S3) \<Rightarrow>
                                       (if retries > 3 then
                                          (case updateTrace aid (responsePatch TimeoutError) S3 of
                                             (Inl e, S4) \<Rightarrow> Some (Inl e, S4)
                                           | (Inr u, S4) \<Rightarrow>
                                               Some (Inr (JStr argument_error, msgs1), S4))
                                        else
                                          callZodOutput X script
                                            (msgs1 @
                                             [createValidationErrorFunctionMessage argument_error])
                                            zodSchema (retries + 1) S3)))))
                 | Inl functionCall_error \<Rightarrow>
                     (case updateTrace aid
                             (responsePatch (ZodError (function_call resp) functionCall_error)) S2 of
                        (Inl e, S3) \<Rightarrow> Some (Inl e, S3)
                      | (Inr u, S3) \<Rightarrow>
                          (if retries > 3 then
                             (case updateTrace aid (responsePatch TimeoutError) S3 of
                                (Inl e, S4) \<Rightarrow> Some (Inl e, S4)
                              | (Inr u, S4) \<Rightarrow>
                                  Some (Inr (JStr functionCall_error, msgs1), S4))
                           else
                             callZodOutput X script
                               (msgs1 @ [createValidationErrorFunctionMessage functionCall_error])
                               zodSchema (retries + 1) S3)))))"

declare callZodOutput.simps [simp del]

section \<open>Prompt templates\<close>

datatype ParsedFStringNode = Literal string | Variable string

text \<open>
  \<^verbatim>\<open>parseFString\<close>: the \<^verbatim>\<open>while\<close> loop over the index \<^verbatim>\<open>i\<close>, as a recursion over the
  characters from \<^verbatim>\<open>i\<close> on. \<^verbatim>\<open>nextBracket\<close> is the search \<^const>\<open>takeWhile\<close> and
  \<^const>\<open>dropWhile\<close> make.
\<close>

function parseFString_from ::
  "string \<Rightarrow> ParsedFStringNode list \<Rightarrow> error + ParsedFStringNode list" where
  "parseFString_from chars nodes =
     (case chars of
        [] \<Rightarrow> Inr nodes
      | c # rest \<Rightarrow>
          if c = CHR ''{'' \<and> rest \<noteq> [] \<and> hd rest = CHR ''{'' then
            parseFString_from (tl rest) (nodes @ [Literal ''{''])
          else if c = CHR ''}'' \<and> rest \<noteq> [] \<and> hd rest = CHR ''}'' then
            parseFString_from (tl rest) (nodes @ [Literal ''}''])
          else if c = CHR ''{'' then
            (if CHR ''}'' \<notin> set rest then Inl (Error ''Unclosed '{' in template.'')
             else parseFString_from (tl (dropWhile (\<lambda>x. x \<noteq> CHR ''}'') rest))
                    (nodes @ [Variable (takeWhile (\<lambda>x. x \<noteq> CHR ''}'') rest)]))
          else if c = CHR ''}'' then Inl (Error ''Single '}' in template.'')
          else parseFString_from (dropWhile (\<lambda>x. x \<noteq> CHR ''{'' \<and> x \<noteq> CHR ''}'') rest)
                 (nodes @ [Literal (c # takeWhile (\<lambda>x. x \<noteq> CHR ''{'' \<and> x \<noteq> CHR ''}'') rest)]))"
  by pat_completeness auto
termination
proof (relation "measure (\<lambda>(chars, nodes). length chars)")
  show "wf (measure (\<lambda>(chars, nodes). length chars))" by simp
next
  fix chars :: string and nodes :: "ParsedFStringNode list" and c rest
  assume "chars = c # rest"
  then show "((tl rest, nodes @ [Literal ''{'']), chars, nodes)
               \<in> measure (\<lambda>(chars, nodes). length chars)"
    by simp
next
  fix chars :: string and nodes :: "ParsedFStringNode list" and c rest
  assume "chars = c # rest"
  then show "((tl rest, nodes @ [Literal ''}'']), chars, nodes)
               \<in> measure (\<lambda>(chars, nodes). length chars)"
    by simp
next
  fix chars :: string and nodes :: "ParsedFStringNode list" and c rest
  assume "chars = c # rest"
  moreover have "length (dropWhile (\<lambda>x. x \<noteq> CHR ''}'') rest) \<le> length rest"
    by (rule length_dropWhile_le)
  ultimately show "((tl (dropWhile (\<lambda>x. x \<noteq> CHR ''}'') rest),
                     nodes @ [Variable (takeWhile (\<lambda>x. x \<noteq> CHR ''}'') rest)]), chars, nodes)
               \<in> measure (\<lambda>(chars, nodes). length chars)"
    by simp
next
  fix chars :: string and nodes :: "ParsedFStringNode list" and c rest
  assume "chars = c # rest"
  moreover have "length (dropWhile (\<lambda>x. x \<noteq> CHR ''{'' \<and> x \<noteq> CHR ''}'') rest) \<le> length rest"
    by (rule length_dropWhile_le)
  ultimately show "((dropWhile (\<lambda>x. x \<noteq> CHR ''{'' \<and> x \<noteq> CHR ''}'') rest,
                     nodes @ [Literal (c # takeWhile (\<lambda>x. x \<noteq> CHR ''{'' \<and> x \<noteq> CHR ''}'') rest)]),
                    chars, nodes)
               \<in> measure (\<lambda>(chars, nodes). length chars)"
    by simp
qed

declare parseFString_from.simps [simp del]

definition parseFString :: "string \<Rightarrow> error + ParsedFStringNode list" where
  "parseFString template = parseFString_from template []"

text \<open>
  The \<^verbatim>\<open>reduce\<close> of \<^verbatim>\<open>interpolateFString\<close>. \<^verbatim>\<open>name in values\<close> is a TypeError when
  \<^verbatim>\<open>values\<close> is a primitive. On an object, an array or a function it holds for an own
  property, whose value is then appended as text, and also for a member found elsewhere
  (inherited, or not enumerable), whose text \<open>inheritedText\<close> gives.
\<close>

fun primitive :: "jsval \<Rightarrow> bool" where
  "primitive (JObj kvs) = False"
| "primitive (JFun f kvs) = False"
| "primitive (JArr xs) = False"
| "primitive v = True"

fun interpolate_nodes ::
  "externals \<Rightarrow> ParsedFStringNode list \<Rightarrow> jsval \<Rightarrow> string \<Rightarrow> error + string" where
  "interpolate_nodes X [] values res = Inr res"
| "interpolate_nodes X (Literal t # nodes) values res =
     interpolate_nodes X nodes values (res @ t)"
| "interpolate_nodes X (Variable n # nodes) values res =
     (if primitive values then Inl (TypeError ''Cannot use 'in' operator'')
      else
        (case map_of (ownProps values) n of
           Some v \<Rightarrow> interpolate_nodes X nodes values (res @ String_of v)
         | None \<Rightarrow>
             (case inheritedText X values n of
                Some t \<Rightarrow> interpolate_nodes X nodes values (res @ t)
              | None \<Rightarrow> Inl (Error (''Missing value for input '' @ n)))))"

definition interpolateFString :: "externals \<Rightarrow> string \<Rightarrow> jsval \<Rightarrow> error + string" where
  "interpolateFString X template values =
     (case parseFString template of
        Inl e \<Rightarrow> Inl e
      | Inr nodes \<Rightarrow> interpolate_nodes X nodes values [])"

section \<open>The execution engine\<close>

text \<open>
  The nested \<^verbatim>\<open>getQueryDoc\<close> of \<^verbatim>\<open>run\<close>, in the two parts its \<^verbatim>\<open>await\<close> separates: up to
  the call of the query callback, with the pending \<^verbatim>\<open>query\<close> Action recorded (its id is
  the result), and from the callback's result on.
\<close>

definition getQueryDoc_begin :: "jsval \<Rightarrow> Engine \<Rightarrow> (error + string option) \<times> Engine" where
  "getQueryDoc_begin queryArg S =
     (if truthy queryArg \<and> truthy (obj_get ''query'' (def S)) then
        (case createTrace \<lparr> action_id = [], action = Query, functionDef = None,
                            input = Some queryArg, messages = None,
                            response = Some Loading \<rparr> S of
           (Inl e, S1) \<Rightarrow> (Inl e, S1)
         | (Inr aid, S1) \<Rightarrow> (Inr (Some aid), S1))
      else (Inr None, S))"

definition getQueryDoc_end ::
  "externals \<Rightarrow> jsval \<Rightarrow> string option \<Rightarrow> Engine \<Rightarrow> (error + jsval) \<times> Engine" where
  "getQueryDoc_end X queryArg pending S =
     (case pending of
        None \<Rightarrow> (Inr JUndefined, S)
      | Some aid \<Rightarrow>
          (let q = call X (getProp ''fn'' (obj_get ''query'' (def S))) [queryArg];
               queryDoc = (case JSON_stringify q of None \<Rightarrow> JUndefined | Some t \<Rightarrow> JStr t)
           in case updateTrace aid (responsePatch (Success queryDoc)) S of
                (Inl e, S1) \<Rightarrow> (Inl e, S1)
              | (Inr u, S1) \<Rightarrow> (Inr queryDoc, S1)))"

text \<open>\<^verbatim>\<open>docs?.[i]\<close> for the array of document inputs.\<close>

definition elementAt :: "jsval \<Rightarrow> nat \<Rightarrow> jsval" where
  "elementAt v i = (case v of JArr xs \<Rightarrow> if i < length xs then xs ! i else JUndefined
                            | other \<Rightarrow> JUndefined)"

text \<open>
  \<^verbatim>\<open>Promise.all(documents.map(async (d) => ...))\<close>: every callback runs up to its first
  \<^verbatim>\<open>await\<close> when \<^verbatim>\<open>map\<close> calls it, so the \<^verbatim>\<open>get-document\<close> Actions are all created, in
  document order, before any is updated. The updates are modelled in document order too
  (the order in which \<^verbatim>\<open>splitDocument\<close> resolves is not fixed by the code). The
  collaborator resolves to an object, whose \<^verbatim>\<open>result\<close> is read.
\<close>

fun createDocumentTraces :: "jsval list \<Rightarrow> Engine \<Rightarrow> (error + string list) \<times> Engine" where
  "createDocumentTraces [] S = (Inr [], S)"
| "createDocumentTraces (d # ds) S =
     (case createTrace \<lparr> action_id = [], action = GetDocument, functionDef = None,
                         input = Some d, messages = None, response = Some Loading \<rparr> S of
        (Inl e, S1) \<Rightarrow> (Inl e, S1)
      | (Inr aid, S1) \<Rightarrow>
          (case createDocumentTraces ds S1 of
             (Inl e, S2) \<Rightarrow> (Inl e, S2)
           | (Inr ids, S2) \<Rightarrow> (Inr (aid # ids), S2)))"

fun resolveDocuments ::
  "externals \<Rightarrow> (string \<times> jsval) list \<Rightarrow> string \<Rightarrow> jsval \<Rightarrow> Engine
     \<Rightarrow> (error + string list) \<times> Engine" where
  "resolveDocuments X [] executionId userPrompt S = (Inr [], S)"
| "resolveDocuments X ((aid, d) # ds) executionId userPrompt S =
     (let documentContext = splitDocument X d executionId userPrompt
      in case updateTrace aid (responsePatch (Success documentContext)) S of
           (Inl e, S1) \<Rightarrow> (Inl e, S1)
         | (Inr u, S1) \<Rightarrow>
             (case resolveDocuments X ds executionId userPrompt S1 of
                (Inl e, S2) \<Rightarrow> (Inl e, S2)
              | (Inr ts, S2) \<Rightarrow>
                  (Inr ((''DOCUMENT:'' @ [CHR 0x22, CHR 0x22, CHR 0x22, CHR 0x0A] @
                         ''            '' @ String_of (getProp ''result'' documentContext) @
                         [CHR 0x0A] @
                         ''            '' @ [CHR 0x22, CHR 0x22, CHR 0x22]) # ts), S2)))"

text \<open>
  The \<^verbatim>\<open>run\<close> closure of \<^verbatim>\<open>createFn\<close> (the \<^verbatim>\<open>const run\<close> of lines 570-667). It is an
  \<^verbatim>\<open>async\<close> function: called, it runs without interruption up to its first \<^verbatim>\<open>await\<close>,
  \<^verbatim>\<open>await getQueryDoc()\<close>, and goes on from there when it is resumed.
  \<open>run_start\<close> is the first part: the Execution is created, the \<^verbatim>\<open>executing-function\<close>
  Action recorded and the query begun. Its result is what the second part needs from it:
  the Execution id and the id of the pending \<^verbatim>\<open>query\<close> Action, if there is one. Both parts
  work on the variables \<^verbatim>\<open>execution\<close> and \<^verbatim>\<open>functionExecutionId\<close> of the closure as they
  find them.
\<close>

definition run_start ::
  "jsval \<Rightarrow> string option \<Rightarrow> Engine \<Rightarrow> (error + string \<times> string option) \<times> Engine" where
  "run_start arg eid S =
     (let (executionId, S1) = createExecution arg eid S
      in if arg = JUndefined \<or> arg = JNull
         then (Inl (TypeError ''Cannot destructure''), S1)
         else
          (case createTrace \<lparr> action_id = [], action = ExecutingFunction,
                              functionDef = Some (JObj (def S1)), input = Some arg,
                              messages = None, response = None \<rparr> S1 of
             (Inl e, S2) \<Rightarrow> (Inl e, S2)
           | (Inr aid, S2) \<Rightarrow>
               (case getQueryDoc_begin (getProp ''query'' arg) S2 of
                  (Inl e, S3) \<Rightarrow> (Inl e, S3)
                | (Inr pending, S3) \<Rightarrow> (Inr (executionId, pending), S3))))"

text \<open>
  The second part. \<^const>\<open>None\<close> is passed on from \<^const>\<open>callZodOutput\<close>: the chat
  provider's replies ran out before the retriever returned.
\<close>

definition run_resume ::
  "externals \<Rightarrow> ChatReply list \<Rightarrow> jsval \<Rightarrow> string \<times> string option \<Rightarrow> Engine
     \<Rightarrow> ((error + Execution) \<times> Engine) option" where
  "run_resume X script arg begun S =
     (let executionId = fst begun;
          instr = getProp ''instructions'' arg;
          docs = getProp ''documents'' arg;
          queryArg = getProp ''query'' arg
      in case getQueryDoc_end X queryArg (snd begun) S of
           (Inl e, S3) \<Rightarrow> Some (Inl e, S3)
         | (Inr queryDoc, S3) \<Rightarrow>
             (let documents =
                    map (\<lambda>(d, i). JObj (AList.update ''input'' (elementAt docs i) (ownProps d)))
                        (zip (orEmpty (obj_get ''documents'' (def S3)))
                             [0 ..< length (orEmpty (obj_get ''documents'' (def S3)))]);
                  queryTemplate =
                    (if truthy queryArg \<and> truthy (obj_get ''query'' (def S3))
                     then ''DOCUMENT:'' @ [CHR 0x22, CHR 0x22, CHR 0x22, CHR 0x0A] @
                          ''    '' @ String_of queryDoc @ [CHR 0x0A] @
                          ''  '' @ [CHR 0x22, CHR 0x22, CHR 0x22, CHR 0x0A]
                     else [])
              in case (if truthy (obj_get ''instructions'' (def S3)) then
                         (case obj_get ''instructions'' (def S3) of
                            JStr template \<Rightarrow>
                              (case interpolateFString X template instr of
                                 Inl e \<Rightarrow> Inl e
                               | Inr t \<Rightarrow> Inr (JStr t))
                          | other \<Rightarrow> Inl (TypeError ''template.split is not a function''))
                       else if truthy instr then Inr instr
                       else Inr (JStr [])) of
                   Inl e \<Rightarrow> Some (Inl e, S3)
                 | Inr userPrompt \<Rightarrow>
                     (case createDocumentTraces documents S3 of
                        (Inl e, S4) \<Rightarrow> Some (Inl e, S4)
                      | (Inr ids, S4) \<Rightarrow>
                          (case resolveDocuments X (zip ids documents) executionId
                                  userPrompt S4 of
                             (Inl e, S5) \<Rightarrow> Some (Inl e, S5)
                           | (Inr documentsTemplate, S5) \<Rightarrow>
                               (if \<not> truthy (obj_get ''output'' (def S5))
                                   \<and> \<not> truthy (obj_get ''instructions'' (def S5))
                                then Some (resolveExecution JUndefined [] S5)
                                else
                                 (let zodSchema =
                                        (if truthy (obj_get ''output'' (def S5))
                                         then z_argument X (obj_get ''output'' (def S5))
                                         else z_string X);
                                      systemPrompt = SystemMessage
                                        (''Use the DOCUMENT to answer user prompts.'' @
                                         [CHR 0x0A] @
                                         ''Once you have the answer, use the print function. '' @
                                         ''Always call one of the provided functions'');
                                      userMessages =
                                        (if queryTemplate \<noteq> []
                                         then [HumanMessage (JStr queryTemplate)] else []) @
                                        (if length documentsTemplate > 0
                                         then [HumanMessage
                                                 (JStr (join [CHR 0x0A] documentsTemplate))]
                                         else []) @
                                        (if truthy userPrompt
                                         then [HumanMessage userPrompt] else []);
                                      chatMessages = systemPrompt # userMessages
                                  in case callZodOutput X script chatMessages zodSchema 0 S5 of
                                       None \<Rightarrow> None
                                     | Some (Inl e, S6) \<Rightarrow> Some (Inl e, S6)
                                     | Some (Inr (aiMessage, msgs), S6) \<Rightarrow>
                                         Some (resolveExecution aiMessage [] S6)))))))"

text \<open>A call of the closure that nothing else interleaves with.\<close>

definition run ::
  "externals \<Rightarrow> ChatReply list \<Rightarrow> jsval \<Rightarrow> string option \<Rightarrow> Engine
     \<Rightarrow> ((error + Execution) \<times> Engine) option" where
  "run X script arg eid S =
     (case run_start arg eid S of
        (Inl e, S1) \<Rightarrow> Some (Inl e, S1)
      | (Inr begun, S1) \<Rightarrow> run_resume X script arg begun S1)"

subsection \<open>The \<^verbatim>\<open>run\<close> method of the builder\<close>

text \<open>
  The method (lines 772-803) awaits the closure's \<^verbatim>\<open>run\<close> and folds the declared map
  steps over the Execution it resolved to. \<open>finalOf p\<close> is \<^verbatim>\<open>p.finalResponse\<close>, and
  \<^verbatim>\<open>def.mapFns || []\<close> must be an array for \<^verbatim>\<open>reduce\<close> to exist.

  A step that is an AI function (it has \<^verbatim>\<open>__internal_def\<close>) records an
  \<^verbatim>\<open>executing-function\<close> Action in this closure and runs
  \<^verbatim>\<open>createFn(functionDef, ...args).run({...p.finalResponse}, execution?.id)\<close>: the method
  again, in a new closure for \<^verbatim>\<open>functionDef\<close> (\<open>fnDef\<close> below), which has the same callbacks and no
  Execution yet (\<open>inner\<close>). The id source, the observer and the chat provider are shared,
  so what the inner closure did to them is kept when this closure goes on (\<open>outer\<close>).
  Any other step is called with the previous final response, the closure's Execution and
  the run-time arguments, and \<^verbatim>\<open>resolveExecution\<close> is applied to its result.

  The replies the chat provider has not given yet are those of the script beyond the
  requests sent in between (\<open>unanswered\<close>). \<open>depth\<close> bounds how deep AI functions inside
  map steps may be nested: a Definition is a finite value, so some depth is always enough,
  and with the depth used up the result is \<^const>\<open>None\<close>.
\<close>

definition finalOf :: "Execution \<Rightarrow> jsval" where
  "finalOf p = (case finalResponse p of None \<Rightarrow> JUndefined | Some v \<Rightarrow> v)"

definition mapFnsOf :: "ProcedureBuilderDef \<Rightarrow> error + jsval list" where
  "mapFnsOf d =
     (if truthy (obj_get ''mapFns'' d)
      then (case obj_get ''mapFns'' d of
              JArr fns \<Rightarrow> Inr fns
            | other \<Rightarrow> Inl (TypeError ''mapFns.reduce is not a function''))
      else Inr [])"

definition inner :: "jsval \<Rightarrow> Engine \<Rightarrow> Engine" where
  "inner fnDef S =
     S\<lparr> def := createFn (ownProps fnDef), execution := None,
        activeFunctionExecutionId := [] \<rparr>"

definition outer :: "Engine \<Rightarrow> Engine \<Rightarrow> Engine" where
  "outer S N =
     N\<lparr> def := def S, execution := execution S,
        activeFunctionExecutionId := activeFunctionExecutionId S \<rparr>"

definition unanswered :: "ChatReply list \<Rightarrow> Engine \<Rightarrow> Engine \<Rightarrow> ChatReply list" where
  "unanswered script S S' = drop (length (requests S') - length (requests S)) script"

fun run_m ::
  "nat \<Rightarrow> externals \<Rightarrow> ChatReply list \<Rightarrow> jsval \<Rightarrow> string option \<Rightarrow> Engine
     \<Rightarrow> ((error + Execution) \<times> Engine) option"
  and mapFns_reduce ::
  "nat \<Rightarrow> externals \<Rightarrow> ChatReply list \<Rightarrow> jsval \<Rightarrow> jsval list \<Rightarrow> Execution \<Rightarrow> Engine
     \<Rightarrow> ((error + Execution) \<times> Engine) option" where
  "run_m depth X script runtimeArgs executionId S =
     (case run X script runtimeArgs executionId S of
        None \<Rightarrow> None
      | Some (Inl e, S1) \<Rightarrow> Some (Inl e, S1)
      | Some (Inr firstResponse, S1) \<Rightarrow>
          (case mapFnsOf (def S1) of
             Inl e \<Rightarrow> Some (Inl e, S1)
           | Inr mapFns \<Rightarrow>
               mapFns_reduce depth X (unanswered script S S1) runtimeArgs mapFns
                 firstResponse S1))"
| "mapFns_reduce depth X script runtimeArgs [] p S = Some (Inr p, S)"
| "mapFns_reduce depth X script runtimeArgs (fn # fns) p S =
     (let aiFunction = safeParseAiFn fn
      in if truthy aiFunction then
           (let fnDef = getProp ''__internal_def'' aiFunction
            in case createTrace \<lparr> action_id = [], action = ExecutingFunction,
                                   functionDef = Some fnDef, input = Some (finalOf p),
                                   messages = None, response = None \<rparr> S of
                 (Inl e, S1) \<Rightarrow> Some (Inl e, S1)
               | (Inr aid, S1) \<Rightarrow>
                   (case depth of
                      0 \<Rightarrow> None
                    | Suc depth' \<Rightarrow>
                        (case run_m depth' X script (JObj (ownProps (finalOf p)))
                                (map_option execution_id (execution S1))
                                (inner fnDef S1) of
                           None \<Rightarrow> None
                         | Some (Inl e, N) \<Rightarrow> Some (Inl e, outer S1 N)
                         | Some (Inr p', N) \<Rightarrow>
                             mapFns_reduce depth X (unanswered script S1 N) runtimeArgs fns
                               p' (outer S1 N))))
         else
           (case resolveExecution (applyMap X fn (finalOf p) (execution S) runtimeArgs) [] S of
              (Inl e, S1) \<Rightarrow> Some (Inl e, S1)
            | (Inr p', S1) \<Rightarrow> mapFns_reduce depth X script runtimeArgs fns p' S1))"

declare run_m.simps [simp del]


subsection \<open>\<^verbatim>\<open>runDataset\<close>\<close>






section \<open>The log registry\<close>

text \<open>
  Modelled from the spec: \<^verbatim>\<open>mergeOrUpdate\<close> (\<^verbatim>\<open>./utils\<close> is imported by \<^verbatim>\<open>llm.ts\<close>, and the
  part of it among the sources does not define this function). The spec's Log Registry
  section: reconcile \<^verbatim>\<open>functionsExecuted\<close> by matching entries on their key; entries
  present in the incoming list overwrite the corresponding existing entry; entries present
  only in the existing list are preserved; order follows the existing list with unmatched
  incoming entries appended. The incoming entries are taken in order: each one overwrites
  the entries with its key in the list built so far, or is appended when there is none.
\<close>

definition overwrite :: "('a \<Rightarrow> string) \<Rightarrow> 'a \<Rightarrow> 'a \<Rightarrow> 'a" where
  "overwrite key i e = (if key e = key i then i else e)"

definition upsert :: "('a \<Rightarrow> string) \<Rightarrow> 'a \<Rightarrow> 'a list \<Rightarrow> 'a list" where
  "upsert key i acc =
     (if list_ex (\<lambda>e. key e = key i) acc
      then map (overwrite key i) acc
      else acc @ [i])"

definition mergeOrUpdate :: "'a list \<Rightarrow> 'a list \<Rightarrow> ('a \<Rightarrow> string) \<Rightarrow> 'a list" where
  "mergeOrUpdate existing incoming key = fold (upsert key) incoming existing"

text \<open>
  The state of \<^verbatim>\<open>initLLmFunction\<close>: the list \<^verbatim>\<open>executionLogs\<close>, whether a
  \<^verbatim>\<open>logsProvider\<close> was given, and the Executions handed to its \<^verbatim>\<open>saveLog\<close>, oldest first.
\<close>

record Registry =
  executionLogs :: "Execution list"
  logsProvider :: bool
  saved :: "Execution list"

text \<open>
  \<^verbatim>\<open>{...existingLog, ...l, functionsExecuted: mergeOrUpdate(...)}\<close>: the keys every
  Execution has are taken from \<^verbatim>\<open>l\<close>, an optional key from \<^verbatim>\<open>l\<close> when \<^verbatim>\<open>l\<close> has it.
\<close>

definition mergedLogs :: "Execution \<Rightarrow> Execution \<Rightarrow> Execution" where
  "mergedLogs existingLog l =
     \<lparr> execution_id = execution_id l,
       createdAt = createdAt l,
       functionsExecuted =
         mergeOrUpdate (functionsExecuted existingLog) (functionsExecuted l)
           (\<lambda>x. if functionExecutionId x \<noteq> [] then functionExecutionId x else []),
       finalResponse = (case finalResponse l of None \<Rightarrow> finalResponse existingLog
                                              | Some v \<Rightarrow> Some v),
       verified = (case verified l of None \<Rightarrow> verified existingLog | Some v \<Rightarrow> Some v) \<rparr>"

definition saveLog :: "Execution \<Rightarrow> Registry \<Rightarrow> Registry" where
  "saveLog e R = (if logsProvider R then R\<lparr>saved := saved R @ [e]\<rparr> else R)"

definition logHandler :: "Execution \<Rightarrow> Registry \<Rightarrow> Execution \<times> Registry" where
  "logHandler l R =
     (case find (\<lambda>e. execution_id e = execution_id l) (executionLogs R) of
        None \<Rightarrow> (l, saveLog l (R\<lparr>executionLogs := executionLogs R @ [l]\<rparr>))
      | Some existingLog \<Rightarrow>
          (let m = mergedLogs existingLog l
           in (m, saveLog m
                    (R\<lparr>executionLogs :=
                         map (\<lambda>e. if execution_id e = execution_id m then m else e)
                             (executionLogs R)\<rparr>))))"

section \<open>Observing the engine\<close>

text \<open>
  The sub-records that \<^verbatim>\<open>createTrace\<close> and \<^verbatim>\<open>updateTrace\<close> write to: those whose
  \<^verbatim>\<open>functionExecutionId\<close> is the closure's current one. After \<^verbatim>\<open>createExecution\<close> there is
  exactly one; such a state is \<open>ready\<close>, and \<open>activeTrace\<close> is then that sub-record's
  trace.
\<close>

definition activeRecords :: "Engine \<Rightarrow> FunctionExecuted list" where
  "activeRecords S =
     (case execution S of
        None \<Rightarrow> []
      | Some ex \<Rightarrow>
          filter (\<lambda>e. functionExecutionId e = activeFunctionExecutionId S) (functionsExecuted ex))"

definition ready :: "Engine \<Rightarrow> bool" where
  "ready S = (length (activeRecords S) = 1)"

definition activeTrace :: "Engine \<Rightarrow> Action list" where
  "activeTrace S = concat (map trace (activeRecords S))"

text \<open>The array \<^verbatim>\<open>functions\<close> of \<^verbatim>\<open>callZodOutput\<close>: the declared sub-functions, then \<^verbatim>\<open>print\<close>.\<close>

definition catalog :: "Engine \<Rightarrow> jsval \<Rightarrow> jsval list" where
  "catalog S zodSchema = orEmpty (obj_get ''functions'' (def S)) @ [printFn_def zodSchema]"

text \<open>
  How \<^verbatim>\<open>callZodOutput\<close> reads a reply that carries a function call: the function of the
  catalog it names together with the parsed arguments, when the envelope parses and the
  name is found.
\<close>

definition calledFunction :: "externals \<Rightarrow> jsval list \<Rightarrow> ChatReply \<Rightarrow> (jsval \<times> jsval) option" where
  "calledFunction X fns resp =
     (if \<not> truthy (function_call resp) then None
      else case safeParse X (functionCallSchema X) (function_call resp) of
             Inl e \<Rightarrow> None
           | Inr functionCallJson \<Rightarrow>
               (case find (\<lambda>f. getProp ''name'' f = getProp ''name'' functionCallJson) fns of
                  None \<Rightarrow> None
                | Some fn \<Rightarrow>
                    if getProp ''parameters'' fn = JUndefined \<or> getProp ''parameters'' fn = JNull
                    then None
                    else Some (fn, getProp ''arguments'' functionCallJson)))"

text \<open>
  The validation message, when the reply calls a function of the catalog with arguments
  that its parameter schema rejects.
\<close>

definition argumentsRejected :: "externals \<Rightarrow> jsval list \<Rightarrow> ChatReply \<Rightarrow> string option" where
  "argumentsRejected X fns resp =
     (case calledFunction X fns resp of
        None \<Rightarrow> None
      | Some (fn, args) \<Rightarrow>
          (case safeParse X (getProp ''parameters'' fn) args of
             Inl err \<Rightarrow> Some err
           | Inr argument \<Rightarrow> None))"

text \<open>
  Names for the states \<^verbatim>\<open>callZodOutput\<close> passes through: the id the next \<^verbatim>\<open>createTrace\<close>
  draws, the state after a \<^verbatim>\<open>createTrace\<close> and after an \<^verbatim>\<open>updateTrace\<close>, the state once
  the chat provider has been asked (the pending \<^verbatim>\<open>calling-open-ai\<close> Action recorded, the
  request sent), and the state once that Action has been given a response.
\<close>

definition newId :: "Engine \<Rightarrow> string" where
  "newId S = fst (nanoid S)"

definition traced :: "Action \<Rightarrow> Engine \<Rightarrow> Engine" where
  "traced a S = snd (createTrace a S)"

definition patched :: "string \<Rightarrow> ActionPatch \<Rightarrow> Engine \<Rightarrow> Engine" where
  "patched aid p S = snd (updateTrace aid p S)"

definition asked :: "externals \<Rightarrow> BaseMessage list \<Rightarrow> jsval \<Rightarrow> Engine \<Rightarrow> Engine" where
  "asked X msgs zodSchema S =
     (let S1 = traced (callingOpenAi X msgs) S
      in S1\<lparr>requests := requests S1 @
              [(msgs, map (toOpenAiFunction X) (catalog S1 zodSchema),
                if length (orEmpty (obj_get ''functions'' (def S1))) = 0
                then JObj [(''name'', JStr ''print'')] else JStr ''auto'')]\<rparr>)"

definition answered ::
  "externals \<Rightarrow> BaseMessage list \<Rightarrow> jsval \<Rightarrow> Response \<Rightarrow> Engine \<Rightarrow> Engine" where
  "answered X msgs zodSchema r S =
     patched (newId S) (responsePatch r) (asked X msgs zodSchema S)"

text \<open>
  What a sub-function call resolves to: \<^verbatim>\<open>await fn?.implements?.(argument.data)\<close>.
\<close>

definition fnResponse_of :: "externals \<Rightarrow> jsval \<Rightarrow> jsval \<Rightarrow> jsval" where
  "fnResponse_of X fn argument =
     (if getProp ''implements'' fn = JUndefined \<or> getProp ''implements'' fn = JNull
      then JUndefined
      else call X (getProp ''implements'' fn) [argument])"

text \<open>
  What is seen of a call of \<^verbatim>\<open>callZodOutput\<close> from outside: the value it returned or the
  error it threw, the kind and response of the last Action of the active trace, and the
  number of requests the closure has sent to the chat provider. All are \<^const>\<open>None\<close> while
  the call has not returned.
\<close>

definition returned ::
  "((error + jsval \<times> BaseMessage list) \<times> Engine) option \<Rightarrow> (error + jsval) option" where
  "returned r =
     (case r of
        None \<Rightarrow> None
      | Some (Inl e, S) \<Rightarrow> Some (Inl e)
      | Some (Inr (v, msgs), S) \<Rightarrow> Some (Inr v))"

definition lastAction ::
  "((error + jsval \<times> BaseMessage list) \<times> Engine) option \<Rightarrow> (ActionKind \<times> Response option) option" where
  "lastAction r =
     (case r of
        None \<Rightarrow> None
      | Some (v, S) \<Rightarrow>
          if activeTrace S = [] then None
          else Some (action (last (activeTrace S)), response (last (activeTrace S))))"

definition providerCalls ::
  "((error + jsval \<times> BaseMessage list) \<times> Engine) option \<Rightarrow> nat option" where
  "providerCalls r = (case r of None \<Rightarrow> None | Some (v, S) \<Rightarrow> Some (length (requests S)))"

text \<open>
  The messages a call of \<^verbatim>\<open>callZodOutput\<close> returned with its value, and the responses of
  the Actions of the active trace, oldest first, as the call left them.
\<close>

definition returnedMessages ::
  "((error + jsval \<times> BaseMessage list) \<times> Engine) option \<Rightarrow> BaseMessage list option" where
  "returnedMessages r =
     (case r of
        None \<Rightarrow> None
      | Some (Inl e, S) \<Rightarrow> None
      | Some (Inr (v, msgs), S) \<Rightarrow> Some msgs)"

definition traceResponses ::
  "((error + jsval \<times> BaseMessage list) \<times> Engine) option \<Rightarrow> Response option list option" where
  "traceResponses r =
     (case r of None \<Rightarrow> None | Some (v, S) \<Rightarrow> Some (map response (activeTrace S)))"

text \<open>
  Every Action of the active trace carries an id that the id source has issued before:
  the next id is then not the id of any of them.
\<close>

definition issued :: "Engine \<Rightarrow> bool" where
  "issued S =
     (\<forall>t \<in> set (activeTrace S). \<exists>k < nanoids S. action_id t = ''nanoid-'' @ toString k)"

text \<open>
  The conversation after the replies \<open>texts\<close>, none of which carries a function call, have
  each been answered with the request to use \<^verbatim>\<open>print\<close>.
\<close>

definition reprompted ::
  "externals \<Rightarrow> jsval \<Rightarrow> BaseMessage list \<Rightarrow> ChatReply list \<Rightarrow> BaseMessage list" where
  "reprompted X zodSchema msgs texts =
     msgs @ concat (map (\<lambda>r. [AIMessage r, usePrintMessage X zodSchema]) texts)"

text \<open>
  The closure is in the middle of the run that \<^verbatim>\<open>createExecution\<close> began with the id \<open>i\<close> on
  the arguments \<open>arg\<close>: its Execution has the one sub-record of that run, not resolved yet,
  whose trace is \<open>tr\<close>. \<open>calm\<close> says of the trace of such a run that it begins with the
  run's \<^verbatim>\<open>executing-function\<close> Action and has no \<^verbatim>\<open>calling-open-ai\<close> Action.
\<close>

definition running :: "string \<Rightarrow> jsval \<Rightarrow> Action list \<Rightarrow> Engine \<Rightarrow> bool" where
  "running i arg tr S =
     (execution S = Some
        \<lparr> execution_id = i, createdAt = now S,
          functionsExecuted =
            [\<lparr> functionExecutionId = activeFunctionExecutionId S, inputs = arg, trace = tr,
               fe_finalResponse = None, fe_functionDef = def S \<rparr>],
          finalResponse = None, verified = None \<rparr>)"

definition calm :: "jsval \<Rightarrow> Action list \<Rightarrow> bool" where
  "calm arg tr =
     (tr \<noteq> [] \<and> action (hd tr) = ExecutingFunction \<and> input (hd tr) = Some arg
      \<and> CallingOpenAi \<notin> action ` set tr)"

text \<open>
  What is seen of a run from outside: the final response of the Execution it resolved to,
  and the arguments recorded in the sub-records of each Execution that \<^verbatim>\<open>runDataset\<close>
  returned.
\<close>

definition resolvedWith ::
  "((error + Execution) \<times> Engine) option \<Rightarrow> jsval option option" where
  "resolvedWith r =
     (case r of
        None \<Rightarrow> None
      | Some (Inl e, S) \<Rightarrow> None
      | Some (Inr ex, S) \<Rightarrow> Some (finalResponse ex))"

definition requestsSent :: "('a \<times> Engine) option \<Rightarrow> nat option" where
  "requestsSent r = (case r of None \<Rightarrow> None | Some (v, S) \<Rightarrow> Some (length (requests S)))"


text \<open>
  The closure is in the middle of such a run, begun in the state \<open>S0\<close>, and has sent no
  request to the chat provider since.
\<close>

definition quietly :: "string \<Rightarrow> jsval \<Rightarrow> Engine \<Rightarrow> Engine \<Rightarrow> bool" where
  "quietly i arg S0 S =
     (\<exists>tr. running i arg tr S \<and> calm arg tr \<and> requests S = requests S0 \<and> def S = def S0
           \<and> onExecutionUpdate S = onExecutionUpdate S0 \<and> now S = now S0)"

text \<open>
  The closure has gone on from \<open>S\<close> to \<open>S'\<close> without a request to the chat provider: it
  still has its one active sub-record, the same Definition and observer, and the ids
  issued and the Executions handed to the observer so far are still so.
\<close>

definition later :: "Engine \<Rightarrow> Engine \<Rightarrow> bool" where
  "later S S' =
     (ready S' \<and> def S' = def S \<and> requests S' = requests S
      \<and> onExecutionUpdate S' = onExecutionUpdate S
      \<and> set (observed S) \<subseteq> set (observed S') \<and> nanoids S \<le> nanoids S')"


subsection \<open>Concrete collaborators and inputs\<close>

text \<open>
  A small instance of the collaborators: the envelope schema asks for a string
  \<^verbatim>\<open>name\<close>, every other schema asks for a key \<^verbatim>\<open>argument\<close>.
\<close>

definition objectPrototypeText :: "string \<Rightarrow> string option" where
  "objectPrototypeText n =
     (if n = ''__proto__'' then Some ''[object Object]''
      else if n = ''constructor'' then Some ''function Object() { [native code] }''
      else if n \<in> set [''__defineGetter__'', ''__defineSetter__'', ''hasOwnProperty'',
                         ''__lookupGetter__'', ''__lookupSetter__'', ''isPrototypeOf'',
                         ''propertyIsEnumerable'', ''toString'', ''valueOf'', ''toLocaleString'']
      then Some (''function '' @ n @ ''() { [native code] }'')
      else None)"

definition X0 :: externals where
  "X0 = \<lparr> safeParse =
            (\<lambda>schema v.
               if schema = JStr ''functionCall''
               then (case getProp ''name'' v of
                       JStr n \<Rightarrow> Inr v
                     | other \<Rightarrow> Inl ''Expected string, received undefined'')
               else if getProp ''argument'' v = JUndefined then Inl ''Required''
               else Inr v),
          z_string = JStr ''string'',
          z_argument = (\<lambda>out. JObj [(''argument'', out)]),
          functionCallSchema = JStr ''functionCall'',
          zodToJsonSchema = (\<lambda>schema. schema),
          printNode_zodToTs = (\<lambda>schema. ''string''),
          call = (\<lambda>f args. JStr ''42''),
          applyMap = (\<lambda>fn v ex runtimeArgs. JStr ''mapped''),
          splitDocument = (\<lambda>d executionId userPrompt. JObj [(''result'', JStr ''text'')]),
          toOpenAiFunction = (\<lambda>f. getProp ''name'' f),
          fromLangChainMessage = (\<lambda>m. JNull),
          inheritedText = (\<lambda>v. objectPrototypeText) \<rparr>"


definition lookupDef :: jsval where
  "lookupDef =
     JObj [(''name'', JStr ''lookup''), (''description'', JStr ''Looks a word up''),
           (''parameters'', JStr ''lookupParameters''), (''implements'', JFun 1 [])]"

definition engine0 :: "ProcedureBuilderDef \<Rightarrow> Engine" where
  "engine0 d =
     \<lparr> def = d, onExecutionUpdate = True, execution = None, activeFunctionExecutionId = [],
       nanoids = 0, now = 0, observed = [], requests = [] \<rparr>"

text \<open>The closure state after \<^verbatim>\<open>createExecution({})\<close>.\<close>

definition started :: "ProcedureBuilderDef \<Rightarrow> Engine" where
  "started d = snd (createExecution (JObj []) None (engine0 d))"

definition textReply :: ChatReply where
  "textReply = \<lparr> reply_text = ''hello'', function_call = JUndefined \<rparr>"

definition badEnvelope :: ChatReply where
  "badEnvelope = \<lparr> reply_text = [], function_call = JObj [(''arguments'', JStr ''{}'')] \<rparr>"

definition badPrint :: ChatReply where
  "badPrint =
     \<lparr> reply_text = [],
       function_call = JObj [(''name'', JStr ''print''), (''arguments'', JObj [])] \<rparr>"

definition badLookup :: ChatReply where
  "badLookup =
     \<lparr> reply_text = [],
       function_call = JObj [(''name'', JStr ''lookup''), (''arguments'', JObj [])] \<rparr>"

definition goodLookup :: ChatReply where
  "goodLookup =
     \<lparr> reply_text = [],
       function_call = JObj [(''name'', JStr ''lookup''),
                             (''arguments'', JObj [(''argument'', JStr ''word'')])] \<rparr>"

text \<open>
  A closure that has recorded one pending \<^verbatim>\<open>calling-open-ai\<close> Action, and the Execution
  it holds then.
\<close>

definition pendingEngine :: Engine where
  "pendingEngine = traced (callingOpenAi X0 []) (started (createFn []))"

definition pendingExecution :: Execution where
  "pendingExecution =
     \<lparr> execution_id = ''nanoid-0'', createdAt = 0,
       functionsExecuted =
         [\<lparr> functionExecutionId = ''nanoid-1'', inputs = JObj [],
            trace = [\<lparr> action_id = ''nanoid-2'', action = CallingOpenAi, functionDef = None,
                       input = None, messages = Some [], response = Some Loading \<rparr>],
            fe_finalResponse = None, fe_functionDef = createFn [] \<rparr>],
       finalResponse = None, verified = None \<rparr>"

text \<open>A reply that calls \<^verbatim>\<open>print\<close> with arguments its schema accepts.\<close>

definition goodPrint :: ChatReply where
  "goodPrint =
     \<lparr> reply_text = [],
       function_call = JObj [(''name'', JStr ''print''),
                             (''arguments'', JObj [(''argument'', JStr ''done'')])] \<rparr>"

text \<open>
  A Definition with one map step that is not an AI function, and the dataset of two
  entries of the spec's example.
\<close>

definition mappedDef :: ProcedureBuilderDef where
  "mappedDef = map_m (JFun 7 []) (createFn [])"




text \<open>
  An AI function, as \<^verbatim>\<open>create()\<close> returns it, whose Definition declares an instruction
  template, and a Definition that declares it as its one map step.
\<close>

definition greeter :: jsval where
  "greeter = JFun 8 [(''__internal_def'', JObj (instructions ''Say hi'' (createFn [])))]"

definition chainedDef :: ProcedureBuilderDef where
  "chainedDef = map_m greeter (createFn [])"


text \<open>
  Two Executions with the same id: a partial one with one sub-record, and a later one in
  which that sub-record is resolved and a second sub-record has appeared.
\<close>

definition executionA :: Execution where
  "executionA =
     \<lparr> execution_id = ''e1'', createdAt = 1,
       functionsExecuted =
         [\<lparr> functionExecutionId = ''f1'', inputs = JObj [], trace = [],
            fe_finalResponse = None, fe_functionDef = createFn [] \<rparr>],
       finalResponse = None, verified = Some (JBool True) \<rparr>"

definition executionB :: Execution where
  "executionB =
     \<lparr> execution_id = ''e1'', createdAt = 2,
       functionsExecuted =
         [\<lparr> functionExecutionId = ''f1'', inputs = JObj [], trace = [],
            fe_finalResponse = Some (JStr ''done''), fe_functionDef = createFn [] \<rparr>,
          \<lparr> functionExecutionId = ''f2'', inputs = JObj [], trace = [],
            fe_finalResponse = None, fe_functionDef = createFn [] \<rparr>],
       finalResponse = Some (JStr ''done''), verified = None \<rparr>"

definition registry0 :: Registry where
  "registry0 = \<lparr> executionLogs = [executionA], logsProvider = True, saved = [] \<rparr>"

section \<open>Properties of the builder\<close>

lemma delete_update_fresh:
  "k \<notin> fst ` set d \<Longrightarrow> AList.delete k (AList.update k v d) = d"
  by (induction d) (auto simp: AList.delete_eq)

lemmas eval_create =
  create_def createFn_def spread_def defaultModel_def quote_def escapeChar_def cyrb53_def
  imul_def toString.simps

text \<open>
  C4. Every builder method is to return the previous Definition with the newly supplied
  field in effect. \<^verbatim>\<open>output\<close> spreads \<^verbatim>\<open>...def\<close> after the new keys, so on a Definition
  that already declares an output schema the new schema is dropped: after
  \<^verbatim>\<open>.output(ZodString).output(ZodNumber)\<close> the Definition still holds the first schema.
  \<^verbatim>\<open>name\<close>, which spreads \<^verbatim>\<open>...def\<close> first as the other methods do, replaces the value.
\<close>

theorem output_m_keeps_declared_schema:
  "obj_get ''output''
     (output_m X (JObj [(''typeName'', JStr ''ZodNumber'')])
        (output_m X (JObj [(''typeName'', JStr ''ZodString'')]) (createFn [])))
   = JObj [(''typeName'', JStr ''ZodString'')]
   \<and> obj_get ''name'' (name ''second'' (name ''first'' (createFn []))) = JStr ''second''"
  by (simp add: output_m_def name_def createFn_def spread_def obj_get_def)

text \<open>
  C2, as stated, fails: the text that \<^verbatim>\<open>create()\<close> hashes contains a previously assigned
  id. The Definition \<^verbatim>\<open>createFn({id: 'test'})\<close> (the one \<^verbatim>\<open>initLLmFunction\<close> builds on)
  gets the id 6584026220683166, while the hash of its serialization without the id is
  460128783633551; and serializing and hashing the finalized Definition again gives a third
  id, 6620336008401836.
\<close>

theorem create_hash_includes_previous_id:
  "create (createFn [(''id'', JStr ''test'')]) =
     Inr [(''model'', defaultModel), (''id'', JStr ''6584026220683166'')]
   \<and> create (AList.delete ''id'' (createFn [(''id'', JStr ''test'')])) =
     Inr [(''model'', defaultModel), (''id'', JStr ''460128783633551'')]
   \<and> create [(''model'', defaultModel), (''id'', JStr ''6584026220683166'')] =
     Inr [(''model'', defaultModel), (''id'', JStr ''6620336008401836'')]"
  by (simp add: eval_create)

text \<open>
  C2, amended. \<^verbatim>\<open>create()\<close> never throws; the id it assigns is the decimal text of the
  hash of the whole serialized Definition, a previously assigned id included. Two
  Definitions with the same serialization receive the same id. For a Definition that has
  no id yet, finalizing is stable: removing the id from the finalized Definition and
  finalizing again yields the same finalized Definition.
\<close>

theorem create_content_hash:
  "(\<exists>str. JSON_stringify (JObj d) = Some str
          \<and> create d = Inr (AList.update ''id'' (JStr (toString (cyrb53 str))) d))
   \<and> (\<forall>d2 e e2. JSON_stringify (JObj d) = JSON_stringify (JObj d2)
          \<and> create d = Inr e \<and> create d2 = Inr e2
          \<longrightarrow> obj_get ''id'' e = obj_get ''id'' e2)
   \<and> (\<forall>e. ''id'' \<notin> fst ` set d \<and> create d = Inr e
          \<longrightarrow> create (AList.delete ''id'' e) = Inr e)"
proof (intro conjI allI impI)
  show "\<exists>str. JSON_stringify (JObj d) = Some str
          \<and> create d = Inr (AList.update ''id'' (JStr (toString (cyrb53 str))) d)"
    by (simp add: create_def)
next
  fix d2 e e2
  assume h: "JSON_stringify (JObj d) = JSON_stringify (JObj d2)
          \<and> create d = Inr e \<and> create d2 = Inr e2"
  then have "e = AList.update ''id'' (JStr (toString (cyrb53 (the (JSON_stringify (JObj d)))))) d"
    by (auto simp: create_def)
  moreover from h have
    "e2 = AList.update ''id'' (JStr (toString (cyrb53 (the (JSON_stringify (JObj d)))))) d2"
    by (auto simp: create_def)
  ultimately show "obj_get ''id'' e = obj_get ''id'' e2"
    by (simp add: obj_get_def update_conv')
next
  fix e
  assume h: "''id'' \<notin> fst ` set d \<and> create d = Inr e"
  then obtain v where e: "e = AList.update ''id'' v d"
    and c: "create d = Inr (AList.update ''id'' v d)"
    by (auto simp: create_def)
  from h have "AList.delete ''id'' e = d"
    unfolding e by (simp add: delete_update_fresh)
  with c e show "create (AList.delete ''id'' e) = Inr e"
    by simp
qed

theorem create_content_hash_witness:
  "''id'' \<notin> fst ` set (createFn [])
   \<and> create (createFn []) = Inr [(''model'', defaultModel), (''id'', JStr ''460128783633551'')]
   \<and> create (AList.delete ''id'' [(''model'', defaultModel), (''id'', JStr ''460128783633551'')])
       = Inr [(''model'', defaultModel), (''id'', JStr ''460128783633551'')]"
proof -
  have n: "''id'' \<notin> fst ` set (createFn [])"
    by (simp add: createFn_def spread_def)
  have c: "create (createFn []) =
             Inr [(''model'', defaultModel), (''id'', JStr ''460128783633551'')]"
    by (simp add: eval_create)
  from create_content_hash [of "createFn []"] n c show ?thesis
    by blast
qed

section \<open>Properties of the trace recorder\<close>

lemma filter_active_map:
  assumes "\<And>e. functionExecutionId (f e) = functionExecutionId e"
  shows "filter (\<lambda>e. functionExecutionId e = a) (map f fe)
         = map f (filter (\<lambda>e. functionExecutionId e = a) fe)"
  by (induction fe) (simp_all add: assms)

lemma notify_fields [simp]:
  "def (notify S) = def S"
  "requests (notify S) = requests S"
  "execution (notify S) = execution S"
  "activeFunctionExecutionId (notify S) = activeFunctionExecutionId S"
  "nanoids (notify S) = nanoids S"
  "onExecutionUpdate (notify S) = onExecutionUpdate S"
  by (simp_all add: notify_def split: option.splits)

lemma activeRecords_notify [simp]: "activeRecords (notify S) = activeRecords S"
  by (simp add: activeRecords_def split: option.splits)

lemma filter_singleton:
  "filter P xs = [x] \<Longrightarrow> P x"
proof -
  assume "filter P xs = [x]"
  then have "x \<in> set (filter P xs)" by simp
  then show "P x" by simp
qed

lemma ready_execution: "ready S \<Longrightarrow> \<exists>ex. execution S = Some ex"
  by (cases "execution S") (simp_all add: ready_def activeRecords_def)

lemma createTrace_ready:
  assumes "ready S"
  shows "fst (createTrace a S) = Inr (fst (nanoid S))"
    and "ready (snd (createTrace a S))"
    and "def (snd (createTrace a S)) = def S"
    and "requests (snd (createTrace a S)) = requests S"
    and "activeFunctionExecutionId (snd (createTrace a S)) = activeFunctionExecutionId S"
    and "activeTrace (snd (createTrace a S)) = activeTrace S @ [a\<lparr>action_id := fst (nanoid S)\<rparr>]"
proof -
  from assms obtain ex where ex: "execution S = Some ex"
    using ready_execution by blast
  from assms ex obtain e0 where
    e0: "filter (\<lambda>e. functionExecutionId e = activeFunctionExecutionId S) (functionsExecuted ex) = [e0]"
    by (auto simp: ready_def activeRecords_def length_Suc_conv)
  from e0 have a0: "functionExecutionId e0 = activeFunctionExecutionId S"
    by (rule filter_singleton)
  show "fst (createTrace a S) = Inr (fst (nanoid S))"
    using ex by (simp add: createTrace_def nanoid_def)
  show "def (snd (createTrace a S)) = def S"
    using ex by (simp add: createTrace_def nanoid_def)
  show "requests (snd (createTrace a S)) = requests S"
    using ex by (simp add: createTrace_def nanoid_def)
  show "activeFunctionExecutionId (snd (createTrace a S)) = activeFunctionExecutionId S"
    using ex by (simp add: createTrace_def nanoid_def)
  have ar: "activeRecords (snd (createTrace a S)) = [e0\<lparr>trace := trace e0 @ [a\<lparr>action_id := fst (nanoid S)\<rparr>]\<rparr>]"
    using ex e0 a0 by (simp add: createTrace_def nanoid_def activeRecords_def filter_active_map)
  then show "ready (snd (createTrace a S))"
    by (simp add: ready_def)
  from ar e0 ex show "activeTrace (snd (createTrace a S)) = activeTrace S @ [a\<lparr>action_id := fst (nanoid S)\<rparr>]"
    by (simp add: activeTrace_def activeRecords_def)
qed

lemma updateTrace_ready:
  assumes "ready S"
  shows "fst (updateTrace aid p S) = Inr ()"
    and "ready (snd (updateTrace aid p S))"
    and "def (snd (updateTrace aid p S)) = def S"
    and "requests (snd (updateTrace aid p S)) = requests S"
    and "activeFunctionExecutionId (snd (updateTrace aid p S)) = activeFunctionExecutionId S"
    and "activeTrace (snd (updateTrace aid p S))
         = map (\<lambda>t. if action_id t = aid then mergeAction t p else t) (activeTrace S)"
proof -
  from assms obtain ex where ex: "execution S = Some ex"
    using ready_execution by blast
  from assms ex obtain e0 where
    e0: "filter (\<lambda>e. functionExecutionId e = activeFunctionExecutionId S) (functionsExecuted ex) = [e0]"
    by (auto simp: ready_def activeRecords_def length_Suc_conv)
  from e0 have a0: "functionExecutionId e0 = activeFunctionExecutionId S"
    by (rule filter_singleton)
  show "fst (updateTrace aid p S) = Inr ()"
    using ex by (simp add: updateTrace_def)
  show "def (snd (updateTrace aid p S)) = def S"
    using ex by (simp add: updateTrace_def)
  show "requests (snd (updateTrace aid p S)) = requests S"
    using ex by (simp add: updateTrace_def)
  show "activeFunctionExecutionId (snd (updateTrace aid p S)) = activeFunctionExecutionId S"
    using ex by (simp add: updateTrace_def)
  have ar: "activeRecords (snd (updateTrace aid p S))
            = [e0\<lparr>trace := map (\<lambda>t. if action_id t = aid then mergeAction t p else t) (trace e0)\<rparr>]"
    using ex e0 a0 by (simp add: updateTrace_def activeRecords_def filter_active_map)
  then show "ready (snd (updateTrace aid p S))"
    by (simp add: ready_def)
  from ar e0 ex show "activeTrace (snd (updateTrace aid p S))
         = map (\<lambda>t. if action_id t = aid then mergeAction t p else t) (activeTrace S)"
    by (simp add: activeTrace_def activeRecords_def)
qed


lemma createTrace_eq:
  "ready S \<Longrightarrow> createTrace a S = (Inr (newId S), traced a S)"
  by (simp add: prod_eq_iff createTrace_ready(1) newId_def traced_def)

lemma updateTrace_eq:
  "ready S \<Longrightarrow> updateTrace aid p S = (Inr (), patched aid p S)"
  by (simp add: prod_eq_iff updateTrace_ready(1) patched_def)

lemma traced_facts:
  assumes "ready S"
  shows "ready (traced a S)"
    and "def (traced a S) = def S"
    and "requests (traced a S) = requests S"
    and "activeTrace (traced a S) = activeTrace S @ [a\<lparr>action_id := newId S\<rparr>]"
  using createTrace_ready [OF assms, of a] by (simp_all add: traced_def newId_def)

lemma patched_facts:
  assumes "ready S"
  shows "ready (patched aid p S)"
    and "def (patched aid p S) = def S"
    and "requests (patched aid p S) = requests S"
    and "activeTrace (patched aid p S)
         = map (\<lambda>t. if action_id t = aid then mergeAction t p else t) (activeTrace S)"
  using updateTrace_ready [OF assms, of aid p] by (simp_all add: patched_def)

lemma requests_update_obs [simp]:
  "activeRecords (S\<lparr>requests := r\<rparr>) = activeRecords S"
  "ready (S\<lparr>requests := r\<rparr>) = ready S"
  "activeTrace (S\<lparr>requests := r\<rparr>) = activeTrace S"
  by (simp_all add: activeRecords_def ready_def activeTrace_def split: option.splits)

lemma asked_facts:
  assumes "ready S"
  shows "ready (asked X msgs zs S)"
    and "def (asked X msgs zs S) = def S"
    and "length (requests (asked X msgs zs S)) = Suc (length (requests S))"
    and "activeTrace (asked X msgs zs S)
         = activeTrace S @ [(callingOpenAi X msgs)\<lparr>action_id := newId S\<rparr>]"
  using traced_facts [OF assms, of "callingOpenAi X msgs"]
  by (simp_all add: asked_def Let_def)

lemma mergeAction_responsePatch:
  "mergeAction t (responsePatch r) = t\<lparr>response := Some r\<rparr>"
  by (simp add: mergeAction_def responsePatch_def)

lemma answered_facts:
  assumes "ready S"
  shows "ready (answered X msgs zs r S)"
    and "def (answered X msgs zs r S) = def S"
    and "length (requests (answered X msgs zs r S)) = Suc (length (requests S))"
    and "activeTrace (answered X msgs zs r S)
         = map (\<lambda>t. if action_id t = newId S then t\<lparr>response := Some r\<rparr> else t) (activeTrace S)
           @ [(callingOpenAi X msgs)\<lparr>action_id := newId S, response := Some r\<rparr>]"
  using asked_facts [OF assms, of X msgs zs]
    patched_facts [OF asked_facts(1) [OF assms, of X msgs zs], of "newId S" "responsePatch r"]
  by (simp_all add: answered_def mergeAction_responsePatch)

lemmas engine_simps =
  createTrace_eq updateTrace_eq traced_facts(1,2,3) patched_facts(1,2,3) Let_def
  answered_def asked_def catalog_def

lemma callZodOutput_text_step:
  assumes "ready S" and "\<not> truthy (function_call resp)"
  shows "callZodOutput X (resp # script) msgs zs retries S =
         callZodOutput X script (msgs @ [AIMessage resp, usePrintMessage X zs]) zs (retries + 1)
           (answered X msgs zs
              (ErrorResponse (''No function call found, Got text instead: '' @ reply_text resp)) S)"
  using assms by (simp add: callZodOutput.simps engine_simps)

section \<open>Steps of the retriever\<close>

lemma callZodOutput_empty:
  "ready S \<Longrightarrow> callZodOutput X [] msgs zs retries S = None"
  by (simp add: callZodOutput.simps createTrace_eq)

lemma callZodOutput_envelope_step:
  assumes "ready S" and "truthy (function_call resp)"
    and "safeParse X (functionCallSchema X) (function_call resp) = Inl err"
  shows "callZodOutput X (resp # script) msgs zs retries S =
     (if retries > 3
      then Some (Inr (JStr err, msgs @ [AIMessage resp]),
                 patched (newId S) (responsePatch TimeoutError)
                   (answered X msgs zs (ZodError (function_call resp) err) S))
      else callZodOutput X script
             (msgs @ [AIMessage resp, createValidationErrorFunctionMessage err]) zs (retries + 1)
             (answered X msgs zs (ZodError (function_call resp) err) S))"
  using assms by (simp add: callZodOutput.simps engine_simps)

lemma calledFunction_SomeD:
  assumes "calledFunction X fns resp = Some (fn, args)"
  shows "truthy (function_call resp)"
    and "\<exists>fc. safeParse X (functionCallSchema X) (function_call resp) = Inr fc
            \<and> find (\<lambda>f. getProp ''name'' f = getProp ''name'' fc) fns = Some fn
            \<and> args = getProp ''arguments'' fc"
    and "getProp ''parameters'' fn \<noteq> JUndefined"
    and "getProp ''parameters'' fn \<noteq> JNull"
  using assms
  by (auto simp: calledFunction_def split: if_splits sum.splits option.splits)


lemma callZodOutput_rejected_step:
  assumes "ready S" and "calledFunction X (catalog S zs) resp = Some (fn, args)"
    and "safeParse X (getProp ''parameters'' fn) args = Inl err"
  shows "callZodOutput X (resp # script) msgs zs retries S =
     (if retries > 3
      then Some (Inr (JStr err, msgs @ [AIMessage resp]),
                 patched (newId S) (responsePatch TimeoutError)
                   (answered X msgs zs (ZodError args err) S))
      else callZodOutput X script
             (msgs @ [AIMessage resp, createValidationErrorFunctionMessage err]) zs (retries + 1)
             (answered X msgs zs (ZodError args err) S))"
proof -
  from calledFunction_SomeD [OF assms(2)] obtain fc where
    t: "truthy (function_call resp)"
    and fc: "safeParse X (functionCallSchema X) (function_call resp) = Inr fc"
    and fn: "find (\<lambda>f. getProp ''name'' f = getProp ''name'' fc) (catalog S zs) = Some fn"
    and args: "args = getProp ''arguments'' fc"
    and p1: "getProp ''parameters'' fn \<noteq> JUndefined"
    and p2: "getProp ''parameters'' fn \<noteq> JNull"
    by blast
  from assms(3) args have rej: "safeParse X (getProp ''parameters'' fn) (getProp ''arguments'' fc) = Inl err"
    by simp
  show ?thesis
    using assms(1) t fc fn [unfolded catalog_def] p1 p2 rej
    by (simp add: callZodOutput.simps engine_simps args)
qed

lemma callZodOutput_subfunction_step:
  assumes "ready S" and "calledFunction X (catalog S zs) resp = Some (fn, args)"
    and "safeParse X (getProp ''parameters'' fn) args = Inr argument"
    and "getProp ''name'' fn \<noteq> JStr ''print''"
  shows "callZodOutput X (resp # script) msgs zs retries S =
     callZodOutput X script
       (msgs @ [AIMessage resp,
                FunctionMessage (if truthy (fnResponse_of X fn argument)
                                 then fnResponse_of X fn argument else JStr ''No response'')
                                (getProp ''name'' fn)])
       zs retries
       (patched
          (newId (answered X msgs zs
                    (Success (JObj [(''type'', JStr ''functionCall''), (''data'', argument)])) S))
          (responsePatch (Success (fnResponse_of X fn argument)))
          (traced (callingFunction fn argument)
             (answered X msgs zs
                (Success (JObj [(''type'', JStr ''functionCall''), (''data'', argument)])) S)))"
proof -
  from calledFunction_SomeD [OF assms(2)] obtain fc where
    t: "truthy (function_call resp)"
    and fc: "safeParse X (functionCallSchema X) (function_call resp) = Inr fc"
    and fn: "find (\<lambda>f. getProp ''name'' f = getProp ''name'' fc) (catalog S zs) = Some fn"
    and args: "args = getProp ''arguments'' fc"
    and p1: "getProp ''parameters'' fn \<noteq> JUndefined"
    and p2: "getProp ''parameters'' fn \<noteq> JNull"
    by blast
  from assms(3) args have ok: "safeParse X (getProp ''parameters'' fn) (getProp ''arguments'' fc) = Inr argument"
    by simp
  show ?thesis
    using assms(1) assms(4) t fc fn [unfolded catalog_def] p1 p2 ok
    by (simp add: callZodOutput.simps engine_simps fnResponse_of_def)
qed

lemma catalog_cong: "def S' = def S \<Longrightarrow> catalog S' zs = catalog S zs"
  by (simp add: catalog_def)

lemma argumentsRejected_SomeD:
  assumes "argumentsRejected X fns resp = Some err"
  shows "\<exists>fn args. calledFunction X fns resp = Some (fn, args)
            \<and> safeParse X (getProp ''parameters'' fn) args = Inl err"
  using assms
  by (auto simp: argumentsRejected_def split: option.splits sum.splits)

lemma timeout_facts:
  assumes "ready S"
  shows "ready (patched (newId S) (responsePatch TimeoutError) (answered X msgs zs r S))"
    and "def (patched (newId S) (responsePatch TimeoutError) (answered X msgs zs r S)) = def S"
    and "length (requests (patched (newId S) (responsePatch TimeoutError) (answered X msgs zs r S)))
         = Suc (length (requests S))"
    and "activeTrace (patched (newId S) (responsePatch TimeoutError) (answered X msgs zs r S)) \<noteq> []"
    and "last (activeTrace (patched (newId S) (responsePatch TimeoutError) (answered X msgs zs r S)))
         = (callingOpenAi X msgs)\<lparr>action_id := newId S, response := Some TimeoutError\<rparr>"
proof -
  have a: "ready (answered X msgs zs r S)"
    using assms by (rule answered_facts)
  show "ready (patched (newId S) (responsePatch TimeoutError) (answered X msgs zs r S))"
    using a by (rule patched_facts)
  show "def (patched (newId S) (responsePatch TimeoutError) (answered X msgs zs r S)) = def S"
    using patched_facts(2) [OF a] answered_facts(2) [OF assms] by simp
  show "length (requests (patched (newId S) (responsePatch TimeoutError) (answered X msgs zs r S)))
         = Suc (length (requests S))"
    using patched_facts(3) [OF a] answered_facts(3) [OF assms] by simp
  have t: "activeTrace (patched (newId S) (responsePatch TimeoutError) (answered X msgs zs r S))
           = map (\<lambda>t. if action_id t = newId S then mergeAction t (responsePatch TimeoutError) else t)
               (activeTrace (answered X msgs zs r S))"
    using a by (rule patched_facts)
  show "activeTrace (patched (newId S) (responsePatch TimeoutError) (answered X msgs zs r S)) \<noteq> []"
    unfolding t answered_facts(4) [OF assms] by simp
  show "last (activeTrace (patched (newId S) (responsePatch TimeoutError) (answered X msgs zs r S)))
         = (callingOpenAi X msgs)\<lparr>action_id := newId S, response := Some TimeoutError\<rparr>"
    unfolding t answered_facts(4) [OF assms] by (simp add: mergeAction_responsePatch)
qed

lemma answered_last:
  assumes "ready S"
  shows "activeTrace (answered X msgs zs r S) \<noteq> []"
    and "last (activeTrace (answered X msgs zs r S))
         = (callingOpenAi X msgs)\<lparr>action_id := newId S, response := Some r\<rparr>"
  unfolding answered_facts(4) [OF assms] by simp_all

lemma rejections_exhaust_budget:
  assumes "ready S" and "retries \<le> 4" and "5 - retries \<le> length script"
    and "\<forall>r\<in>set (take (5 - retries) script). argumentsRejected X (catalog S zs) r \<noteq> None"
  shows "\<exists>err S' msgs'.
           argumentsRejected X (catalog S zs) (script ! (4 - retries)) = Some err
         \<and> callZodOutput X script msgs zs retries S = Some (Inr (JStr err, msgs'), S')
         \<and> ready S' \<and> def S' = def S
         \<and> length (requests S') = length (requests S) + (5 - retries)
         \<and> activeTrace S' \<noteq> []
         \<and> action (last (activeTrace S')) = CallingOpenAi
         \<and> response (last (activeTrace S')) = Some TimeoutError"
  using assms
proof (induction "4 - retries" arbitrary: retries script msgs S)
  case 0
  then have r4: "retries = 4" by simp
  with 0 obtain r rest where script: "script = r # rest"
    by (cases script) simp_all
  with 0 r4 obtain err where err: "argumentsRejected X (catalog S zs) r = Some err"
    by auto
  from argumentsRejected_SomeD [OF err] obtain fn args where
    cf: "calledFunction X (catalog S zs) r = Some (fn, args)"
    and rej: "safeParse X (getProp ''parameters'' fn) args = Inl err"
    by blast
  have step: "callZodOutput X script msgs zs retries S =
      Some (Inr (JStr err, msgs @ [AIMessage r]),
            patched (newId S) (responsePatch TimeoutError) (answered X msgs zs (ZodError args err) S))"
    unfolding script using callZodOutput_rejected_step [OF "0.prems"(1) cf rej] r4 by simp
  show ?case
    using step err timeout_facts [OF "0.prems"(1), of X msgs zs "ZodError args err"] r4 script
    by (simp add: callingOpenAi_def)
next
  case (Suc n)
  then have r3: "retries \<le> 3" and n: "n = 4 - (retries + 1)" by simp_all
  from Suc.prems r3 obtain r rest where script: "script = r # rest"
    by (cases script) simp_all
  have tk: "take (5 - retries) script = r # take (5 - (retries + 1)) rest"
    using r3 script by (simp add: take_Cons')
  from Suc.prems(4) tk obtain err where err: "argumentsRejected X (catalog S zs) r = Some err"
    by auto
  from argumentsRejected_SomeD [OF err] obtain fn args where
    cf: "calledFunction X (catalog S zs) r = Some (fn, args)"
    and rej: "safeParse X (getProp ''parameters'' fn) args = Inl err"
    by blast
  let ?S1 = "answered X msgs zs (ZodError args err) S"
  let ?m1 = "msgs @ [AIMessage r, createValidationErrorFunctionMessage err]"
  have step: "callZodOutput X script msgs zs retries S =
      callZodOutput X rest ?m1 zs (retries + 1) ?S1"
    unfolding script using callZodOutput_rejected_step [OF Suc.prems(1) cf rej] r3 by simp
  have rdy: "ready ?S1" and d1: "def ?S1 = def S"
    and rq: "length (requests ?S1) = Suc (length (requests S))"
    using answered_facts [OF Suc.prems(1)] by simp_all
  have cat: "catalog ?S1 zs = catalog S zs"
    using d1 by (rule catalog_cong)
  have len: "5 - (retries + 1) \<le> length rest"
    using Suc.prems(3) script r3 by simp
  have all: "\<forall>x\<in>set (take (5 - (retries + 1)) rest). argumentsRejected X (catalog ?S1 zs) x \<noteq> None"
    using Suc.prems(4) tk cat by simp
  from Suc.hyps(1) [OF n rdy _ len all, of ?m1] r3
  obtain err' S' msgs' where
    e': "argumentsRejected X (catalog ?S1 zs) (rest ! (4 - (retries + 1))) = Some err'"
    and res: "callZodOutput X rest ?m1 zs (retries + 1) ?S1 = Some (Inr (JStr err', msgs'), S')"
    and rest: "ready S'" "def S' = def ?S1"
      "length (requests S') = length (requests ?S1) + (5 - (retries + 1))"
      "activeTrace S' \<noteq> []" "action (last (activeTrace S')) = CallingOpenAi"
      "response (last (activeTrace S')) = Some TimeoutError"
    by auto
  have idx: "script ! (4 - retries) = rest ! (4 - (retries + 1))"
    using r3 script by (simp add: nth_Cons')
  show ?case
    using e' res rest step cat d1 rq idx r3 by auto
qed

lemma rejections_need_all_attempts:
  assumes "ready S" and "length script < 5 - retries"
    and "\<forall>r\<in>set script. argumentsRejected X (catalog S zs) r \<noteq> None"
  shows "callZodOutput X script msgs zs retries S = None"
  using assms
proof (induction script arbitrary: retries msgs S)
  case Nil
  from Nil.prems(1) show ?case by (rule callZodOutput_empty)
next
  case (Cons r rest)
  then have r3: "retries \<le> 3" by simp
  from Cons.prems(3) obtain err where err: "argumentsRejected X (catalog S zs) r = Some err"
    by auto
  from argumentsRejected_SomeD [OF err] obtain fn args where
    cf: "calledFunction X (catalog S zs) r = Some (fn, args)"
    and rej: "safeParse X (getProp ''parameters'' fn) args = Inl err"
    by blast
  let ?S1 = "answered X msgs zs (ZodError args err) S"
  have step: "callZodOutput X (r # rest) msgs zs retries S =
      callZodOutput X rest (msgs @ [AIMessage r, createValidationErrorFunctionMessage err])
        zs (retries + 1) ?S1"
    using callZodOutput_rejected_step [OF Cons.prems(1) cf rej] r3 by simp
  have rdy: "ready ?S1" and d1: "def ?S1 = def S"
    using answered_facts [OF Cons.prems(1)] by simp_all
  have all: "\<forall>x\<in>set rest. argumentsRejected X (catalog ?S1 zs) x \<noteq> None"
    using Cons.prems(3) catalog_cong [OF d1] by simp
  have len: "length rest < 5 - (retries + 1)"
    using Cons.prems(2) by simp
  show ?case
    unfolding step by (rule Cons.IH [OF rdy len all])
qed

lemma toString_nonempty: "toString n \<noteq> []"
  by (subst toString.simps) simp

lemma digit_inj:
  assumes "a < 10" "b < 10" "''0123456789'' ! a = ''0123456789'' ! b"
  shows "a = b"
proof -
  have d: "distinct ''0123456789''" by simp
  have "length ''0123456789'' = 10" by simp
  with assms d show ?thesis
    by (metis nth_eq_iff_index_eq)
qed

lemma toString_inj: "toString n = toString m \<Longrightarrow> n = m"
proof (induction n arbitrary: m rule: toString.induct)
  case (1 n)
  show ?case
  proof (cases "n < 10")
    case True
    note n = this
    show ?thesis
    proof (cases "m < 10")
      case True
      with n 1(2) have "''0123456789'' ! n = ''0123456789'' ! m"
        by (simp add: toString.simps [of n] toString.simps [of m])
      with n True show ?thesis by (rule digit_inj)
    next
      case False
      with n 1(2) have "[''0123456789'' ! n] = toString (m div 10) @ [''0123456789'' ! (m mod 10)]"
        by (simp add: toString.simps [of n] toString.simps [of m])
      then have "toString (m div 10) = []" by simp
      with toString_nonempty show ?thesis by blast
    qed
  next
    case False
    note n = this
    show ?thesis
    proof (cases "m < 10")
      case True
      with n 1(2) have "toString (n div 10) @ [''0123456789'' ! (n mod 10)] = [''0123456789'' ! m]"
        by (simp add: toString.simps [of n] toString.simps [of m])
      then have "toString (n div 10) = []" by simp
      with toString_nonempty show ?thesis by blast
    next
      case False
      with n 1(2) have e: "toString (n div 10) @ [''0123456789'' ! (n mod 10)]
                            = toString (m div 10) @ [''0123456789'' ! (m mod 10)]"
        by (simp add: toString.simps [of n] toString.simps [of m])
      then have "toString (n div 10) = toString (m div 10)" by simp
      with 1(1) n have q: "n div 10 = m div 10" by blast
      from e have "''0123456789'' ! (n mod 10) = ''0123456789'' ! (m mod 10)" by simp
      then have r: "n mod 10 = m mod 10"
        by (intro digit_inj) simp_all
      from q r show ?thesis
        by (metis div_mult_mod_eq)
    qed
  qed
qed

lemma nanoids_traced:
  assumes "ready S"
  shows "nanoids (traced a S) = Suc (nanoids S)"
proof -
  from assms obtain ex where "execution S = Some ex"
    using ready_execution by blast
  then show ?thesis
    by (simp add: traced_def createTrace_def nanoid_def)
qed

lemma nanoids_patched:
  assumes "ready S"
  shows "nanoids (patched aid p S) = nanoids S"
proof -
  from assms obtain ex where "execution S = Some ex"
    using ready_execution by blast
  then show ?thesis
    by (simp add: patched_def updateTrace_def)
qed

lemma newId_fresh:
  assumes "issued S"
  shows "newId S \<notin> action_id ` set (activeTrace S)"
proof
  assume "newId S \<in> action_id ` set (activeTrace S)"
  then obtain t where t: "t \<in> set (activeTrace S)" and e: "action_id t = newId S"
    by auto
  from assms t obtain k where k: "k < nanoids S" and i: "action_id t = ''nanoid-'' @ toString k"
    unfolding issued_def by blast
  from e i have "toString k = toString (nanoids S)"
    by (simp add: newId_def nanoid_def)
  then have "k = nanoids S" by (rule toString_inj)
  with k show False by simp
qed

lemma answered_issued:
  assumes "ready S" and "issued S"
  shows "activeTrace (answered X msgs zs r S)
           = activeTrace S @ [(callingOpenAi X msgs)\<lparr>action_id := newId S, response := Some r\<rparr>]"
    and "issued (answered X msgs zs r S)"
proof -
  have m: "map (\<lambda>t. if action_id t = newId S then t\<lparr>response := Some r\<rparr> else t) (activeTrace S)
           = activeTrace S"
    by (rule map_idI) (use newId_fresh [OF assms(2)] in \<open>auto simp: image_iff\<close>)
  show a: "activeTrace (answered X msgs zs r S)
           = activeTrace S @ [(callingOpenAi X msgs)\<lparr>action_id := newId S, response := Some r\<rparr>]"
    unfolding answered_facts(4) [OF assms(1)] m ..
  have r1: "ready (traced (callingOpenAi X msgs) S)"
    using assms(1) by (rule traced_facts)
  have n: "nanoids (answered X msgs zs r S) = Suc (nanoids S)"
    using nanoids_patched [of "asked X msgs zs S" "newId S" "responsePatch r"]
      asked_facts(1) [OF assms(1), of X msgs zs] nanoids_traced [OF assms(1), of "callingOpenAi X msgs"]
    by (simp add: answered_def asked_def Let_def)
  show "issued (answered X msgs zs r S)"
    unfolding issued_def a n
  proof
    fix t
    assume "t \<in> set (activeTrace S @ [(callingOpenAi X msgs)\<lparr>action_id := newId S, response := Some r\<rparr>])"
    then consider "t \<in> set (activeTrace S)"
      | "t = (callingOpenAi X msgs)\<lparr>action_id := newId S, response := Some r\<rparr>"
      by auto
    then show "\<exists>k<Suc (nanoids S). action_id t = ''nanoid-'' @ toString k"
    proof cases
      case 1
      with assms(2) obtain k where "k < nanoids S" "action_id t = ''nanoid-'' @ toString k"
        unfolding issued_def by blast
      then show ?thesis
        using less_Suc_eq by blast
    next
      case 2
      then have "action_id t = ''nanoid-'' @ toString (nanoids S)"
        by (simp add: newId_def nanoid_def)
      then show ?thesis by blast
    qed
  qed
qed

lemma text_replies_prefix:
  assumes "ready S" and "issued S" and "\<forall>r\<in>set texts. \<not> truthy (function_call r)"
  shows "\<exists>S'. (\<forall>rest. callZodOutput X (texts @ rest) msgs zs retries S
                    = callZodOutput X rest (reprompted X zs msgs texts) zs (retries + length texts) S')
           \<and> ready S' \<and> issued S' \<and> def S' = def S
           \<and> length (requests S') = length (requests S) + length texts
           \<and> map response (activeTrace S')
               = map response (activeTrace S)
                 @ map (\<lambda>r. Some (ErrorResponse
                          (''No function call found, Got text instead: '' @ reply_text r))) texts"
  using assms
proof (induction texts arbitrary: msgs retries S)
  case Nil
  then show ?case
    by (intro exI [of _ S]) (simp add: reprompted_def)
next
  case (Cons r rest)
  then have t: "\<not> truthy (function_call r)" by simp
  let ?e = "ErrorResponse (''No function call found, Got text instead: '' @ reply_text r)"
  let ?S1 = "answered X msgs zs ?e S"
  let ?m1 = "msgs @ [AIMessage r, usePrintMessage X zs]"
  have rdy: "ready ?S1" and d1: "def ?S1 = def S"
    and rq: "length (requests ?S1) = Suc (length (requests S))"
    using answered_facts [OF Cons.prems(1)] by simp_all
  have tr: "activeTrace ?S1
       = activeTrace S @ [(callingOpenAi X msgs)\<lparr>action_id := newId S, response := Some ?e\<rparr>]"
    and iss: "issued ?S1"
    using answered_issued [OF Cons.prems(1,2)] by simp_all
  have all: "\<forall>x\<in>set rest. \<not> truthy (function_call x)"
    using Cons.prems(3) by simp
  from Cons.IH [OF rdy iss all, of ?m1 "retries + 1"] obtain S' where
    eq: "\<And>more. callZodOutput X (rest @ more) ?m1 zs (retries + 1) ?S1
                = callZodOutput X more (reprompted X zs ?m1 rest) zs (retries + 1 + length rest) S'"
    and f: "ready S'" "issued S'" "def S' = def ?S1"
      "length (requests S') = length (requests ?S1) + length rest"
      "map response (activeTrace S')
         = map response (activeTrace ?S1)
           @ map (\<lambda>r. Some (ErrorResponse
                    (''No function call found, Got text instead: '' @ reply_text r))) rest"
    by blast
  have rp: "reprompted X zs ?m1 rest = reprompted X zs msgs (r # rest)"
    by (simp add: reprompted_def)
  have step: "\<And>more. callZodOutput X ((r # rest) @ more) msgs zs retries S
                  = callZodOutput X more (reprompted X zs msgs (r # rest)) zs
                      (retries + length (r # rest)) S'"
    using callZodOutput_text_step [OF Cons.prems(1) t, of X _ msgs zs retries] eq rp
    by (simp add: add.commute add.left_commute)
  show ?case
    using step f(1,2) f(3) d1 f(4) rq f(5) tr
    by (intro exI [of _ S']) simp
qed

lemma callZodOutput_print_step:
  assumes "ready S" and "calledFunction X (catalog S zs) resp = Some (fn, args)"
    and "safeParse X (getProp ''parameters'' fn) args = Inr argument"
    and "getProp ''name'' fn = JStr ''print''"
    and "argument \<noteq> JUndefined" and "argument \<noteq> JNull"
  shows "callZodOutput X (resp # script) msgs zs retries S =
     Some (Inr (getProp ''argument'' argument,
                msgs @ [AIMessage resp, FunctionMessage (JStr ''Success'') (JStr ''print'')]),
           answered X msgs zs
             (Success (JObj [(''type'', JStr ''response''),
                             (''data'', getProp ''argument'' argument)])) S)"
proof -
  from calledFunction_SomeD [OF assms(2)] obtain fc where
    t: "truthy (function_call resp)"
    and fc: "safeParse X (functionCallSchema X) (function_call resp) = Inr fc"
    and fn: "find (\<lambda>f. getProp ''name'' f = getProp ''name'' fc) (catalog S zs) = Some fn"
    and args: "args = getProp ''arguments'' fc"
    and p1: "getProp ''parameters'' fn \<noteq> JUndefined"
    and p2: "getProp ''parameters'' fn \<noteq> JNull"
    by blast
  from assms(3) args have ok: "safeParse X (getProp ''parameters'' fn) (getProp ''arguments'' fc) = Inr argument"
    by simp
  show ?thesis
    using assms(1) assms(4-6) t fc fn [unfolded catalog_def] p1 p2 ok
    by (simp add: callZodOutput.simps engine_simps readProp_def)
qed

lemma text_replies_then_print:
  assumes "ready S" and "issued S" and "\<forall>r\<in>set texts. \<not> truthy (function_call r)"
    and "calledFunction X (catalog S zs) p = Some (fn, args)"
    and "safeParse X (getProp ''parameters'' fn) args = Inr argument"
    and "getProp ''name'' fn = JStr ''print''"
    and "argument \<noteq> JUndefined" and "argument \<noteq> JNull"
  shows "returned (callZodOutput X (texts @ p # script) msgs zs retries S)
           = Some (Inr (getProp ''argument'' argument))"
    and "returnedMessages (callZodOutput X (texts @ p # script) msgs zs retries S)
           = Some (reprompted X zs msgs texts
                   @ [AIMessage p, FunctionMessage (JStr ''Success'') (JStr ''print'')])"
    and "providerCalls (callZodOutput X (texts @ p # script) msgs zs retries S)
           = Some (length (requests S) + length texts + 1)"
    and "traceResponses (callZodOutput X (texts @ p # script) msgs zs retries S)
           = Some (map response (activeTrace S)
                   @ map (\<lambda>r. Some (ErrorResponse
                            (''No function call found, Got text instead: '' @ reply_text r))) texts
                   @ [Some (Success (JObj [(''type'', JStr ''response''),
                                           (''data'', getProp ''argument'' argument)]))])"
proof -
  from text_replies_prefix [OF assms(1-3), of X msgs zs retries] obtain S' where
    eq: "\<And>rest. callZodOutput X (texts @ rest) msgs zs retries S
                = callZodOutput X rest (reprompted X zs msgs texts) zs (retries + length texts) S'"
    and f: "ready S'" "issued S'" "def S' = def S"
      "length (requests S') = length (requests S) + length texts"
      "map response (activeTrace S')
         = map response (activeTrace S)
           @ map (\<lambda>r. Some (ErrorResponse
                    (''No function call found, Got text instead: '' @ reply_text r))) texts"
    by blast
  have cf: "calledFunction X (catalog S' zs) p = Some (fn, args)"
    using assms(4) catalog_cong [OF f(3)] by simp
  let ?ok = "Success (JObj [(''type'', JStr ''response''), (''data'', getProp ''argument'' argument)])"
  have res: "callZodOutput X (texts @ p # script) msgs zs retries S
      = Some (Inr (getProp ''argument'' argument,
                   reprompted X zs msgs texts
                   @ [AIMessage p, FunctionMessage (JStr ''Success'') (JStr ''print'')]),
              answered X (reprompted X zs msgs texts) zs ?ok S')"
    unfolding eq by (rule callZodOutput_print_step [OF f(1) cf assms(5-8)])
  show "returned (callZodOutput X (texts @ p # script) msgs zs retries S)
           = Some (Inr (getProp ''argument'' argument))"
    unfolding res by (simp add: returned_def)
  show "returnedMessages (callZodOutput X (texts @ p # script) msgs zs retries S)
           = Some (reprompted X zs msgs texts
                   @ [AIMessage p, FunctionMessage (JStr ''Success'') (JStr ''print'')])"
    unfolding res by (simp add: returnedMessages_def)
  show "providerCalls (callZodOutput X (texts @ p # script) msgs zs retries S)
           = Some (length (requests S) + length texts + 1)"
    unfolding res using answered_facts(3) [OF f(1)] f(4) by (simp add: providerCalls_def)
  show "traceResponses (callZodOutput X (texts @ p # script) msgs zs retries S)
           = Some (map response (activeTrace S)
                   @ map (\<lambda>r. Some (ErrorResponse
                            (''No function call found, Got text instead: '' @ reply_text r))) texts
                   @ [Some ?ok])"
    unfolding res using answered_issued(1) [OF f(1,2)] f(5) by (simp add: traceResponses_def)
qed

lemma text_replies_then_rejected:
  assumes "ready S" and "issued S" and "\<forall>r\<in>set texts. \<not> truthy (function_call r)"
    and "argumentsRejected X (catalog S zs) b = Some err"
  shows "3 < retries + length texts \<Longrightarrow>
           returned (callZodOutput X (texts @ b # script) msgs zs retries S) = Some (Inr (JStr err))
         \<and> lastAction (callZodOutput X (texts @ b # script) msgs zs retries S)
             = Some (CallingOpenAi, Some TimeoutError)
         \<and> providerCalls (callZodOutput X (texts @ b # script) msgs zs retries S)
             = Some (length (requests S) + length texts + 1)"
    and "retries + length texts \<le> 3 \<Longrightarrow>
           callZodOutput X (texts @ [b]) msgs zs retries S = None"
proof -
  from text_replies_prefix [OF assms(1-3), of X msgs zs retries] obtain S' where
    eq: "\<And>rest. callZodOutput X (texts @ rest) msgs zs retries S
                = callZodOutput X rest (reprompted X zs msgs texts) zs (retries + length texts) S'"
    and f: "ready S'" "issued S'" "def S' = def S"
      "length (requests S') = length (requests S) + length texts"
    by blast
  from argumentsRejected_SomeD [OF assms(4)] obtain fn args where
    cf0: "calledFunction X (catalog S zs) b = Some (fn, args)"
    and rej: "safeParse X (getProp ''parameters'' fn) args = Inl err"
    by blast
  have cf: "calledFunction X (catalog S' zs) b = Some (fn, args)"
    using cf0 catalog_cong [OF f(3)] by simp
  note step = callZodOutput_rejected_step [OF f(1) cf rej]
  {
    assume big: "3 < retries + length texts"
    have res: "callZodOutput X (texts @ b # script) msgs zs retries S
        = Some (Inr (JStr err, reprompted X zs msgs texts @ [AIMessage b]),
                patched (newId S') (responsePatch TimeoutError)
                  (answered X (reprompted X zs msgs texts) zs (ZodError args err) S'))"
      unfolding eq using step big by simp
    show "returned (callZodOutput X (texts @ b # script) msgs zs retries S) = Some (Inr (JStr err))
         \<and> lastAction (callZodOutput X (texts @ b # script) msgs zs retries S)
             = Some (CallingOpenAi, Some TimeoutError)
         \<and> providerCalls (callZodOutput X (texts @ b # script) msgs zs retries S)
             = Some (length (requests S) + length texts + 1)"
      unfolding res
      using timeout_facts [OF f(1), of X "reprompted X zs msgs texts" zs "ZodError args err"] f(4)
      by (simp add: returned_def lastAction_def providerCalls_def callingOpenAi_def)
  }
  {
    assume small: "retries + length texts \<le> 3"
    have "callZodOutput X (texts @ [b]) msgs zs retries S
        = callZodOutput X [] (reprompted X zs msgs texts
                              @ [AIMessage b, createValidationErrorFunctionMessage err]) zs
            (retries + length texts + 1)
            (answered X (reprompted X zs msgs texts) zs (ZodError args err) S')"
      unfolding eq using step small by simp
    also have "\<dots> = None"
      by (rule callZodOutput_empty) (rule answered_facts(1) [OF f(1)])
    finally show "callZodOutput X (texts @ [b]) msgs zs retries S = None" .
  }
qed

section \<open>Properties of the retriever\<close>

lemma only_text_never_returns:
  assumes "ready S" and "\<forall>r\<in>set replies. \<not> truthy (function_call r)"
  shows "callZodOutput X replies msgs zs retries S = None"
  using assms
proof (induction replies arbitrary: msgs retries S)
  case Nil
  from Nil.prems(1) show ?case by (rule callZodOutput_empty)
next
  case (Cons r rest)
  then have t: "\<not> truthy (function_call r)" by simp
  show ?case
    unfolding callZodOutput_text_step [OF Cons.prems(1) t]
    by (rule Cons.IH) (use Cons.prems answered_facts(1) in auto)
qed

lemma ready_started: "ready (started d)"
  by (simp add: started_def createExecution_def nanoid_def engine0_def ready_def
        activeRecords_def Let_def)

lemma def_started: "def (started d) = d"
  by (simp add: started_def createExecution_def nanoid_def engine0_def Let_def)

lemma requests_started: "requests (started d) = []"
  by (simp add: started_def createExecution_def nanoid_def engine0_def Let_def)

text \<open>
  C9. When the function-call envelope itself fails to parse, the Action gets a
  \<^verbatim>\<open>zod-error\<close> response carrying the raw \<^verbatim>\<open>function_call\<close> and the parse message. With
  a counter of at most 3 the retriever goes on with the counter raised by one and the
  validation message appended; with a counter above 3 the Action ends as
  \<^verbatim>\<open>timeout-error\<close> and the parse message is returned as the result.
\<close>

theorem envelope_failure_consumes_retry_budget:
  assumes "ready S" and "truthy (function_call resp)"
    and "safeParse X (functionCallSchema X) (function_call resp) = Inl err"
  shows "(retries \<le> 3 \<longrightarrow>
            callZodOutput X (resp # script) msgs zodSchema retries S =
              callZodOutput X script
                (msgs @ [AIMessage resp, createValidationErrorFunctionMessage err])
                zodSchema (retries + 1)
                (answered X msgs zodSchema (ZodError (function_call resp) err) S)
          \<and> last (activeTrace (answered X msgs zodSchema (ZodError (function_call resp) err) S))
              = (callingOpenAi X msgs)
                  \<lparr>action_id := newId S,
                   response := Some (ZodError (function_call resp) err)\<rparr>)
       \<and> (retries > 3 \<longrightarrow>
            returned (callZodOutput X (resp # script) msgs zodSchema retries S)
              = Some (Inr (JStr err))
          \<and> lastAction (callZodOutput X (resp # script) msgs zodSchema retries S)
              = Some (CallingOpenAi, Some TimeoutError)
          \<and> providerCalls (callZodOutput X (resp # script) msgs zodSchema retries S)
              = Some (Suc (length (requests S))))"
  using callZodOutput_envelope_step [OF assms, of script msgs zodSchema retries]
    answered_last(2) [OF assms(1), of X msgs zodSchema "ZodError (function_call resp) err"]
    timeout_facts [OF assms(1), of X msgs zodSchema "ZodError (function_call resp) err"]
  by (simp add: returned_def lastAction_def providerCalls_def callingOpenAi_def)

theorem envelope_failure_consumes_retry_budget_witness:
  "returned (callZodOutput X0 [badEnvelope] [] (z_string X0) 4 (started (createFn [])))
     = Some (Inr (JStr ''Expected string, received undefined''))
   \<and> lastAction (callZodOutput X0 [badEnvelope] [] (z_string X0) 4 (started (createFn [])))
     = Some (CallingOpenAi, Some TimeoutError)"
proof -
  have t: "truthy (function_call badEnvelope)"
    by (simp add: badEnvelope_def)
  have e: "safeParse X0 (functionCallSchema X0) (function_call badEnvelope)
             = Inl ''Expected string, received undefined''"
    by (simp add: badEnvelope_def X0_def obj_get_def)
  from envelope_failure_consumes_retry_budget
         [OF ready_started [of "createFn []"] t e,
          where script = "[]" and msgs = "[]" and zodSchema = "z_string X0" and retries = 4]
  show ?thesis
    by simp
qed

lemma catalog_print_only: "catalog (started (createFn [])) zs = [printFn_def zs]"
  by (simp add: catalog_def def_started createFn_def spread_def obj_get_def)

lemma catalog_lookup:
  "catalog (started (functions_m [JObj [(''def'', lookupDef)]] (createFn []))) zs
     = [lookupDef, printFn_def zs]"
  by (simp add: catalog_def def_started functions_m_def createFn_def spread_def obj_get_def)

lemma called_badPrint:
  "calledFunction X0 [printFn_def (z_string X0)] badPrint = Some (printFn_def (z_string X0), JObj [])"
  by (simp add: calledFunction_def badPrint_def X0_def printFn_def_def obj_get_def)

lemma rejected_badPrint:
  "argumentsRejected X0 [printFn_def (z_string X0)] badPrint = Some ''Required''"
  by (simp add: argumentsRejected_def called_badPrint)
     (simp add: X0_def printFn_def_def obj_get_def)

lemma called_badLookup:
  "calledFunction X0 [lookupDef, printFn_def zs] badLookup = Some (lookupDef, JObj [])"
  by (simp add: calledFunction_def badLookup_def X0_def lookupDef_def obj_get_def)

lemma rejected_badLookup:
  "argumentsRejected X0 [lookupDef, printFn_def zs] badLookup = Some ''Required''"
  by (simp add: argumentsRejected_def called_badLookup)
     (simp add: X0_def lookupDef_def obj_get_def)

lemma called_goodLookup:
  "calledFunction X0 [lookupDef, printFn_def zs] goodLookup
     = Some (lookupDef, JObj [(''argument'', JStr ''word'')])"
  by (simp add: calledFunction_def goodLookup_def X0_def lookupDef_def obj_get_def)

lemma activeTrace_started: "activeTrace (started d) = []"
  by (simp add: started_def createExecution_def nanoid_def engine0_def activeTrace_def
        activeRecords_def Let_def)

lemma issued_started: "issued (started d)"
  by (simp add: issued_def activeTrace_started)

lemma called_goodPrint:
  "calledFunction X0 [printFn_def (z_string X0)] goodPrint
     = Some (printFn_def (z_string X0), JObj [(''argument'', JStr ''done'')])"
  by (simp add: calledFunction_def goodPrint_def X0_def printFn_def_def obj_get_def)

lemma accepted_goodPrint:
  "safeParse X0 (getProp ''parameters'' (printFn_def (z_string X0)))
     (JObj [(''argument'', JStr ''done'')]) = Inr (JObj [(''argument'', JStr ''done'')])"
  "getProp ''name'' (printFn_def (z_string X0)) = JStr ''print''"
  by (simp_all add: X0_def printFn_def_def obj_get_def)

text \<open>
  C5. A reply that carries no function call does not end the retriever, whatever the
  counter is. When the replies \<open>texts\<close> are all of this kind, the retriever has not returned
  after them; and when a reply follows that calls \<^verbatim>\<open>print\<close> with accepted arguments, the
  retriever returns the printed value after one request per reply, the conversation
  returned holds every text reply followed by the corrective human message that restates
  the \<^verbatim>\<open>print\<close> schema, and the trace has gained one Action per text reply, left with the
  \<^verbatim>\<open>error\<close> response that quotes the reply's text, before the Action of the successful
  call. Each text reply has raised the retry counter by one: a reply with rejected
  arguments that follows them ends in \<^verbatim>\<open>timeout-error\<close> exactly when the counter at the
  start plus the number of text replies is above 3.
\<close>

theorem no_function_call_is_not_bounded:
  assumes "ready S" and "issued S" and "\<forall>r\<in>set texts. \<not> truthy (function_call r)"
  shows "callZodOutput X texts msgs zodSchema retries S = None
       \<and> (\<forall>p fn args argument.
            calledFunction X (catalog S zodSchema) p = Some (fn, args)
            \<and> safeParse X (getProp ''parameters'' fn) args = Inr argument
            \<and> getProp ''name'' fn = JStr ''print''
            \<and> argument \<noteq> JUndefined \<and> argument \<noteq> JNull
            \<longrightarrow> returned (callZodOutput X (texts @ p # script) msgs zodSchema retries S)
                  = Some (Inr (getProp ''argument'' argument))
              \<and> returnedMessages (callZodOutput X (texts @ p # script) msgs zodSchema retries S)
                  = Some (msgs
                          @ concat (map (\<lambda>r. [AIMessage r, usePrintMessage X zodSchema]) texts)
                          @ [AIMessage p, FunctionMessage (JStr ''Success'') (JStr ''print'')])
              \<and> providerCalls (callZodOutput X (texts @ p # script) msgs zodSchema retries S)
                  = Some (length (requests S) + length texts + 1)
              \<and> traceResponses (callZodOutput X (texts @ p # script) msgs zodSchema retries S)
                  = Some (map response (activeTrace S)
                          @ map (\<lambda>r. Some (ErrorResponse
                                   (''No function call found, Got text instead: '' @ reply_text r)))
                                texts
                          @ [Some (Success (JObj [(''type'', JStr ''response''),
                                                  (''data'', getProp ''argument'' argument)]))]))
       \<and> (\<forall>b err.
            argumentsRejected X (catalog S zodSchema) b = Some err
            \<longrightarrow> (3 < retries + length texts
                   \<longrightarrow> returned (callZodOutput X (texts @ b # script) msgs zodSchema retries S)
                         = Some (Inr (JStr err))
                     \<and> lastAction (callZodOutput X (texts @ b # script) msgs zodSchema retries S)
                         = Some (CallingOpenAi, Some TimeoutError)
                     \<and> providerCalls (callZodOutput X (texts @ b # script) msgs zodSchema retries S)
                         = Some (length (requests S) + length texts + 1))
              \<and> (retries + length texts \<le> 3
                   \<longrightarrow> callZodOutput X (texts @ [b]) msgs zodSchema retries S = None))"
proof (intro conjI allI impI)
  show "callZodOutput X texts msgs zodSchema retries S = None"
    using assms(1,3) by (rule only_text_never_returns)
next
  fix p fn args argument
  assume h: "calledFunction X (catalog S zodSchema) p = Some (fn, args)
            \<and> safeParse X (getProp ''parameters'' fn) args = Inr argument
            \<and> getProp ''name'' fn = JStr ''print''
            \<and> argument \<noteq> JUndefined \<and> argument \<noteq> JNull"
  note t = text_replies_then_print [OF assms, where X = X and zs = zodSchema and p = p and fn = fn
      and args = args and argument = argument and script = script and msgs = msgs
      and retries = retries]
  from h show "returned (callZodOutput X (texts @ p # script) msgs zodSchema retries S)
                  = Some (Inr (getProp ''argument'' argument))"
    by (intro t(1)) simp_all
  from h show "returnedMessages (callZodOutput X (texts @ p # script) msgs zodSchema retries S)
                  = Some (msgs
                          @ concat (map (\<lambda>r. [AIMessage r, usePrintMessage X zodSchema]) texts)
                          @ [AIMessage p, FunctionMessage (JStr ''Success'') (JStr ''print'')])"
    using t(2) by (simp add: reprompted_def)
  from h show "providerCalls (callZodOutput X (texts @ p # script) msgs zodSchema retries S)
                  = Some (length (requests S) + length texts + 1)"
    by (intro t(3)) simp_all
  from h show "traceResponses (callZodOutput X (texts @ p # script) msgs zodSchema retries S)
                  = Some (map response (activeTrace S)
                          @ map (\<lambda>r. Some (ErrorResponse
                                   (''No function call found, Got text instead: '' @ reply_text r)))
                                texts
                          @ [Some (Success (JObj [(''type'', JStr ''response''),
                                                  (''data'', getProp ''argument'' argument)]))])"
    by (intro t(4)) simp_all
next
  fix b err
  assume r: "argumentsRejected X (catalog S zodSchema) b = Some err"
  note t1 = text_replies_then_rejected(1) [OF assms r, where retries = retries and script = script
      and msgs = msgs]
  note t2 = text_replies_then_rejected(2) [OF assms r, where retries = retries and msgs = msgs]
  {
    assume big: "3 < retries + length texts"
    from t1 [OF big]
    show "returned (callZodOutput X (texts @ b # script) msgs zodSchema retries S)
                         = Some (Inr (JStr err))"
      and "lastAction (callZodOutput X (texts @ b # script) msgs zodSchema retries S)
                         = Some (CallingOpenAi, Some TimeoutError)"
      and "providerCalls (callZodOutput X (texts @ b # script) msgs zodSchema retries S)
                         = Some (length (requests S) + length texts + 1)"
      by simp_all
  }
  {
    assume "retries + length texts \<le> 3"
    then show "callZodOutput X (texts @ [b]) msgs zodSchema retries S = None"
      by (rule t2)
  }
qed


theorem no_function_call_is_not_bounded_witness:
  "returned (callZodOutput X0 [textReply, textReply, goodPrint] [] (z_string X0) 0
               (started (createFn [])))
     = Some (Inr (JStr ''done''))
   \<and> returnedMessages (callZodOutput X0 [textReply, textReply, goodPrint] [] (z_string X0) 0
                          (started (createFn [])))
     = Some [AIMessage textReply, usePrintMessage X0 (z_string X0),
             AIMessage textReply, usePrintMessage X0 (z_string X0),
             AIMessage goodPrint, FunctionMessage (JStr ''Success'') (JStr ''print'')]
   \<and> providerCalls (callZodOutput X0 [textReply, textReply, goodPrint] [] (z_string X0) 0
                       (started (createFn [])))
     = Some 3
   \<and> traceResponses (callZodOutput X0 [textReply, textReply, goodPrint] [] (z_string X0) 0
                        (started (createFn [])))
     = Some [Some (ErrorResponse ''No function call found, Got text instead: hello''),
             Some (ErrorResponse ''No function call found, Got text instead: hello''),
             Some (Success (JObj [(''type'', JStr ''response''), (''data'', JStr ''done'')]))]
   \<and> returned (callZodOutput X0 [textReply, textReply, textReply, textReply, badPrint] []
                 (z_string X0) 0 (started (createFn [])))
     = Some (Inr (JStr ''Required''))
   \<and> callZodOutput X0 [textReply, textReply, textReply, badPrint] [] (z_string X0) 0
        (started (createFn [])) = None"
proof -
  let ?S = "started (createFn [])"
  have t2: "\<forall>r\<in>set [textReply, textReply]. \<not> truthy (function_call r)"
    and t3: "\<forall>r\<in>set [textReply, textReply, textReply]. \<not> truthy (function_call r)"
    and t4: "\<forall>r\<in>set [textReply, textReply, textReply, textReply]. \<not> truthy (function_call r)"
    by (simp_all add: textReply_def)
  note w2 = no_function_call_is_not_bounded
         [OF ready_started issued_started t2,
          where X = X0 and msgs = "[]" and zodSchema = "z_string X0" and retries = 0
            and script = "[]"]
  note w3 = no_function_call_is_not_bounded
         [OF ready_started issued_started t3,
          where X = X0 and msgs = "[]" and zodSchema = "z_string X0" and retries = 0
            and script = "[]"]
  note w4 = no_function_call_is_not_bounded
         [OF ready_started issued_started t4,
          where X = X0 and msgs = "[]" and zodSchema = "z_string X0" and retries = 0
            and script = "[]"]
  have g: "calledFunction X0 (catalog ?S (z_string X0)) goodPrint
             = Some (printFn_def (z_string X0), JObj [(''argument'', JStr ''done'')])
           \<and> safeParse X0 (getProp ''parameters'' (printFn_def (z_string X0)))
                (JObj [(''argument'', JStr ''done'')]) = Inr (JObj [(''argument'', JStr ''done'')])
           \<and> getProp ''name'' (printFn_def (z_string X0)) = JStr ''print''
           \<and> JObj [(''argument'', JStr ''done'')] \<noteq> JUndefined
           \<and> JObj [(''argument'', JStr ''done'')] \<noteq> JNull"
    by (simp add: catalog_print_only called_goodPrint accepted_goodPrint)
  have b: "argumentsRejected X0 (catalog ?S (z_string X0)) badPrint = Some ''Required''"
    by (simp add: catalog_print_only rejected_badPrint)
  from w2 [THEN conjunct2, THEN conjunct1, rule_format, OF g]
  have a: "returned (callZodOutput X0 ([textReply, textReply] @ [goodPrint]) [] (z_string X0) 0 ?S)
             = Some (Inr (JStr ''done''))
         \<and> returnedMessages (callZodOutput X0 ([textReply, textReply] @ [goodPrint]) []
                                (z_string X0) 0 ?S)
             = Some [AIMessage textReply, usePrintMessage X0 (z_string X0),
                     AIMessage textReply, usePrintMessage X0 (z_string X0),
                     AIMessage goodPrint, FunctionMessage (JStr ''Success'') (JStr ''print'')]
         \<and> providerCalls (callZodOutput X0 ([textReply, textReply] @ [goodPrint]) []
                             (z_string X0) 0 ?S)
             = Some 3
         \<and> traceResponses (callZodOutput X0 ([textReply, textReply] @ [goodPrint]) []
                              (z_string X0) 0 ?S)
             = Some [Some (ErrorResponse ''No function call found, Got text instead: hello''),
                     Some (ErrorResponse ''No function call found, Got text instead: hello''),
                     Some (Success (JObj [(''type'', JStr ''response''), (''data'', JStr ''done'')]))]"
    by (simp add: requests_started activeTrace_started obj_get_def) (simp add: textReply_def)
  from w4 [THEN conjunct2, THEN conjunct2, rule_format, OF b]
  have c: "returned (callZodOutput X0 ([textReply, textReply, textReply, textReply] @ [badPrint]) []
                       (z_string X0) 0 ?S)
             = Some (Inr (JStr ''Required''))"
    by simp
  from w3 [THEN conjunct2, THEN conjunct2, rule_format, OF b]
  have d: "callZodOutput X0 ([textReply, textReply, textReply] @ [badPrint]) [] (z_string X0) 0 ?S
             = None"
    by simp
  from a c d show ?thesis
    by simp
qed

text \<open>
  C1. For every conversation and target schema: when each of the first five replies is a
  function call whose arguments fail the schema of the function it names, the retriever
  started with counter 0 returns after exactly five requests to the chat provider (with
  fewer than five of these replies it has not returned), the last Action of the trace is
  a \<^verbatim>\<open>calling-open-ai\<close> Action with response \<^verbatim>\<open>timeout-error\<close>, and the value returned is
  the validation message of the fifth reply.
\<close>

theorem schema_failures_time_out_after_five_attempts:
  assumes "ready S" and "5 \<le> length script"
    and "\<forall>r\<in>set (take 5 script). argumentsRejected X (catalog S zodSchema) r \<noteq> None"
  shows "\<exists>err. argumentsRejected X (catalog S zodSchema) (script ! 4) = Some err
           \<and> returned (callZodOutput X script msgs zodSchema 0 S) = Some (Inr (JStr err))
           \<and> lastAction (callZodOutput X script msgs zodSchema 0 S)
               = Some (CallingOpenAi, Some TimeoutError)
           \<and> providerCalls (callZodOutput X script msgs zodSchema 0 S)
               = Some (length (requests S) + 5)
           \<and> (\<forall>k<5. callZodOutput X (take k script) msgs zodSchema 0 S = None)"
proof -
  from rejections_exhaust_budget [of S 0 script X zodSchema msgs] assms
  obtain err S' msgs' where
    e: "argumentsRejected X (catalog S zodSchema) (script ! 4) = Some err"
    and r: "callZodOutput X script msgs zodSchema 0 S = Some (Inr (JStr err, msgs'), S')"
    and f: "length (requests S') = length (requests S) + 5" "activeTrace S' \<noteq> []"
      "action (last (activeTrace S')) = CallingOpenAi"
      "response (last (activeTrace S')) = Some TimeoutError"
    by auto
  have n: "\<forall>k<5. callZodOutput X (take k script) msgs zodSchema 0 S = None"
  proof (intro allI impI)
    fix k :: nat
    assume k: "k < 5"
    have len: "length (take k script) < 5 - 0"
      using k assms(2) by simp
    have "set (take k script) \<subseteq> set (take 5 script)"
      using k by (intro set_take_subset_set_take) simp
    with assms(3) have all: "\<forall>r\<in>set (take k script). argumentsRejected X (catalog S zodSchema) r \<noteq> None"
      by blast
    show "callZodOutput X (take k script) msgs zodSchema 0 S = None"
      by (rule rejections_need_all_attempts [OF assms(1) len all])
  qed
  from e r f n show ?thesis
    by (simp add: returned_def lastAction_def providerCalls_def)
qed

theorem schema_failures_time_out_after_five_attempts_witness:
  "returned (callZodOutput X0 [badPrint, badPrint, badPrint, badPrint, badPrint] []
               (z_string X0) 0 (started (createFn [])))
     = Some (Inr (JStr ''Required''))
   \<and> lastAction (callZodOutput X0 [badPrint, badPrint, badPrint, badPrint, badPrint] []
               (z_string X0) 0 (started (createFn [])))
     = Some (CallingOpenAi, Some TimeoutError)
   \<and> providerCalls (callZodOutput X0 [badPrint, badPrint, badPrint, badPrint, badPrint] []
               (z_string X0) 0 (started (createFn [])))
     = Some 5
   \<and> callZodOutput X0 [badPrint, badPrint, badPrint, badPrint] []
               (z_string X0) 0 (started (createFn [])) = None"
proof -
  have len: "5 \<le> length [badPrint, badPrint, badPrint, badPrint, badPrint]"
    by simp
  have all: "\<forall>r\<in>set (take 5 [badPrint, badPrint, badPrint, badPrint, badPrint]).
               argumentsRejected X0 (catalog (started (createFn [])) (z_string X0)) r \<noteq> None"
    by (simp add: catalog_print_only rejected_badPrint)
  note w = schema_failures_time_out_after_five_attempts
             [OF ready_started [of "createFn []"] len all, where msgs = "[]"]
  from w obtain err where
    e: "argumentsRejected X0 (catalog (started (createFn [])) (z_string X0))
          ([badPrint, badPrint, badPrint, badPrint, badPrint] ! 4) = Some err"
    and r: "returned (callZodOutput X0 [badPrint, badPrint, badPrint, badPrint, badPrint] []
               (z_string X0) 0 (started (createFn []))) = Some (Inr (JStr err))"
       "lastAction (callZodOutput X0 [badPrint, badPrint, badPrint, badPrint, badPrint] []
               (z_string X0) 0 (started (createFn []))) = Some (CallingOpenAi, Some TimeoutError)"
       "providerCalls (callZodOutput X0 [badPrint, badPrint, badPrint, badPrint, badPrint] []
               (z_string X0) 0 (started (createFn [])))
          = Some (length (requests (started (createFn []))) + 5)"
    and n: "\<forall>k<5. callZodOutput X0 (take k [badPrint, badPrint, badPrint, badPrint, badPrint]) []
               (z_string X0) 0 (started (createFn [])) = None"
    by blast
  from e have "err = ''Required''"
    by (simp add: catalog_print_only rejected_badPrint)
  moreover have "callZodOutput X0 [badPrint, badPrint, badPrint, badPrint] []
               (z_string X0) 0 (started (createFn [])) = None"
    using n [rule_format, of 4] by simp
  ultimately show ?thesis
    using r by (simp add: requests_started)
qed

text \<open>
  C6, as stated, fails: schema failures of a sub-function call raise the same counter.
  With the sub-function \<^verbatim>\<open>lookup\<close> declared, five replies that call \<^verbatim>\<open>lookup\<close> with
  arguments its schema rejects (and no call of \<^verbatim>\<open>print\<close> at all) end in \<^verbatim>\<open>timeout-error\<close>
  after five requests.
\<close>

theorem sub_function_failures_reach_timeout:
  "returned (callZodOutput X0 [badLookup, badLookup, badLookup, badLookup, badLookup] []
               (z_string X0) 0
               (started (functions_m [JObj [(''def'', lookupDef)]] (createFn []))))
     = Some (Inr (JStr ''Required''))
   \<and> lastAction (callZodOutput X0 [badLookup, badLookup, badLookup, badLookup, badLookup] []
               (z_string X0) 0
               (started (functions_m [JObj [(''def'', lookupDef)]] (createFn []))))
     = Some (CallingOpenAi, Some TimeoutError)
   \<and> providerCalls (callZodOutput X0 [badLookup, badLookup, badLookup, badLookup, badLookup] []
               (z_string X0) 0
               (started (functions_m [JObj [(''def'', lookupDef)]] (createFn []))))
     = Some 5"
proof -
  let ?S = "started (functions_m [JObj [(''def'', lookupDef)]] (createFn []))"
  let ?script = "[badLookup, badLookup, badLookup, badLookup, badLookup]"
  have all: "\<forall>r\<in>set (take (5 - 0) ?script).
               argumentsRejected X0 (catalog ?S (z_string X0)) r \<noteq> None"
    by (simp add: catalog_lookup rejected_badLookup)
  from rejections_exhaust_budget [OF ready_started _ _ all, of "[]"]
  obtain err S' msgs' where
    e: "argumentsRejected X0 (catalog ?S (z_string X0)) (?script ! (4 - 0)) = Some err"
    and r: "callZodOutput X0 ?script [] (z_string X0) 0 ?S = Some (Inr (JStr err, msgs'), S')"
    and f: "length (requests S') = length (requests ?S) + (5 - 0)" "activeTrace S' \<noteq> []"
      "action (last (activeTrace S')) = CallingOpenAi"
      "response (last (activeTrace S')) = Some TimeoutError"
    by auto
  from e have "err = ''Required''"
    by (simp add: catalog_lookup rejected_badLookup)
  with r f show ?thesis
    by (simp add: returned_def lastAction_def providerCalls_def requests_started)
qed

text \<open>
  C6, amended. A call of a user sub-function with valid arguments makes the retriever go
  on with the counter unchanged. A call of any function of the catalog, a sub-function or
  \<^verbatim>\<open>print\<close>, whose arguments fail its parameter schema raises the counter by one while it
  is at most 3, and ends in \<^verbatim>\<open>timeout-error\<close>, returning the validation message, once it
  is above 3.
\<close>

theorem validation_failure_of_any_function_consumes_budget:
  assumes "ready S" and "calledFunction X (catalog S zodSchema) resp = Some (fn, args)"
  shows "(\<forall>argument.
            safeParse X (getProp ''parameters'' fn) args = Inr argument
            \<and> getProp ''name'' fn \<noteq> JStr ''print''
            \<longrightarrow> callZodOutput X (resp # script) msgs zodSchema retries S =
                callZodOutput X script
                  (msgs @ [AIMessage resp,
                           FunctionMessage (if truthy (fnResponse_of X fn argument)
                                            then fnResponse_of X fn argument
                                            else JStr ''No response'')
                                           (getProp ''name'' fn)])
                  zodSchema retries
                  (patched
                     (newId (answered X msgs zodSchema
                        (Success (JObj [(''type'', JStr ''functionCall''), (''data'', argument)])) S))
                     (responsePatch (Success (fnResponse_of X fn argument)))
                     (traced (callingFunction fn argument)
                        (answered X msgs zodSchema
                           (Success (JObj [(''type'', JStr ''functionCall''),
                                           (''data'', argument)])) S))))
       \<and> (\<forall>err.
            safeParse X (getProp ''parameters'' fn) args = Inl err
            \<longrightarrow> (retries \<le> 3 \<longrightarrow>
                   callZodOutput X (resp # script) msgs zodSchema retries S =
                     callZodOutput X script
                       (msgs @ [AIMessage resp, createValidationErrorFunctionMessage err])
                       zodSchema (retries + 1)
                       (answered X msgs zodSchema (ZodError args err) S))
              \<and> (retries > 3 \<longrightarrow>
                   returned (callZodOutput X (resp # script) msgs zodSchema retries S)
                     = Some (Inr (JStr err))
                 \<and> lastAction (callZodOutput X (resp # script) msgs zodSchema retries S)
                     = Some (CallingOpenAi, Some TimeoutError)))"
proof (intro conjI allI impI)
  fix argument
  assume "safeParse X (getProp ''parameters'' fn) args = Inr argument
            \<and> getProp ''name'' fn \<noteq> JStr ''print''"
  then show "callZodOutput X (resp # script) msgs zodSchema retries S =
                callZodOutput X script
                  (msgs @ [AIMessage resp,
                           FunctionMessage (if truthy (fnResponse_of X fn argument)
                                            then fnResponse_of X fn argument
                                            else JStr ''No response'')
                                           (getProp ''name'' fn)])
                  zodSchema retries
                  (patched
                     (newId (answered X msgs zodSchema
                        (Success (JObj [(''type'', JStr ''functionCall''), (''data'', argument)])) S))
                     (responsePatch (Success (fnResponse_of X fn argument)))
                     (traced (callingFunction fn argument)
                        (answered X msgs zodSchema
                           (Success (JObj [(''type'', JStr ''functionCall''),
                                           (''data'', argument)])) S)))"
    using callZodOutput_subfunction_step [OF assms] by blast
next
  fix err
  assume e: "safeParse X (getProp ''parameters'' fn) args = Inl err" and "retries \<le> 3"
  then show "callZodOutput X (resp # script) msgs zodSchema retries S =
                     callZodOutput X script
                       (msgs @ [AIMessage resp, createValidationErrorFunctionMessage err])
                       zodSchema (retries + 1)
                       (answered X msgs zodSchema (ZodError args err) S)"
    using callZodOutput_rejected_step [OF assms e, of script msgs retries] by simp
next
  fix err
  assume e: "safeParse X (getProp ''parameters'' fn) args = Inl err" and r: "retries > 3"
  then show "returned (callZodOutput X (resp # script) msgs zodSchema retries S)
                     = Some (Inr (JStr err))"
    using callZodOutput_rejected_step [OF assms e, of script msgs retries]
    by (simp add: returned_def)
next
  fix err
  assume e: "safeParse X (getProp ''parameters'' fn) args = Inl err" and r: "retries > 3"
  then show "lastAction (callZodOutput X (resp # script) msgs zodSchema retries S)
                     = Some (CallingOpenAi, Some TimeoutError)"
    using callZodOutput_rejected_step [OF assms e, of script msgs retries]
      timeout_facts [OF assms(1), of X msgs zodSchema "ZodError args err"]
    by (simp add: lastAction_def callingOpenAi_def)
qed

theorem validation_failure_of_any_function_consumes_budget_witness:
  "callZodOutput X0 [goodLookup, badLookup] [] (z_string X0) 3
     (started (functions_m [JObj [(''def'', lookupDef)]] (createFn []))) = None
   \<and> returned (callZodOutput X0 [badLookup] [] (z_string X0) 4
        (started (functions_m [JObj [(''def'', lookupDef)]] (createFn []))))
       = Some (Inr (JStr ''Required''))
   \<and> lastAction (callZodOutput X0 [badLookup] [] (z_string X0) 4
        (started (functions_m [JObj [(''def'', lookupDef)]] (createFn []))))
       = Some (CallingOpenAi, Some TimeoutError)"
proof -
  let ?S = "started (functions_m [JObj [(''def'', lookupDef)]] (createFn []))"
  let ?zs = "z_string X0"
  have rdy: "ready ?S" by (rule ready_started)
  have good: "calledFunction X0 (catalog ?S ?zs) goodLookup
                = Some (lookupDef, JObj [(''argument'', JStr ''word'')])"
    by (simp add: catalog_lookup called_goodLookup)
  have bad: "calledFunction X0 (catalog ?S ?zs) badLookup = Some (lookupDef, JObj [])"
    by (simp add: catalog_lookup called_badLookup)
  have ok: "safeParse X0 (getProp ''parameters'' lookupDef) (JObj [(''argument'', JStr ''word'')])
              = Inr (JObj [(''argument'', JStr ''word'')])
            \<and> getProp ''name'' lookupDef \<noteq> JStr ''print''"
    by (simp add: X0_def lookupDef_def obj_get_def)
  have rej: "safeParse X0 (getProp ''parameters'' lookupDef) (JObj []) = Inl ''Required''"
    by (simp add: X0_def lookupDef_def obj_get_def)
  let ?A = "answered X0 [] ?zs
              (Success (JObj [(''type'', JStr ''functionCall''),
                              (''data'', JObj [(''argument'', JStr ''word'')])])) ?S"
  let ?S2 = "patched (newId ?A)
               (responsePatch (Success (fnResponse_of X0 lookupDef (JObj [(''argument'', JStr ''word'')]))))
               (traced (callingFunction lookupDef (JObj [(''argument'', JStr ''word'')])) ?A)"
  note g = validation_failure_of_any_function_consumes_budget
             [OF rdy good, where script = "[badLookup]" and msgs = "[]" and retries = 3]
  from g ok have step:
    "callZodOutput X0 [goodLookup, badLookup] [] ?zs 3 ?S =
       callZodOutput X0 [badLookup]
         ([] @ [AIMessage goodLookup,
                FunctionMessage
                  (if truthy (fnResponse_of X0 lookupDef (JObj [(''argument'', JStr ''word'')]))
                   then fnResponse_of X0 lookupDef (JObj [(''argument'', JStr ''word'')])
                   else JStr ''No response'')
                  (getProp ''name'' lookupDef)])
         ?zs 3 ?S2"
    by blast
  have rA: "ready ?A" and dA: "def ?A = def ?S"
    using answered_facts [OF rdy] by simp_all
  have rT: "ready (traced (callingFunction lookupDef (JObj [(''argument'', JStr ''word'')])) ?A)"
    and dT: "def (traced (callingFunction lookupDef (JObj [(''argument'', JStr ''word'')])) ?A) = def ?A"
    using traced_facts [OF rA] by simp_all
  have r2: "ready ?S2" and d2: "def ?S2 = def ?S"
    using patched_facts [OF rT] dT dA by simp_all
  have all: "\<forall>r\<in>set [badLookup]. argumentsRejected X0 (catalog ?S2 ?zs) r \<noteq> None"
    using catalog_cong [OF d2] by (simp add: catalog_lookup rejected_badLookup)
  have none: "callZodOutput X0 [badLookup]
         ([] @ [AIMessage goodLookup,
                FunctionMessage
                  (if truthy (fnResponse_of X0 lookupDef (JObj [(''argument'', JStr ''word'')]))
                   then fnResponse_of X0 lookupDef (JObj [(''argument'', JStr ''word'')])
                   else JStr ''No response'')
                  (getProp ''name'' lookupDef)])
         ?zs 3 ?S2 = None"
    by (rule rejections_need_all_attempts [OF r2 _ all]) simp
  note b = validation_failure_of_any_function_consumes_budget
             [OF rdy bad, where script = "[]" and msgs = "[]" and retries = 4]
  from b rej have
    "returned (callZodOutput X0 [badLookup] [] ?zs 4 ?S) = Some (Inr (JStr ''Required''))
     \<and> lastAction (callZodOutput X0 [badLookup] [] ?zs 4 ?S)
         = Some (CallingOpenAi, Some TimeoutError)"
    by simp
  with step none show ?thesis
    by simp
qed

text \<open>
  C10. With an Execution active and an id that no Action of the active sub-record's trace
  has, \<^verbatim>\<open>updateTrace\<close> throws nothing and leaves the Execution, hence every Action of
  every sub-record, as it was; the observer callback, when one was given, is still called
  with that unchanged Execution.
\<close>

theorem updateTrace_unknown_id_changes_nothing:
  assumes "execution S = Some ex"
    and "\<forall>e\<in>set (functionsExecuted ex).
           functionExecutionId e = activeFunctionExecutionId S
           \<longrightarrow> aid \<notin> action_id ` set (trace e)"
  shows "updateTrace aid p S =
           (Inr (), S\<lparr>observed := observed S @ (if onExecutionUpdate S then [ex] else [])\<rparr>)"
proof -
  have t: "map (\<lambda>t. if action_id t = aid then mergeAction t p else t) (trace e) = trace e"
    if "e \<in> set (functionsExecuted ex)"
      and "functionExecutionId e = activeFunctionExecutionId S" for e
    using assms(2) that by (intro map_idI) auto
  have "map (\<lambda>e. if functionExecutionId e = activeFunctionExecutionId S
                  then e\<lparr>trace := map (\<lambda>t. if action_id t = aid then mergeAction t p else t)
                                     (trace e)\<rparr>
                  else e) (functionsExecuted ex) = functionsExecuted ex"
    by (intro map_idI) (simp add: t)
  then show ?thesis
    using assms(1) by (simp add: updateTrace_def notify_def)
qed

section \<open>Properties of the engine\<close>

lemma createExecution_ready:
  "ready (snd (createExecution arg eid S))"
  "def (snd (createExecution arg eid S)) = def S"
  "requests (snd (createExecution arg eid S)) = requests S"
  by (simp_all add: createExecution_def nanoid_def ready_def activeRecords_def Let_def
        split: option.splits prod.splits)

lemma createDocumentTraces_ready:
  assumes "ready S"
  shows "\<exists>ids S'. createDocumentTraces ds S = (Inr ids, S') \<and> ready S' \<and> def S' = def S
           \<and> requests S' = requests S"
  using assms
proof (induction ds arbitrary: S)
  case Nil
  then show ?case by simp
next
  case (Cons d ds)
  let ?a = "\<lparr> action_id = [], action = GetDocument, functionDef = None,
               input = Some d, messages = None, response = Some Loading \<rparr>"
  have r1: "ready (traced ?a S)"
    using Cons.prems by (rule traced_facts)
  from Cons.IH [OF r1] obtain ids S' where
    i: "createDocumentTraces ds (traced ?a S) = (Inr ids, S')"
    and f: "ready S'" "def S' = def (traced ?a S)" "requests S' = requests (traced ?a S)"
    by blast
  show ?case
    using i f traced_facts(2,3) [OF Cons.prems, of ?a]
    by (simp add: createTrace_eq [OF Cons.prems])
qed

lemma resolveDocuments_ready:
  assumes "ready S"
  shows "\<exists>ts S'. resolveDocuments X ds e u S = (Inr ts, S') \<and> ready S' \<and> def S' = def S
           \<and> requests S' = requests S"
  using assms
proof (induction ds arbitrary: S)
  case Nil
  then show ?case by simp
next
  case (Cons d ds)
  obtain aid doc where d: "d = (aid, doc)" by (cases d)
  let ?p = "responsePatch (Success (splitDocument X doc e u))"
  have r1: "ready (patched aid ?p S)"
    using Cons.prems by (rule patched_facts)
  from Cons.IH [OF r1] obtain ts S' where
    i: "resolveDocuments X ds e u (patched aid ?p S) = (Inr ts, S')"
    and f: "ready S'" "def S' = def (patched aid ?p S)" "requests S' = requests (patched aid ?p S)"
    by blast
  show ?case
    using i f patched_facts(2,3) [OF Cons.prems, of aid ?p]
    by (simp add: d Let_def updateTrace_eq [OF Cons.prems])
qed

lemma resolveExecution_ready:
  assumes "ready S"
  shows "\<exists>ex S'. resolveExecution final tr S = (Inr ex, S')
           \<and> execution S' = Some ex \<and> finalResponse ex = Some final
           \<and> requests S' = requests S \<and> def S' = def S"
proof -
  from assms obtain ex0 where "execution S = Some ex0"
    using ready_execution by blast
  then show ?thesis
    by (simp add: resolveExecution_def Let_def)
qed


lemma def_engine0: "def (engine0 d) = d" "requests (engine0 d) = []"
  by (simp_all add: engine0_def)

lemma createFn_empty_fields:
  "obj_get ''output'' (createFn []) = JUndefined"
  "obj_get ''instructions'' (createFn []) = JUndefined"
  by (simp_all add: createFn_def spread_def obj_get_def)

lemma interpolateFString_examples:
  "interpolateFString X ''Generate items starting with {letter}'' (JObj [(''letter'', JStr ''A'')])
     = Inr ''Generate items starting with A''"
  "interpolateFString X0 ''Hello {name}'' (JObj []) = Inl (Error ''Missing value for input name'')"
  "interpolateFString X0 ''{constructor}'' (JObj [])
     = Inr ''function Object() { [native code] }''"
  "interpolateFString X ''{x}'' (JStr ''abc'') = Inl (TypeError ''Cannot use 'in' operator'')"
  "interpolateFString X ''{{}} {x}'' (JObj [(''x'', JStr ''1'')]) = Inr ''{} 1''"
  by (simp_all add: interpolateFString_def parseFString_def parseFString_from.simps X0_def
        objectPrototypeText_def)

lemma String_of_array:
  "String_of (JArr [JNull, JNum ''1'', JUndefined, JArr [JStr ''a'', JNull]]) = '',1,,a,''"
  by simp

lemma quietly_ready: "quietly i arg S0 S \<Longrightarrow> ready S"
  by (auto simp: quietly_def running_def ready_def activeRecords_def)

lemma calm_snoc: "calm arg tr \<Longrightarrow> action a \<noteq> CallingOpenAi \<Longrightarrow> calm arg (tr @ [a])"
  by (auto simp: calm_def)

lemma calm_patch:
  assumes "calm arg tr"
  shows "calm arg (map (\<lambda>t. if action_id t = aid then mergeAction t (responsePatch r) else t) tr)"
proof -
  let ?f = "\<lambda>t. if action_id t = aid then mergeAction t (responsePatch r) else t"
  have a: "\<And>t. action (?f t) = action t" and i: "\<And>t. input (?f t) = input t"
    by (simp_all add: mergeAction_responsePatch)
  from assms have ne: "tr \<noteq> []" by (simp add: calm_def)
  then have hd: "hd (map ?f tr) = ?f (hd tr)" by (simp add: hd_map)
  have "map action (map ?f tr) = map action tr"
    by (induction tr) (simp_all add: mergeAction_responsePatch)
  then have "set (map action (map ?f tr)) = set (map action tr)" by simp
  then have im: "action ` set (map ?f tr) = action ` set tr"
    by (simp only: set_map)
  from assms show ?thesis
    unfolding calm_def hd im using ne a i by simp
qed

lemma createExecution_running:
  "running (fst (createExecution arg eid S)) arg [] (snd (createExecution arg eid S))"
  "onExecutionUpdate (snd (createExecution arg eid S)) = onExecutionUpdate S"
  "now (snd (createExecution arg eid S)) = now S"
  "observed (snd (createExecution arg eid S)) = observed S"
  by (simp_all add: createExecution_def nanoid_def running_def Let_def
        split: option.splits prod.splits)

lemma traced_running:
  assumes "running i arg tr S"
  shows "running i arg (tr @ [a\<lparr>action_id := newId S\<rparr>]) (traced a S)"
    and "onExecutionUpdate (traced a S) = onExecutionUpdate S"
    and "now (traced a S) = now S"
    and "activeFunctionExecutionId (traced a S) = activeFunctionExecutionId S"
  using assms
  by (simp_all add: running_def traced_def createTrace_def nanoid_def newId_def notify_def Let_def)

lemma patched_running:
  assumes "running i arg tr S"
  shows "running i arg (map (\<lambda>t. if action_id t = aid then mergeAction t p else t) tr)
           (patched aid p S)"
    and "onExecutionUpdate (patched aid p S) = onExecutionUpdate S"
    and "now (patched aid p S) = now S"
    and "activeFunctionExecutionId (patched aid p S) = activeFunctionExecutionId S"
  using assms
  by (simp_all add: running_def patched_def updateTrace_def notify_def Let_def)

lemma quietly_traced:
  assumes "quietly i arg S0 S" and "action a \<noteq> CallingOpenAi"
  shows "quietly i arg S0 (traced a S)"
    and "activeFunctionExecutionId (traced a S) = activeFunctionExecutionId S"
proof -
  from assms(1) obtain tr where r: "running i arg tr S" and c: "calm arg tr"
    and f: "requests S = requests S0" "def S = def S0"
      "onExecutionUpdate S = onExecutionUpdate S0" "now S = now S0"
    unfolding quietly_def by blast
  have rdy: "ready S" using assms(1) by (rule quietly_ready)
  have c': "calm arg (tr @ [a\<lparr>action_id := newId S\<rparr>])"
    using c assms(2) by (intro calm_snoc) simp_all
  show "quietly i arg S0 (traced a S)"
    unfolding quietly_def
    using traced_running [OF r, of a] c' f traced_facts(2,3) [OF rdy, of a]
    by (intro exI [of _ "tr @ [a\<lparr>action_id := newId S\<rparr>]"]) simp
  show "activeFunctionExecutionId (traced a S) = activeFunctionExecutionId S"
    using r by (rule traced_running)
qed

lemma quietly_patched:
  assumes "quietly i arg S0 S"
  shows "quietly i arg S0 (patched aid (responsePatch r) S)"
    and "activeFunctionExecutionId (patched aid (responsePatch r) S) = activeFunctionExecutionId S"
proof -
  from assms(1) obtain tr where r: "running i arg tr S" and c: "calm arg tr"
    and f: "requests S = requests S0" "def S = def S0"
      "onExecutionUpdate S = onExecutionUpdate S0" "now S = now S0"
    unfolding quietly_def by blast
  have rdy: "ready S" using assms(1) by (rule quietly_ready)
  let ?tr = "map (\<lambda>t. if action_id t = aid then mergeAction t (responsePatch r) else t) tr"
  have c': "calm arg ?tr"
    using c by (rule calm_patch)
  show "quietly i arg S0 (patched aid (responsePatch r) S)"
    unfolding quietly_def
    using patched_running [OF r, of aid "responsePatch r"] c' f
      patched_facts(2,3) [OF rdy, of aid "responsePatch r"]
    by (intro exI [of _ ?tr]) simp
  show "activeFunctionExecutionId (patched aid (responsePatch r) S) = activeFunctionExecutionId S"
    using r by (rule patched_running)
qed

lemma createDocumentTraces_quietly:
  assumes "quietly i arg S0 S"
  shows "\<exists>ids S'. createDocumentTraces ds S = (Inr ids, S') \<and> quietly i arg S0 S'
           \<and> activeFunctionExecutionId S' = activeFunctionExecutionId S"
  using assms
proof (induction ds arbitrary: S)
  case Nil
  then show ?case by simp
next
  case (Cons d ds)
  let ?a = "\<lparr> action_id = [], action = GetDocument, functionDef = None,
               input = Some d, messages = None, response = Some Loading \<rparr>"
  have q1: "quietly i arg S0 (traced ?a S)"
    and a1: "activeFunctionExecutionId (traced ?a S) = activeFunctionExecutionId S"
    using quietly_traced [OF Cons.prems, of ?a] by simp_all
  from Cons.IH [OF q1] obtain ids S' where
    i: "createDocumentTraces ds (traced ?a S) = (Inr ids, S')"
    and f: "quietly i arg S0 S'"
      "activeFunctionExecutionId S' = activeFunctionExecutionId (traced ?a S)"
    by blast
  show ?case
    using i f a1 by (simp add: createTrace_eq [OF quietly_ready [OF Cons.prems]])
qed

lemma resolveDocuments_quietly:
  assumes "quietly i arg S0 S"
  shows "\<exists>ts S'. resolveDocuments X ds e u S = (Inr ts, S') \<and> quietly i arg S0 S'
           \<and> activeFunctionExecutionId S' = activeFunctionExecutionId S"
  using assms
proof (induction ds arbitrary: S)
  case Nil
  then show ?case by simp
next
  case (Cons d ds)
  obtain aid doc where d: "d = (aid, doc)" by (cases d)
  let ?r = "Success (splitDocument X doc e u)"
  have q1: "quietly i arg S0 (patched aid (responsePatch ?r) S)"
    and a1: "activeFunctionExecutionId (patched aid (responsePatch ?r) S) = activeFunctionExecutionId S"
    using quietly_patched [OF Cons.prems, of aid ?r] by simp_all
  from Cons.IH [OF q1] obtain ts S' where
    i: "resolveDocuments X ds e u (patched aid (responsePatch ?r) S) = (Inr ts, S')"
    and f: "quietly i arg S0 S'"
      "activeFunctionExecutionId S' = activeFunctionExecutionId (patched aid (responsePatch ?r) S)"
    by blast
  show ?case
    using i f a1 by (simp add: d Let_def updateTrace_eq [OF quietly_ready [OF Cons.prems]])
qed

lemma run_start_quietly:
  assumes "arg \<noteq> JUndefined" and "arg \<noteq> JNull"
  shows "\<exists>pending S1. run_start arg eid S = (Inr (fst (createExecution arg eid S), pending), S1)
           \<and> quietly (fst (createExecution arg eid S)) arg S S1
           \<and> activeFunctionExecutionId S1
               = activeFunctionExecutionId (snd (createExecution arg eid S))"
proof -
  obtain e1 S1 where ce: "createExecution arg eid S = (e1, S1)"
    by (cases "createExecution arg eid S")
  have r1: "running e1 arg [] S1"
    and o1: "onExecutionUpdate S1 = onExecutionUpdate S" "now S1 = now S"
    using createExecution_running [of arg eid S] ce by simp_all
  have s1: "ready S1" "def S1 = def S" "requests S1 = requests S"
    using createExecution_ready [of arg eid S] ce by simp_all
  let ?a = "\<lparr> action_id = [], action = ExecutingFunction,
               functionDef = Some (JObj (def S1)), input = Some arg,
               messages = None, response = None \<rparr>"
  have ct: "createTrace ?a S1 = (Inr (newId S1), traced ?a S1)"
    using s1(1) by (rule createTrace_eq)
  have q2: "quietly e1 arg S (traced ?a S1)"
    unfolding quietly_def
    using traced_running [OF r1, of ?a] traced_facts(2,3) [OF s1(1), of ?a] s1 o1
    by (intro exI [of _ "[?a\<lparr>action_id := newId S1\<rparr>]"]) (simp add: calm_def)
  have a2: "activeFunctionExecutionId (traced ?a S1) = activeFunctionExecutionId S1"
    using r1 by (rule traced_running)
  let ?q = "\<lparr> action_id = [], action = Query, functionDef = None,
               input = Some (getProp ''query'' arg), messages = None,
               response = Some Loading \<rparr>"
  have q3: "quietly e1 arg S (traced ?q (traced ?a S1))"
    and a3: "activeFunctionExecutionId (traced ?q (traced ?a S1)) = activeFunctionExecutionId S1"
    using quietly_traced [OF q2, of ?q] a2 by simp_all
  show ?thesis
    using ce assms ct q2 a2 q3 a3 createTrace_eq [OF quietly_ready [OF q2], of ?q]
    by (simp add: run_start_def getQueryDoc_begin_def)
qed

lemma resolveExecution_running:
  assumes "running i arg tr S"
  shows "resolveExecution final [] S =
     (Inr \<lparr> execution_id = i, createdAt = now S,
            functionsExecuted =
              [\<lparr> functionExecutionId = activeFunctionExecutionId S, inputs = arg, trace = tr,
                 fe_finalResponse = Some final, fe_functionDef = def S \<rparr>],
            finalResponse = Some final, verified = None \<rparr>,
      notify (S\<lparr>execution := Some
        \<lparr> execution_id = i, createdAt = now S,
          functionsExecuted =
            [\<lparr> functionExecutionId = activeFunctionExecutionId S, inputs = arg, trace = tr,
               fe_finalResponse = Some final, fe_functionDef = def S \<rparr>],
          finalResponse = Some final, verified = None \<rparr>\<rparr>))"
  using assms by (simp add: resolveExecution_def running_def Let_def)

lemma run_resume_quietly:
  assumes "quietly i arg S0 S"
    and "\<not> truthy (obj_get ''output'' (def S0))"
    and "\<not> truthy (obj_get ''instructions'' (def S0))"
  shows "\<exists>ex S' tr.
           run_resume X script arg (e, pending) S = Some (Inr ex, S')
         \<and> ex = \<lparr> execution_id = i, createdAt = now S0,
                  functionsExecuted =
                    [\<lparr> functionExecutionId = activeFunctionExecutionId S, inputs = arg,
                       trace = tr, fe_finalResponse = Some JUndefined,
                       fe_functionDef = def S0 \<rparr>],
                  finalResponse = Some JUndefined, verified = None \<rparr>
         \<and> calm arg tr
         \<and> execution S' = Some ex \<and> requests S' = requests S0 \<and> def S' = def S0
         \<and> activeFunctionExecutionId S' = activeFunctionExecutionId S
         \<and> (onExecutionUpdate S0 \<longrightarrow> observed S' \<noteq> [] \<and> last (observed S') = ex)"
proof -
  have "\<exists>qd S3. getQueryDoc_end X (getProp ''query'' arg) pending S = (Inr qd, S3)
          \<and> quietly i arg S0 S3 \<and> activeFunctionExecutionId S3 = activeFunctionExecutionId S"
  proof (cases pending)
    case None
    with assms(1) show ?thesis by (simp add: getQueryDoc_end_def)
  next
    case (Some aid)
    show ?thesis
      using quietly_patched [OF assms(1), of aid]
      by (simp add: Some getQueryDoc_end_def Let_def updateTrace_eq [OF quietly_ready [OF assms(1)]])
  qed
  then obtain qd S3 where
    gq: "getQueryDoc_end X (getProp ''query'' arg) pending S = (Inr qd, S3)"
    and q3: "quietly i arg S0 S3" and a3: "activeFunctionExecutionId S3 = activeFunctionExecutionId S"
    by blast
  have d3: "def S3 = def S0" using q3 by (auto simp: quietly_def)
  let ?docs = "map (\<lambda>(d, i). JObj (AList.update ''input'' (elementAt (getProp ''documents'' arg) i)
                                   (ownProps d)))
                 (zip (orEmpty (obj_get ''documents'' (def S3)))
                      [0 ..< length (orEmpty (obj_get ''documents'' (def S3)))])"
  from createDocumentTraces_quietly [OF q3, of ?docs] obtain ids S4 where
    cd: "createDocumentTraces ?docs S3 = (Inr ids, S4)"
    and q4: "quietly i arg S0 S4" and a4: "activeFunctionExecutionId S4 = activeFunctionExecutionId S3"
    by blast
  have tail: "\<exists>ex S' tr.
           run_resume X script arg (e, pending) S = Some (Inr ex, S')
         \<and> ex = \<lparr> execution_id = i, createdAt = now S0,
                  functionsExecuted =
                    [\<lparr> functionExecutionId = activeFunctionExecutionId S, inputs = arg,
                       trace = tr, fe_finalResponse = Some JUndefined,
                       fe_functionDef = def S0 \<rparr>],
                  finalResponse = Some JUndefined, verified = None \<rparr>
         \<and> calm arg tr
         \<and> execution S' = Some ex \<and> requests S' = requests S0 \<and> def S' = def S0
         \<and> activeFunctionExecutionId S' = activeFunctionExecutionId S
         \<and> (onExecutionUpdate S0 \<longrightarrow> observed S' \<noteq> [] \<and> last (observed S') = ex)"
    if u: "u = (if truthy (getProp ''instructions'' arg)
                then getProp ''instructions'' arg else JStr [])" for u
  proof -
    from resolveDocuments_quietly [OF q4, of X "zip ids ?docs" e u] obtain ts S5 where
      rd: "resolveDocuments X (zip ids ?docs) e u S4 = (Inr ts, S5)"
      and q5: "quietly i arg S0 S5" and a5: "activeFunctionExecutionId S5 = activeFunctionExecutionId S4"
      by blast
    from q5 obtain tr where r5: "running i arg tr S5" and c5: "calm arg tr"
      and f5: "requests S5 = requests S0" "def S5 = def S0"
        "onExecutionUpdate S5 = onExecutionUpdate S0" "now S5 = now S0"
      unfolding quietly_def by blast
    have r: "run_resume X script arg (e, pending) S = Some (resolveExecution JUndefined [] S5)"
    proof (cases "truthy (getProp ''instructions'' arg)")
      case True
      with u have "u = getProp ''instructions'' arg" by simp
      with True assms(2,3) gq cd rd d3 f5 show ?thesis
        by (simp add: run_resume_def Let_def)
    next
      case False
      with u have "u = JStr []" by simp
      with False assms(2,3) gq cd rd d3 f5 show ?thesis
        by (simp add: run_resume_def Let_def)
    qed
    let ?ex = "\<lparr> execution_id = i, createdAt = now S5,
                  functionsExecuted =
                    [\<lparr> functionExecutionId = activeFunctionExecutionId S5, inputs = arg,
                       trace = tr, fe_finalResponse = Some JUndefined,
                       fe_functionDef = def S5 \<rparr>],
                  finalResponse = Some JUndefined, verified = None \<rparr>"
    show ?thesis
      unfolding r resolveExecution_running [OF r5]
      using c5 f5 a3 a4 a5
      by (intro exI [of _ ?ex] exI [of _ "notify (S5\<lparr>execution := Some ?ex\<rparr>)"] exI [of _ tr])
         (simp add: notify_def)
  qed
  show ?thesis
    by (rule tail) simp
qed

lemma run_short_circuit:
  assumes "\<not> truthy (obj_get ''output'' (def S))"
    and "\<not> truthy (obj_get ''instructions'' (def S))"
    and "arg \<noteq> JUndefined" and "arg \<noteq> JNull"
  shows "\<exists>ex S' tr.
           run X script arg eid S = Some (Inr ex, S')
         \<and> ex = \<lparr> execution_id = fst (createExecution arg eid S), createdAt = now S,
                  functionsExecuted =
                    [\<lparr> functionExecutionId = activeFunctionExecutionId S', inputs = arg,
                       trace = tr, fe_finalResponse = Some JUndefined,
                       fe_functionDef = def S \<rparr>],
                  finalResponse = Some JUndefined, verified = None \<rparr>
         \<and> calm arg tr
         \<and> execution S' = Some ex \<and> requests S' = requests S \<and> def S' = def S
         \<and> (onExecutionUpdate S \<longrightarrow> observed S' \<noteq> [] \<and> last (observed S') = ex)"
proof -
  let ?i = "fst (createExecution arg eid S)"
  from run_start_quietly [OF assms(3,4), of eid S] obtain pending S1 where
    st: "run_start arg eid S = (Inr (?i, pending), S1)"
    and q: "quietly ?i arg S S1"
    by blast
  from run_resume_quietly [OF q assms(1,2), of X script ?i pending] obtain ex S' tr where
    rr: "run_resume X script arg (?i, pending) S1 = Some (Inr ex, S')"
    and f: "ex = \<lparr> execution_id = ?i, createdAt = now S,
                  functionsExecuted =
                    [\<lparr> functionExecutionId = activeFunctionExecutionId S1, inputs = arg,
                       trace = tr, fe_finalResponse = Some JUndefined,
                       fe_functionDef = def S \<rparr>],
                  finalResponse = Some JUndefined, verified = None \<rparr>"
      "calm arg tr" "execution S' = Some ex" "requests S' = requests S" "def S' = def S"
      "activeFunctionExecutionId S' = activeFunctionExecutionId S1"
      "onExecutionUpdate S \<longrightarrow> observed S' \<noteq> [] \<and> last (observed S') = ex"
    by blast
  have "run X script arg eid S = Some (Inr ex, S')"
    using st rr by (simp add: run_def)
  with f show ?thesis
    by (intro exI [of _ ex] exI [of _ S'] exI [of _ tr]) simp
qed

lemma run_m_no_map_steps:
  assumes "run X script arg eid S = Some (Inr ex, S')" and "def S' = def S"
    and "mapFnsOf (def S) = Inr []"
  shows "run_m depth X script arg eid S = Some (Inr ex, S')"
  using assms by (simp add: run_m.simps)

text \<open>
  C7, amended. On a Definition that declares neither an output schema nor an instruction
  template (both are falsy), the \<^verbatim>\<open>run\<close> closure, called with an arguments object,
  resolves the Execution it created for this call (the id given or drawn, one sub-record
  with these arguments, whose trace begins with the \<^verbatim>\<open>executing-function\<close> Action and has
  no \<^verbatim>\<open>calling-open-ai\<close> Action) with the final response \<^verbatim>\<open>undefined\<close>, hands it to the
  observer last, and sends no request to the chat provider, whatever the provider would
  reply. When the Definition declares no map step either, this Execution is what the
  builder's \<^verbatim>\<open>run\<close> method returns.
\<close>

theorem run_without_output_and_instructions:
  assumes "\<not> truthy (obj_get ''output'' (def S))"
    and "\<not> truthy (obj_get ''instructions'' (def S))"
    and "arg \<noteq> JUndefined" and "arg \<noteq> JNull"
  shows "\<exists>ex S' tr.
           run X script arg eid S = Some (Inr ex, S')
         \<and> (mapFnsOf (def S) = Inr []
              \<longrightarrow> run_m depth X script arg eid S = Some (Inr ex, S'))
         \<and> ex = \<lparr> execution_id = fst (createExecution arg eid S), createdAt = now S,
                  functionsExecuted =
                    [\<lparr> functionExecutionId = activeFunctionExecutionId S', inputs = arg,
                       trace = tr, fe_finalResponse = Some JUndefined,
                       fe_functionDef = def S \<rparr>],
                  finalResponse = Some JUndefined, verified = None \<rparr>
         \<and> tr \<noteq> [] \<and> action (hd tr) = ExecutingFunction \<and> input (hd tr) = Some arg
         \<and> CallingOpenAi \<notin> action ` set tr
         \<and> execution S' = Some ex \<and> requests S' = requests S
         \<and> (onExecutionUpdate S \<longrightarrow> observed S' \<noteq> [] \<and> last (observed S') = ex)"
proof -
  from run_short_circuit [OF assms, of X script eid] obtain ex S' tr where
    r: "run X script arg eid S = Some (Inr ex, S')"
    and f: "ex = \<lparr> execution_id = fst (createExecution arg eid S), createdAt = now S,
                  functionsExecuted =
                    [\<lparr> functionExecutionId = activeFunctionExecutionId S', inputs = arg,
                       trace = tr, fe_finalResponse = Some JUndefined,
                       fe_functionDef = def S \<rparr>],
                  finalResponse = Some JUndefined, verified = None \<rparr>"
      "calm arg tr" "execution S' = Some ex" "requests S' = requests S"
      "onExecutionUpdate S \<longrightarrow> observed S' \<noteq> [] \<and> last (observed S') = ex"
    and d: "def S' = def S"
    by blast
  have m: "mapFnsOf (def S) = Inr [] \<longrightarrow> run_m depth X script arg eid S = Some (Inr ex, S')"
    using run_m_no_map_steps [OF r d] by simp
  from r m f show ?thesis
    by (intro exI [of _ ex] exI [of _ S'] exI [of _ tr]) (simp add: calm_def)
qed

lemma createFn_empty_mapFns: "mapFnsOf (createFn []) = Inr []"
  by (simp add: mapFnsOf_def createFn_def spread_def obj_get_def)

lemma engine0_fields:
  "onExecutionUpdate (engine0 d) = True" "observed (engine0 d) = []" "now (engine0 d) = 0"
  by (simp_all add: engine0_def)

theorem run_without_output_and_instructions_witness:
  "\<exists>ex S'. run_m 0 X0 [] (JObj []) None (engine0 (createFn [])) = Some (Inr ex, S')
     \<and> execution_id ex = ''nanoid-0''
     \<and> map inputs (functionsExecuted ex) = [JObj []]
     \<and> map fe_finalResponse (functionsExecuted ex) = [Some JUndefined]
     \<and> finalResponse ex = Some JUndefined
     \<and> last (observed S') = ex
     \<and> requests S' = []"
proof -
  have i: "fst (createExecution (JObj []) None (engine0 (createFn []))) = ''nanoid-0''"
    by (simp add: createExecution_def nanoid_def engine0_def Let_def toString.simps)
  from run_without_output_and_instructions
          [of "engine0 (createFn [])" "JObj []" X0 "[]" None 0]
  obtain ex S' tr where
    r: "run_m 0 X0 [] (JObj []) None (engine0 (createFn [])) = Some (Inr ex, S')"
    and e: "ex = \<lparr> execution_id = ''nanoid-0'', createdAt = 0,
                  functionsExecuted =
                    [\<lparr> functionExecutionId = activeFunctionExecutionId S', inputs = JObj [],
                       trace = tr, fe_finalResponse = Some JUndefined,
                       fe_functionDef = createFn [] \<rparr>],
                  finalResponse = Some JUndefined, verified = None \<rparr>"
    and o: "last (observed S') = ex" "requests S' = []"
    by (simp add: def_engine0 createFn_empty_fields createFn_empty_mapFns engine0_fields i) blast
  show ?thesis
    using r o by (intro exI [of _ ex] exI [of _ S']) (simp add: e)
qed






lemma later_resolved:
  assumes "ready S"
  shows "\<exists>ex S'. resolveExecution final [] S = (Inr ex, S') \<and> finalResponse ex = Some final
           \<and> later S S'"
proof -
  from assms obtain ex where ex: "execution S = Some ex"
    using ready_execution by blast
  from assms ex obtain e0 where
    e0: "filter (\<lambda>e. functionExecutionId e = activeFunctionExecutionId S) (functionsExecuted ex) = [e0]"
    by (auto simp: ready_def activeRecords_def length_Suc_conv)
  from e0 have a0: "functionExecutionId e0 = activeFunctionExecutionId S"
    by (rule filter_singleton)
  have ar: "activeRecords (snd (resolveExecution final [] S))
              = [e0\<lparr>trace := trace e0 @ [], fe_finalResponse := Some final\<rparr>]"
    using ex e0 a0
    by (simp add: resolveExecution_def activeRecords_def filter_active_map Let_def)
  then have r: "ready (snd (resolveExecution final [] S))"
    by (simp add: ready_def)
  have o: "set (observed S) \<subseteq> set (observed (snd (resolveExecution final [] S)))"
    "onExecutionUpdate (snd (resolveExecution final [] S)) = onExecutionUpdate S"
    "nanoids (snd (resolveExecution final [] S)) = nanoids S"
    "def (snd (resolveExecution final [] S)) = def S"
    "requests (snd (resolveExecution final [] S)) = requests S"
    using ex by (auto simp: resolveExecution_def notify_def Let_def)
  obtain ex' S' where res: "resolveExecution final [] S = (ex', S')"
    by (cases "resolveExecution final [] S")
  with ex obtain x where x: "ex' = Inr x" "finalResponse x = Some final"
    by (auto simp: resolveExecution_def Let_def)
  show ?thesis
    using res x r o by (simp add: later_def)
qed

















lemma greeter_def_fields:
  "obj_get ''output'' (instructions ''Say hi'' (createFn [])) = JUndefined"
  "obj_get ''instructions'' (instructions ''Say hi'' (createFn [])) = JStr ''Say hi''"
  "obj_get ''documents'' (instructions ''Say hi'' (createFn [])) = JUndefined"
  "obj_get ''functions'' (instructions ''Say hi'' (createFn [])) = JUndefined"
  "mapFnsOf (instructions ''Say hi'' (createFn [])) = Inr []"
  by (simp_all add: instructions_def createFn_def spread_def obj_get_def mapFnsOf_def)

lemma interpolate_Say_hi: "interpolateFString X ''Say hi'' v = Inr ''Say hi''"
  by (simp add: interpolateFString_def parseFString_def parseFString_from.simps)

lemma greeter_runs:
  assumes "def S = instructions ''Say hi'' (createFn [])"
  shows "\<exists>ex S'. run X0 (goodPrint # script) (JObj []) eid S = Some (Inr ex, S')
           \<and> finalResponse ex = Some (JStr ''done'')
           \<and> length (requests S') = Suc (length (requests S)) \<and> def S' = def S"
proof -
  let ?i = "fst (createExecution (JObj []) eid S)"
  from run_start_quietly [of "JObj []" eid S] obtain pending S1 where
    st: "run_start (JObj []) eid S = (Inr (?i, pending), S1)"
    and q: "quietly ?i (JObj []) S S1"
    by auto
  have p: "pending = None"
    using st by (auto simp: run_start_def getQueryDoc_begin_def obj_get_def Let_def
                      split: prod.splits sum.splits if_splits)
  have r1: "ready S1" using q by (rule quietly_ready)
  have d1: "def S1 = def S" and rq1: "requests S1 = requests S"
    using q by (auto simp: quietly_def)
  let ?msgs = "[SystemMessage
                  (''Use the DOCUMENT to answer user prompts.'' @ [CHR 0x0A] @
                   ''Once you have the answer, use the print function. '' @
                   ''Always call one of the provided functions''),
                HumanMessage (JStr ''Say hi'')]"
  have cat: "catalog S1 (z_string X0) = [printFn_def (z_string X0)]"
    using d1 assms by (simp add: catalog_def greeter_def_fields)
  have cf: "calledFunction X0 (catalog S1 (z_string X0)) goodPrint
              = Some (printFn_def (z_string X0), JObj [(''argument'', JStr ''done'')])"
    unfolding cat by (rule called_goodPrint)
  note ps = callZodOutput_print_step [OF r1 cf accepted_goodPrint(1) accepted_goodPrint(2),
              of script ?msgs 0]
  let ?S2 = "answered X0 ?msgs (z_string X0)
               (Success (JObj [(''type'', JStr ''response''), (''data'', JStr ''done'')])) S1"
  have cz: "callZodOutput X0 (goodPrint # script) ?msgs (z_string X0) 0 S1
              = Some (Inr (JStr ''done'',
                           ?msgs @ [AIMessage goodPrint,
                                    FunctionMessage (JStr ''Success'') (JStr ''print'')]), ?S2)"
    using ps by (simp add: obj_get_def)
  have r2: "ready ?S2" and d2: "def ?S2 = def S1"
    and rq2: "length (requests ?S2) = Suc (length (requests S1))"
    using answered_facts [OF r1] by simp_all
  have og: "\<And>k. obj_get k [] = JUndefined"
    by (simp add: obj_get_def)
  have d1': "def S1 = instructions ''Say hi'' (createFn [])"
    using d1 assms by simp
  have rr: "run_resume X0 (goodPrint # script) (JObj []) (?i, pending) S1
              = Some (resolveExecution (JStr ''done'') [] ?S2)"
    using cz
    by (simp add: run_resume_def p getQueryDoc_end_def d1' greeter_def_fields interpolate_Say_hi
          og Let_def)
  from later_resolved [OF r2, of "JStr ''done''"] obtain ex S' where
    re: "resolveExecution (JStr ''done'') [] ?S2 = (Inr ex, S')"
    and f: "finalResponse ex = Some (JStr ''done'')" "later ?S2 S'"
    by blast
  have "run X0 (goodPrint # script) (JObj []) eid S = Some (Inr ex, S')"
    using st rr re by (simp add: run_def)
  moreover have "length (requests S') = Suc (length (requests S))" "def S' = def S"
    using f(2) rq2 rq1 d2 d1 by (simp_all add: later_def)
  ultimately show ?thesis
    using f(1) by blast
qed

lemma chainedDef_fields:
  "obj_get ''output'' chainedDef = JUndefined"
  "obj_get ''instructions'' chainedDef = JUndefined"
  "mapFnsOf chainedDef = Inr [greeter]"
  by (simp_all add: chainedDef_def map_m_def createFn_def spread_def obj_get_def mapFnsOf_def)

lemma chained_run:
  "resolvedWith (run_m 1 X0 [goodPrint] (JObj []) None (engine0 chainedDef))
     = Some (Some (JStr ''done''))"
  "requestsSent (run_m 1 X0 [goodPrint] (JObj []) None (engine0 chainedDef)) = Some 1"
proof -
  let ?S = "engine0 chainedDef"
  from run_short_circuit [of ?S "JObj []" X0 "[goodPrint]" None] chainedDef_fields
  obtain ex S1 tr where r: "run X0 [goodPrint] (JObj []) None ?S = Some (Inr ex, S1)"
    and x: "ex = \<lparr> execution_id = fst (createExecution (JObj []) None ?S), createdAt = now ?S,
                    functionsExecuted =
                      [\<lparr> functionExecutionId = activeFunctionExecutionId S1, inputs = JObj [],
                         trace = tr, fe_finalResponse = Some JUndefined,
                         fe_functionDef = def ?S \<rparr>],
                    finalResponse = Some JUndefined, verified = None \<rparr>"
    and e: "execution S1 = Some ex" and rq: "requests S1 = requests ?S"
    and d: "def S1 = def ?S"
    by (auto simp: def_engine0)
  have r1: "ready S1"
    using e x by (simp add: ready_def activeRecords_def)
  let ?a = "\<lparr> action_id = [], action = ExecutingFunction,
               functionDef = Some (JObj (instructions ''Say hi'' (createFn []))),
               input = Some JUndefined, messages = None, response = None \<rparr>"
  let ?S2 = "traced ?a S1"
  have ct: "createTrace ?a S1 = (Inr (newId S1), ?S2)"
    using r1 by (rule createTrace_eq)
  have rq2: "requests ?S2 = []" and d2: "def ?S2 = chainedDef"
    using traced_facts(2,3) [OF r1, of ?a] rq d by (simp_all add: def_engine0)
  let ?N0 = "inner (JObj (instructions ''Say hi'' (createFn []))) ?S2"
  have dn: "def ?N0 = instructions ''Say hi'' (createFn [])"
    by (simp add: inner_def instructions_def createFn_def spread_def)
  have rn: "requests ?N0 = []"
    using rq2 by (simp add: inner_def)
  from greeter_runs [OF dn, of "[]" "map_option execution_id (execution ?S2)"]
  obtain p N where
    n: "run X0 [goodPrint] (JObj []) (map_option execution_id (execution ?S2)) ?N0
          = Some (Inr p, N)"
    and f: "finalResponse p = Some (JStr ''done'')" "length (requests N) = Suc (length (requests ?N0))"
      "def N = def ?N0"
    by blast
  have nm: "run_m 0 X0 [goodPrint] (JObj []) (map_option execution_id (execution ?S2)) ?N0
              = Some (Inr p, N)"
    using n f(3) dn by (simp add: run_m.simps greeter_def_fields)
  have g: "safeParseAiFn greeter = greeter" "truthy greeter"
    "getProp ''__internal_def'' greeter = JObj (instructions ''Say hi'' (createFn []))"
    by (simp_all add: safeParseAiFn_def parseAiFn_def greeter_def obj_get_def)
  have fo: "finalOf ex = JUndefined"
    by (simp add: finalOf_def x)
  have res: "run_m 1 X0 [goodPrint] (JObj []) None ?S = Some (Inr p, outer ?S2 N)"
    using r ct nm
    by (simp add: run_m.simps [of "Suc 0"] d rq def_engine0 chainedDef_fields unanswered_def g fo
          Let_def)
  show "resolvedWith (run_m 1 X0 [goodPrint] (JObj []) None (engine0 chainedDef))
          = Some (Some (JStr ''done''))"
    unfolding res using f(1) by (simp add: resolvedWith_def)
  show "requestsSent (run_m 1 X0 [goodPrint] (JObj []) None (engine0 chainedDef)) = Some 1"
    unfolding res using f(2) rn by (simp add: requestsSent_def outer_def)
qed

text \<open>
  C7, as stated, fails for the \<^verbatim>\<open>run\<close> a caller invokes, the builder's method. On a
  Definition that declares neither an output schema nor an instruction template but one
  map step, the Execution comes back with that step's value as its final response, not
  \<^verbatim>\<open>undefined\<close>; and when the map step is an AI function whose own Definition declares
  instructions, a request is sent to the chat provider.
\<close>

theorem mapped_run_has_a_final_response:
  "obj_get ''output'' mappedDef = JUndefined
   \<and> obj_get ''instructions'' mappedDef = JUndefined
   \<and> resolvedWith (run_m 0 X0 [] (JObj []) None (engine0 mappedDef)) = Some (Some (JStr ''mapped''))
   \<and> obj_get ''output'' chainedDef = JUndefined
   \<and> obj_get ''instructions'' chainedDef = JUndefined
   \<and> resolvedWith (run_m 1 X0 [goodPrint] (JObj []) None (engine0 chainedDef))
       = Some (Some (JStr ''done''))
   \<and> requestsSent (run_m 1 X0 [goodPrint] (JObj []) None (engine0 chainedDef)) = Some 1"
proof -
  have d: "obj_get ''output'' mappedDef = JUndefined"
    "obj_get ''instructions'' mappedDef = JUndefined"
    "mapFnsOf mappedDef = Inr [JFun 7 []]"
    by (simp_all add: mappedDef_def map_m_def createFn_def spread_def obj_get_def mapFnsOf_def)
  from run_short_circuit [of "engine0 mappedDef" "JObj []" X0 "[]" None] d
  obtain ex S' where r: "run X0 [] (JObj []) None (engine0 mappedDef) = Some (Inr ex, S')"
    and e: "execution S' = Some ex" and d': "def S' = mappedDef"
    by (auto simp: def_engine0)
  have "resolvedWith (run_m 0 X0 [] (JObj []) None (engine0 mappedDef)) = Some (Some (JStr ''mapped''))"
    using r e d' d(3)
    by (simp add: run_m.simps safeParseAiFn_def parseAiFn_def obj_get_def resolveExecution_def
          resolvedWith_def X0_def Let_def)
  with d chainedDef_fields(1,2) chained_run show ?thesis by simp
qed


lemma pendingEngine_execution: "execution pendingEngine = Some pendingExecution"
  by (simp add: pendingEngine_def traced_def createTrace_def started_def createExecution_def
        nanoid_def engine0_def notify_def callingOpenAi_def pendingExecution_def Let_def
        toString.simps)

lemma pendingEngine_fields:
  "activeFunctionExecutionId pendingEngine = ''nanoid-1''"
  "onExecutionUpdate pendingEngine = True"
  by (simp_all add: pendingEngine_def traced_def createTrace_def started_def createExecution_def
        nanoid_def engine0_def notify_def callingOpenAi_def Let_def toString.simps)

theorem updateTrace_unknown_id_changes_nothing_witness:
  "updateTrace ''no-such-id'' (responsePatch TimeoutError) pendingEngine
     = (Inr (), pendingEngine\<lparr>observed := observed pendingEngine @ [pendingExecution]\<rparr>)
   \<and> map action_id (concat (map trace (functionsExecuted pendingExecution))) = [''nanoid-2'']"
proof -
  have h: "\<forall>e\<in>set (functionsExecuted pendingExecution).
             functionExecutionId e = activeFunctionExecutionId pendingEngine
             \<longrightarrow> ''no-such-id'' \<notin> action_id ` set (trace e)"
    by (simp add: pendingExecution_def)
  from updateTrace_unknown_id_changes_nothing [OF pendingEngine_execution h]
  show ?thesis
    by (simp add: pendingEngine_fields) (simp add: pendingExecution_def)
qed

section \<open>Properties of the log registry\<close>

text \<open>
  The merge processes the incoming entries one at a time. When the incoming keys are
  pairwise different this is what the description of the merge says in one step: every
  existing entry is replaced by the incoming entry with its key, when there is one, and
  the incoming entries with a key that no existing entry has are appended.
\<close>

lemma key_overwrite [simp]: "key (overwrite key i e) = key e"
  by (simp add: overwrite_def)

lemma key_fold_overwrite [simp]: "key (fold (overwrite key) B e) = key e"
  by (induction B arbitrary: e) simp_all

lemma keys_upsert: "key ` set (upsert key i acc) = insert (key i) (key ` set acc)"
proof (cases "list_ex (\<lambda>e. key e = key i) acc")
  case True
  then obtain e where "e \<in> set acc" "key e = key i"
    by (auto simp: list_ex_iff)
  then have "key i \<in> key ` set acc"
    by (metis imageI)
  moreover have "key ` set (map (overwrite key i) acc) = key ` set acc"
    by (simp add: image_image)
  ultimately show ?thesis
    using True by (simp add: upsert_def insert_absorb)
next
  case False
  then show ?thesis
    by (simp add: upsert_def)
qed

lemma keys_fold_upsert:
  "key ` set (fold (upsert key) B xs) = key ` set B \<union> key ` set xs"
  by (induction B arbitrary: xs) (simp_all add: keys_upsert)

lemma upsert_same_key:
  "y \<in> set (upsert key b xs) \<Longrightarrow> key y = key b \<Longrightarrow> y = b"
  by (auto simp: upsert_def list_ex_iff overwrite_def split: if_splits)

lemma fold_upsert_present:
  "key ` set B \<subseteq> key ` set ys \<Longrightarrow> fold (upsert key) B ys = map (fold (overwrite key) B) ys"
proof (induction B arbitrary: ys)
  case Nil
  then show ?case by (simp add: map_idI)
next
  case (Cons b B)
  then have "key b \<in> key ` set ys" by simp
  then have u: "upsert key b ys = map (overwrite key b) ys"
    by (auto simp: upsert_def list_ex_iff)
  have "key ` set B \<subseteq> key ` set (map (overwrite key b) ys)"
    using Cons.prems by (simp add: image_image)
  from Cons.IH [OF this] u show ?case
    by simp
qed

lemma fold_upsert_elements:
  "e \<in> set (fold (upsert key) B ys) \<Longrightarrow>
     (\<exists>y\<in>set ys. e = fold (overwrite key) B y)
     \<or> (\<exists>B1 b B2. B = B1 @ b # B2 \<and> e = fold (overwrite key) B2 b)"
proof (induction B arbitrary: ys)
  case Nil
  then show ?case by simp
next
  case (Cons c B)
  from Cons.IH [of "upsert key c ys"] Cons.prems
  consider (old) y where "y \<in> set (upsert key c ys)" "e = fold (overwrite key) B y"
    | (new) B1 b B2 where "B = B1 @ b # B2" "e = fold (overwrite key) B2 b"
    by auto
  then show ?case
  proof cases
    case old
    from old(1) consider (m) x where "x \<in> set ys" "y = overwrite key c x" | (a) "y = c"
      by (auto simp: upsert_def list_ex_iff overwrite_def split: if_splits)
    then show ?thesis
    proof cases
      case m
      with old(2) show ?thesis by auto
    next
      case a
      with old(2) have "c # B = [] @ c # B \<and> e = fold (overwrite key) B c" by simp
      then show ?thesis by blast
    qed
  next
    case new
    then have "c # B = (c # B1) @ b # B2 \<and> e = fold (overwrite key) B2 b" by simp
    then show ?thesis by blast
  qed
qed

lemma fold_upsert_fixed:
  "e \<in> set (fold (upsert key) B xs) \<Longrightarrow> fold (overwrite key) B e = e"
proof (induction B arbitrary: xs)
  case Nil
  then show ?case by simp
next
  case (Cons b B)
  then have mem: "e \<in> set (fold (upsert key) B (upsert key b xs))" by simp
  from Cons.IH [OF mem] have ih: "fold (overwrite key) B e = e" .
  show ?case
  proof (cases "key e = key b")
    case False
    then have "overwrite key b e = e" by (simp add: overwrite_def)
    with ih show ?thesis by simp
  next
    case True
    from fold_upsert_elements [OF mem]
    consider (old) y where "y \<in> set (upsert key b xs)" "e = fold (overwrite key) B y"
      | (new) B1 c B2 where "B = B1 @ c # B2" "e = fold (overwrite key) B2 c"
      by auto
    then have "fold (overwrite key) B b = e"
    proof cases
      case old
      from old(2) True have "key y = key b"
        by (metis key_fold_overwrite)
      with old(1) have "y = b" by (rule upsert_same_key)
      with old(2) show ?thesis by simp
    next
      case new
      from new(2) True have kc: "key c = key b"
        by (metis key_fold_overwrite)
      have "key (fold (overwrite key) B1 b) = key c"
        using kc by simp
      then have "overwrite key c (fold (overwrite key) B1 b) = c"
        by (simp add: overwrite_def)
      with new show ?thesis by simp
    qed
    moreover from True have "overwrite key b e = b" by (simp add: overwrite_def)
    ultimately show ?thesis by simp
  qed
qed

lemma mergeOrUpdate_idem:
  "mergeOrUpdate (mergeOrUpdate existing incoming key) incoming key
     = mergeOrUpdate existing incoming key"
proof -
  let ?R = "fold (upsert key) incoming existing"
  have "key ` set incoming \<subseteq> key ` set ?R"
    by (simp add: keys_fold_upsert)
  then have "fold (upsert key) incoming ?R = map (fold (overwrite key) incoming) ?R"
    by (rule fold_upsert_present)
  also have "\<dots> = ?R"
    by (intro map_idI) (rule fold_upsert_fixed)
  finally show ?thesis
    by (simp add: mergeOrUpdate_def)
qed

lemma mergeOrUpdate_spec_form:
  assumes "distinct (map key incoming)"
  shows "mergeOrUpdate existing incoming key
         = map (\<lambda>e. case find (\<lambda>i. key i = key e) incoming of None \<Rightarrow> e | Some i \<Rightarrow> i) existing
           @ filter (\<lambda>i. key i \<notin> key ` set existing) incoming"
  using assms
proof (induction incoming arbitrary: existing)
  case Nil
  then show ?case by (simp add: mergeOrUpdate_def)
next
  case (Cons b B)
  then have d: "distinct (map key B)" and nb: "key b \<notin> key ` set B" by simp_all
  have nk: "key x \<noteq> key b" if "x \<in> set B" for x
    using nb that by (metis imageI)
  have nf: "find (\<lambda>i. key i = key b) B = None"
    using nk by (simp add: find_None_iff)
  have step: "mergeOrUpdate existing (b # B) key = mergeOrUpdate (upsert key b existing) B key"
    by (simp add: mergeOrUpdate_def)
  show ?case
  proof (cases "list_ex (\<lambda>e. key e = key b) existing")
    case True
    then have kb: "key b \<in> key ` set existing"
      by (auto simp: list_ex_iff) (metis imageI)
    have u: "upsert key b existing = map (overwrite key b) existing"
      using True by (simp add: upsert_def)
    have keys: "key ` set (map (overwrite key b) existing) = key ` set existing"
      by (simp add: image_image)
    have m: "map (\<lambda>e. case find (\<lambda>i. key i = key e) B of None \<Rightarrow> e | Some i \<Rightarrow> i)
               (map (overwrite key b) existing)
             = map (\<lambda>e. case find (\<lambda>i. key i = key e) (b # B) of None \<Rightarrow> e | Some i \<Rightarrow> i)
                 existing"
    proof (simp only: map_map comp_def, intro map_cong refl)
      fix e assume "e \<in> set existing"
      show "(case find (\<lambda>i. key i = key (overwrite key b e)) B of
               None \<Rightarrow> overwrite key b e | Some i \<Rightarrow> i)
            = (case find (\<lambda>i. key i = key e) (b # B) of None \<Rightarrow> e | Some i \<Rightarrow> i)"
      proof (cases "key e = key b")
        case True
        then have "overwrite key b e = b" by (simp add: overwrite_def)
        with True nf show ?thesis by simp
      next
        case False
        then have "overwrite key b e = e" "key b \<noteq> key e" by (simp_all add: overwrite_def)
        then show ?thesis by (simp cong: option.case_cong)
      qed
    qed
    show ?thesis
      unfolding step u Cons.IH [OF d] keys m using kb by simp
  next
    case False
    then have kb: "key b \<notin> key ` set existing"
      by (auto simp: list_ex_iff)
    have u: "upsert key b existing = existing @ [b]"
      using False by (simp add: upsert_def)
    have m: "map (\<lambda>e. case find (\<lambda>i. key i = key e) B of None \<Rightarrow> e | Some i \<Rightarrow> i) existing
             = map (\<lambda>e. case find (\<lambda>i. key i = key e) (b # B) of None \<Rightarrow> e | Some i \<Rightarrow> i)
                 existing"
    proof (intro map_cong refl)
      fix e assume "e \<in> set existing"
      with kb have "key b \<noteq> key e" by (metis imageI)
      then show "(case find (\<lambda>i. key i = key e) B of None \<Rightarrow> e | Some i \<Rightarrow> i)
                 = (case find (\<lambda>i. key i = key e) (b # B) of None \<Rightarrow> e | Some i \<Rightarrow> i)"
        by simp
    qed
    have f: "filter (\<lambda>i. key i \<notin> key ` set (existing @ [b])) B
             = filter (\<lambda>i. key i \<notin> key ` set existing) B"
      using nk by (intro filter_cong) auto
    show ?thesis
      unfolding step u Cons.IH [OF d] using kb nf m f by simp
  qed
qed

lemma mergedLogs_idem: "mergedLogs (mergedLogs a b) b = mergedLogs a b"
  by (simp add: mergedLogs_def mergeOrUpdate_idem split: option.splits)

lemma mergedLogs_id [simp]: "execution_id (mergedLogs a b) = execution_id b"
  by (simp add: mergedLogs_def)

lemma find_replaced:
  assumes "find (\<lambda>e. execution_id e = i) xs = Some x" and "execution_id m = i"
  shows "find (\<lambda>e. execution_id e = i) (map (\<lambda>e. if execution_id e = i then m else e) xs) = Some m"
  using assms by (induction xs) (auto split: if_splits)

lemma logHandler_existing:
  assumes "find (\<lambda>e. execution_id e = execution_id l) (executionLogs R) = Some existingLog"
  shows "fst (logHandler l R) = mergedLogs existingLog l"
    and "executionLogs (snd (logHandler l R))
         = map (\<lambda>e. if execution_id e = execution_id l then mergedLogs existingLog l else e)
               (executionLogs R)"
  using assms by (simp_all add: logHandler_def Let_def saveLog_def)

text \<open>
  C3. For Executions \<open>A\<close> (stored) and \<open>B\<close> (incoming) with the same id, merging
  \<open>B\<close> into the merge of \<open>A\<close> and \<open>B\<close> gives that merge again; so handing the same
  incoming Execution to \<^verbatim>\<open>logHandler\<close> a second time returns the same merged Execution
  and leaves the stored list of Executions as it was after the first time.
\<close>

theorem logHandler_replay_is_idempotent:
  assumes "find (\<lambda>e. execution_id e = execution_id l) (executionLogs R) = Some existingLog"
  shows "mergedLogs (mergedLogs existingLog l) l = mergedLogs existingLog l
       \<and> fst (logHandler l (snd (logHandler l R))) = fst (logHandler l R)
       \<and> executionLogs (snd (logHandler l (snd (logHandler l R))))
           = executionLogs (snd (logHandler l R))"
proof -
  let ?m = "mergedLogs existingLog l"
  let ?R1 = "snd (logHandler l R)"
  have logs1: "executionLogs ?R1
               = map (\<lambda>e. if execution_id e = execution_id l then ?m else e) (executionLogs R)"
    using assms by (rule logHandler_existing)
  have f1: "find (\<lambda>e. execution_id e = execution_id l) (executionLogs ?R1) = Some ?m"
    unfolding logs1 using assms by (rule find_replaced) simp
  have a: "fst (logHandler l ?R1) = mergedLogs ?m l"
    using f1 by (rule logHandler_existing)
  have b: "executionLogs (snd (logHandler l ?R1))
           = map (\<lambda>e. if execution_id e = execution_id l then mergedLogs ?m l else e)
               (executionLogs ?R1)"
    using f1 by (rule logHandler_existing)
  have c: "map (\<lambda>e. if execution_id e = execution_id l then ?m else e) (executionLogs ?R1)
           = executionLogs ?R1"
    unfolding logs1 by (simp add: comp_def)
  show ?thesis
    using a [unfolded mergedLogs_idem] b [unfolded mergedLogs_idem c]
      logHandler_existing(1) [OF assms]
    by (simp add: mergedLogs_idem)
qed

theorem logHandler_replay_is_idempotent_witness:
  "fst (logHandler executionB (snd (logHandler executionB registry0)))
     = fst (logHandler executionB registry0)
   \<and> executionLogs (snd (logHandler executionB (snd (logHandler executionB registry0))))
     = executionLogs (snd (logHandler executionB registry0))
   \<and> map functionExecutionId (functionsExecuted (fst (logHandler executionB registry0)))
     = [''f1'', ''f2'']
   \<and> verified (fst (logHandler executionB registry0)) = Some (JBool True)
   \<and> finalResponse (fst (logHandler executionB registry0)) = Some (JStr ''done'')"
proof -
  have f: "find (\<lambda>e. execution_id e = execution_id executionB) (executionLogs registry0)
             = Some executionA"
    by (simp add: registry0_def executionA_def executionB_def)
  have m: "map functionExecutionId (functionsExecuted (mergedLogs executionA executionB))
             = [''f1'', ''f2'']
           \<and> verified (mergedLogs executionA executionB) = Some (JBool True)
           \<and> finalResponse (mergedLogs executionA executionB) = Some (JStr ''done'')"
    by (simp add: mergedLogs_def mergeOrUpdate_def upsert_def overwrite_def
          executionA_def executionB_def)
  from logHandler_replay_is_idempotent [OF f] logHandler_existing(1) [OF f] m
  show ?thesis
    by simp
qed

end
